theory Spec2Isabelle
  imports Main "HOL-Library.AList"
begin

section \<open>Data model of the chat service\<close>

text \<open>
  The development embeds \<^verbatim>\<open>server/venueless/core/services/chat.py\<close>. The relational
  tables the service reads and writes are lists of rows; primary keys are kept as their
  text (users, channels, rooms, worlds) or as integers (chat events), the way the service
  passes them around.
\<close>

type_synonym user_id = string
type_synonym channel_id = string
type_synonym room_id = string
type_synonym world_id = string
type_synonym timestamp = nat

datatype json = JNull | JBool bool | JInt int | JStr string | JList "json list"
  | JObj "(string \<times> json) list"

text \<open>A Python \<^verbatim>\<open>dict\<close> with string keys, in insertion order.\<close>

type_synonym content = "(string \<times> json) list"

datatype user_type = PERSON | KIOSK | ANONYMOUS

record user =
  uid :: user_id
  user_world :: world_id
  deleted :: bool
  utype :: user_type
  blocked_users :: "user_id list"
  profile :: content

record room =
  room_pk :: room_id
  room_world :: world_id
  force_join :: bool
  room_deleted :: bool

record channel =
  channel_pk :: channel_id
  channel_world :: world_id
  channel_room :: "room_id option"

record membership =
  m_channel :: channel_id
  m_user :: user_id
  volatile :: bool
  hidden :: bool

record chat_event =
  ev_id :: int
  ev_channel :: channel_id
  event_type :: string
  ev_content :: content
  sender :: user_id
  replaces :: "int option"
  edited :: "timestamp option"

record reaction =
  r_event :: int
  r_reaction :: string
  r_sender :: user_id

record notification =
  n_event :: int
  n_recipient :: user_id

record bbb_call =
  call_id :: string
  call_world :: world_id
  call_server :: string
  invited_members :: "user_id list"

text \<open>
  Modelled from the spec: \<^verbatim>\<open>ChatEvent.serialize_public\<close> lives in the model layer, which is
  not part of the sources at hand. The spec says that the event is serialized ``with its
  current reaction set attached'', so the serialized form is the event's row together with
  the reaction rows that point at it.
\<close>

record public_event =
  pe_event :: chat_event
  pe_reactions :: "reaction list"

record audit_entry =
  a_world :: world_id
  a_user :: user_id
  a_type :: string
  a_object :: int
  a_by_same_user :: bool
  a_old :: public_event
  a_new :: public_event

datatype permission = ROOM_CHAT_READ | ROOM_CHAT_JOIN

record world =
  world_pk :: world_id
  feature_flags :: "string list"
  config :: content
  has_permission :: "user \<Rightarrow> permission \<Rightarrow> room option \<Rightarrow> bool"

text \<open>
  The collaborators of spec section 6 that the service calls but does not implement: the
  call-backend chooser, the user's public-profile serializer (given the world's
  \<^verbatim>\<open>trait_badges_map\<close>) and the generator of fresh primary keys (\<^verbatim>\<open>uuid4\<close>, the
  \<open>n\<close>-th draw).
\<close>

record ext =
  choose_server :: "world \<Rightarrow> string"
  serialize_public_user :: "user \<Rightarrow> json option \<Rightarrow> json"
  uuid4 :: "nat \<Rightarrow> string"

record channel_entry =
  ce_id :: channel_id
  ce_unread_pointer :: int
  ce_members :: "json list option"

datatype message =
  Group_send channel_id public_event
  | User_broadcast string "channel_entry list" user_id string

text \<open>
  What workers other than the one under study may do to the shared counter and the event
  log while this worker is suspended at an \<^verbatim>\<open>await\<close>.
\<close>

datatype env_action =
  Env_idle
  | Env_redis_set int
  | Env_redis_flush
  | Env_insert chat_event

text \<open>
  The state: the tables of the relational store, the key \<^verbatim>\<open>chat.event_id\<close> of the counter
  store (\<open>None\<close> when the key is absent), the members of the unread-notify sets, the
  messages handed to the transport, the number of keys drawn so far, and what the other
  workers will do at the coming suspension points.
\<close>

record sys =
  users :: "user list"
  rooms :: "room list"
  channels :: "channel list"
  memberships :: "membership list"
  events :: "chat_event list"
  reactions :: "reaction list"
  notifications :: "notification list"
  bbb_calls :: "bbb_call list"
  audit_log :: "audit_entry list"
  event_counter :: "int option"
  unread_notify :: "(channel_id \<times> user_id) list"
  sent :: "message list"
  uuid_draws :: nat
  pending :: "env_action list"

datatype integrity = Already_exists | Foreign_key

datatype error =
  IntegrityError integrity
  | ValueError string
  | TypeError
  | DoesNotExist
  | MultipleObjectsReturned
  | DatabaseError

section \<open>Dictionaries\<close>

definition setdefault :: "string \<Rightarrow> json \<Rightarrow> content \<Rightarrow> content" where
  "setdefault k d c = (if k \<in> fst ` set c then c else c @ [(k, d)])"

text \<open>\<^verbatim>\<open>content["body"][k] = v\<close>: raises unless the body is itself a dictionary.\<close>

definition set_body_item :: "string \<Rightarrow> json \<Rightarrow> content \<Rightarrow> error + content" where
  "set_body_item k v c =
     (case map_of c ''body'' of
        Some (JObj b) \<Rightarrow> Inr (AList.update ''body'' (JObj (AList.update k v b)) c)
      | _ \<Rightarrow> Inl TypeError)"

text \<open>Python truthiness of the value a \<^verbatim>\<open>dict.get\<close> returns.\<close>

fun truthy :: "json option \<Rightarrow> bool" where
  "truthy None = False"
| "truthy (Some JNull) = False"
| "truthy (Some (JBool b)) = b"
| "truthy (Some (JInt n)) = (n \<noteq> 0)"
| "truthy (Some (JStr s)) = (s \<noteq> [])"
| "truthy (Some (JList xs)) = (xs \<noteq> [])"
| "truthy (Some (JObj kvs)) = (kvs \<noteq> [])"

section \<open>The event counter and the event log\<close>

fun env_step :: "env_action \<Rightarrow> sys \<Rightarrow> sys" where
  "env_step Env_idle s = s"
| "env_step (Env_redis_set v) s = s\<lparr>event_counter := Some v\<rparr>"
| "env_step Env_redis_flush s = s\<lparr>event_counter := None\<rparr>"
| "env_step (Env_insert e) s =
     (if ev_id e \<in> ev_id ` set (events s) then s else s\<lparr>events := events s @ [e]\<rparr>)"

text \<open>A suspension point: the next scheduled action of the other workers happens.\<close>

definition await :: "sys \<Rightarrow> sys" where
  "await s = (case pending s of [] \<Rightarrow> s | a # as \<Rightarrow> env_step a (s\<lparr>pending := as\<rparr>))"

text \<open>
  \<^verbatim>\<open>redis.incr("chat.event_id")\<close>: a missing key counts as 0. The counter store keeps
  signed integers of 64 bits and refuses an increment beyond \<open>2^63 - 1\<close>; the counter here
  is an unbounded integer, so that refusal is outside the model.
\<close>

definition redis_incr :: "sys \<Rightarrow> int \<times> sys" where
  "redis_incr s =
     (let v = (case event_counter s of None \<Rightarrow> 0 | Some c \<Rightarrow> c) + 1
      in (v, s\<lparr>event_counter := Some v\<rparr>))"

definition redis_set :: "int \<Rightarrow> sys \<Rightarrow> sys" where
  "redis_set v s = s\<lparr>event_counter := Some v\<rparr>"

text \<open>\<^verbatim>\<open>ChatEvent.objects.aggregate(m=Max("id"))["m"] or 0\<close>\<close>

definition get_highest_id :: "sys \<Rightarrow> int" where
  "get_highest_id s =
     (case map ev_id (events s) of [] \<Rightarrow> 0 | i # is \<Rightarrow> fold max is i)"

definition get_last_id :: "sys \<Rightarrow> int" where
  "get_last_id s = (case event_counter s of Some v \<Rightarrow> v | None \<Rightarrow> get_highest_id s)"

definition reactions_of :: "int \<Rightarrow> sys \<Rightarrow> reaction list" where
  "reactions_of i s = filter (\<lambda>r. r_event r = i) (reactions s)"

definition serialize_public :: "chat_event \<Rightarrow> sys \<Rightarrow> public_event" where
  "serialize_public e s = \<lparr>pe_event = e, pe_reactions = reactions_of (ev_id e) s\<rparr>"

text \<open>
  \<^verbatim>\<open>ChatEvent.objects.create\<close>. The primary key is unique, so a row with a stored id is
  refused with ``already exists'', the error that \<^verbatim>\<open>_store_event\<close> turns into \<^verbatim>\<open>None\<close>.
  The channel, the sender and the replaced event are references to stored rows; a row that
  breaks one of them is refused with the other integrity error, which \<^verbatim>\<open>_store_event\<close>
  raises again.
\<close>

definition chat_event_create :: "chat_event \<Rightarrow> sys \<Rightarrow> error + sys" where
  "chat_event_create e s =
     (if ev_id e \<in> ev_id ` set (events s) then Inl (IntegrityError Already_exists)
      else if ev_channel e \<notin> channel_pk ` set (channels s)
              \<or> sender e \<notin> uid ` set (users s)
              \<or> (case replaces e of None \<Rightarrow> False
                  | Some r \<Rightarrow> r \<notin> ev_id ` set (events s))
           then Inl (IntegrityError Foreign_key)
      else Inr (s\<lparr>events := events s @ [e]\<rparr>))"

text \<open>The row that \<^verbatim>\<open>_store_event\<close> hands to \<^verbatim>\<open>ChatEvent.objects.create\<close>.\<close>

definition new_event ::
  "channel \<Rightarrow> int \<Rightarrow> string \<Rightarrow> content \<Rightarrow> user \<Rightarrow> int option \<Rightarrow> chat_event" where
  "new_event ch i etype c sndr rep =
     \<lparr>ev_id = i, ev_channel = channel_pk ch, event_type = etype, ev_content = c,
      sender = uid sndr, replaces = rep, edited = None\<rparr>"

text \<open>
  The first block of \<^verbatim>\<open>_store_event\<close>: a call is given its backend, and the content
  dictionary is changed in place. It yields the changed content, or the error raised.
\<close>

definition assign_call ::
  "ext \<Rightarrow> world \<Rightarrow> channel \<Rightarrow> content \<Rightarrow> sys \<Rightarrow> (error + content) \<times> sys" where
  "assign_call x w ch c s =
     (if map_of c ''type'' = Some (JStr ''call'') then
        if ''janus'' \<in> set (feature_flags w) then
          (set_body_item ''type'' (JStr ''janus'') (setdefault ''body'' (JObj []) c), s)
        else
          let call = \<lparr>call_id = uuid4 x (uuid_draws s), call_world = world_pk w,
                      call_server = choose_server x w,
                      invited_members =
                        map m_user (filter (\<lambda>m. m_channel m = channel_pk ch) (memberships s))\<rparr>;
              s' = s\<lparr>bbb_calls := bbb_calls s @ [call], uuid_draws := uuid_draws s + 1\<rparr>
          in case set_body_item ''id'' (JStr (call_id call)) (setdefault ''body'' (JObj []) c) of
               Inl e \<Rightarrow> (Inl e, s')
             | Inr c' \<Rightarrow> (set_body_item ''type'' (JStr ''bbb'') c', s')
      else (Inr c, s))"

text \<open>
  \<^verbatim>\<open>_store_event\<close>: \<open>Inr None\<close> is the \<^verbatim>\<open>None\<close> returned when the id is taken; the
  content is returned as well, since the caller keeps the dictionary that was changed.
\<close>

definition store_event ::
  "ext \<Rightarrow> world \<Rightarrow> channel \<Rightarrow> int \<Rightarrow> string \<Rightarrow> content \<Rightarrow> user \<Rightarrow> int option \<Rightarrow> sys
    \<Rightarrow> (error + public_event option) \<times> content \<times> sys" where
  "store_event x w ch i etype c sndr rep s =
     (case assign_call x w ch c s of
        (Inl e, s1) \<Rightarrow> (Inl e, setdefault ''body'' (JObj []) c, s1)
      | (Inr c1, s1) \<Rightarrow>
          (case chat_event_create (new_event ch i etype c1 sndr rep) s1 of
             Inl (IntegrityError Already_exists) \<Rightarrow> (Inr None, c1, s1)
           | Inl e \<Rightarrow> (Inl e, c1, s1)
           | Inr s2 \<Rightarrow>
               (Inr (Some (serialize_public (new_event ch i etype c1 sndr rep) s2)), c1, s2)))"

text \<open>
  \<^verbatim>\<open>create_event\<close>. Every \<^verbatim>\<open>await\<close> of the source is a suspension point. The test
  \<^verbatim>\<open>if event\<close> is the test for \<^verbatim>\<open>None\<close>, since a serialized event is a dictionary that is
  not empty. The retry is the call of the function by itself with \<^verbatim>\<open>_retry=True\<close>, the
  changed content and no \<^verbatim>\<open>replaces\<close> argument.
\<close>

function create_event ::
  "ext \<Rightarrow> world \<Rightarrow> channel \<Rightarrow> string \<Rightarrow> content \<Rightarrow> user \<Rightarrow> int option \<Rightarrow> bool \<Rightarrow> sys
    \<Rightarrow> (error + public_event) \<times> sys" where
  "create_event x w ch etype c sndr rep retry s =
     (let (event_id, s1) = redis_incr (await s);
          s2 = (if event_id < 2 then
                  let s' = await s1; current_max = get_highest_id s'
                  in redis_set (current_max + 1) (await s')
                else s1);
          (r, c', s3) = store_event x w ch event_id etype c sndr rep (await s2)
      in case r of
           Inl e \<Rightarrow> (Inl e, s3)
         | Inr (Some event) \<Rightarrow> (Inr event, s3)
         | Inr None \<Rightarrow>
             if \<not> retry then
               let s4 = await s3; current_max = get_highest_id s4;
                   s5 = redis_set (current_max + 1) (await s4)
               in create_event x w ch etype c' sndr None True s5
             else (Inl (ValueError ''unable to recover in store_event''), s3))"
  by pat_completeness auto
termination
  by (relation "measure (\<lambda>(x, w, ch, etype, c, sndr, rep, retry, s). if retry then 0 else 1)") auto

section \<open>Channels and memberships\<close>

text \<open>\<^verbatim>\<open>QuerySet.get\<close> on the rows a filter has selected.\<close>

definition get_one :: "'a list \<Rightarrow> error + 'a" where
  "get_one rows =
     (case rows of [] \<Rightarrow> Inl DoesNotExist | [r] \<Rightarrow> Inr r | _ \<Rightarrow> Inl MultipleObjectsReturned)"

definition member_rows :: "channel_id \<Rightarrow> user_id \<Rightarrow> sys \<Rightarrow> membership list" where
  "member_rows cid u s = filter (\<lambda>m. m_channel m = cid \<and> m_user m = u) (memberships s)"

text \<open>
  \<^verbatim>\<open>add_channel_user\<close>: \<^verbatim>\<open>Membership.objects.get_or_create\<close>, then the volatile flag is
  cleared on a row that was found. A new row is not hidden. The new row refers to the
  channel and to the user: when one of the two is not stored the insert is refused with an
  integrity error, which is not the \<^verbatim>\<open>User.DoesNotExist\<close> that the function suppresses,
  and the transaction leaves no row. A row that is found is returned without any insert.
\<close>

definition add_channel_user :: "channel_id \<Rightarrow> user \<Rightarrow> bool \<Rightarrow> sys \<Rightarrow> (error + bool) \<times> sys" where
  "add_channel_user cid u vol s =
     (case member_rows cid (uid u) s of
        [] \<Rightarrow>
          if cid \<notin> channel_pk ` set (channels s) \<or> uid u \<notin> uid ` set (users s)
          then (Inl (IntegrityError Foreign_key), s)
          else
            (Inr True,
             s\<lparr>memberships := memberships s @
                 [\<lparr>m_channel = cid, m_user = uid u, volatile = vol, hidden = False\<rparr>]\<rparr>)
      | [m] \<Rightarrow>
          if volatile m \<and> \<not> vol then
            (Inr False,
             s\<lparr>memberships :=
                 map (\<lambda>m'. if m_channel m' = cid \<and> m_user m' = uid u
                            then m'\<lparr>volatile := False\<rparr> else m') (memberships s)\<rparr>)
          else (Inr False, s)
      | _ \<Rightarrow> (Inl MultipleObjectsReturned, s))"

definition remove_channel_user :: "channel_id \<Rightarrow> user_id \<Rightarrow> sys \<Rightarrow> sys" where
  "remove_channel_user cid u s =
     s\<lparr>memberships := filter (\<lambda>m. \<not> (m_channel m = cid \<and> m_user m = u)) (memberships s)\<rparr>"

definition hide_channel_user :: "channel_id \<Rightarrow> user_id \<Rightarrow> sys \<Rightarrow> sys" where
  "hide_channel_user cid u s =
     s\<lparr>memberships :=
         map (\<lambda>m. if m_channel m = cid \<and> m_user m = u then m\<lparr>hidden := True\<rparr> else m)
           (memberships s)\<rparr>"

definition user_row :: "user_id \<Rightarrow> sys \<Rightarrow> user option" where
  "user_row u s = find (\<lambda>r. uid r = u) (users s)"

definition show_channels_to_hidden_users :: "channel_id \<Rightarrow> sys \<Rightarrow> user list \<times> sys" where
  "show_channels_to_hidden_users cid s =
     (concat (map (\<lambda>m. case user_row (m_user m) s of None \<Rightarrow> [] | Some r \<Rightarrow> [r])
        (filter (\<lambda>m. m_channel m = cid \<and> hidden m) (memberships s))),
      s\<lparr>memberships :=
          map (\<lambda>m. if m_channel m = cid \<and> hidden m then m\<lparr>hidden := False\<rparr> else m)
            (memberships s)\<rparr>)"

text \<open>
  The annotation \<^verbatim>\<open>max_id\<close> of \<^verbatim>\<open>get_channels_for_user\<close>: the highest id among the
  channel's events that are not membership changes, \<^verbatim>\<open>NULL\<close> when there is none.
\<close>

definition max_nonmember_id :: "channel_id \<Rightarrow> sys \<Rightarrow> int option" where
  "max_nonmember_id cid s =
     (case map ev_id (filter (\<lambda>e. ev_channel e = cid \<and> event_type e \<noteq> ''channel.member'')
                        (events s)) of
        [] \<Rightarrow> None | i # is \<Rightarrow> Some (fold max is i))"

definition channel_row :: "channel_id \<Rightarrow> sys \<Rightarrow> channel option" where
  "channel_row cid s = find (\<lambda>c. channel_pk c = cid) (channels s)"

definition get_channels_for_user ::
  "ext \<Rightarrow> world \<Rightarrow> user_id \<Rightarrow> bool option \<Rightarrow> bool option \<Rightarrow> sys \<Rightarrow> channel_entry list" where
  "get_channels_for_user x w u is_volatile is_hidden s =
     concat (map (\<lambda>m.
        case channel_row (m_channel m) s of
          None \<Rightarrow> []
        | Some c \<Rightarrow>
            if channel_world c = world_pk w \<and> m_user m = u
               \<and> (case is_hidden of None \<Rightarrow> True | Some h \<Rightarrow> hidden m = h)
               \<and> (case is_volatile of None \<Rightarrow> True | Some v \<Rightarrow> volatile m = v)
            then
              [\<lparr>ce_id = m_channel m,
                ce_unread_pointer = (case max_nonmember_id (m_channel m) s of
                                       None \<Rightarrow> 0 | Some i \<Rightarrow> i),
                ce_members =
                  (if channel_room c = None then
                     Some (concat (map (\<lambda>d. case user_row (m_user d) s of
                                          None \<Rightarrow> []
                                        | Some r \<Rightarrow>
                                            [serialize_public_user x r
                                               (map_of (config w) ''trait_badges_map'')])
                             (filter (\<lambda>d. m_channel d = m_channel m) (memberships s))))
                   else None)\<rparr>]
            else [])
        (memberships s))"

section \<open>Direct channels\<close>

text \<open>
  The annotated query of \<^verbatim>\<open>get_or_create_direct_channel\<close>: no member outside the requested
  ids (\<^verbatim>\<open>mcount_mismatch\<close> is \<^verbatim>\<open>NULL\<close>), as many member rows inside as ids were requested
  (\<^verbatim>\<open>mcount_match\<close>, which is \<^verbatim>\<open>NULL\<close> and equal to no number when there is no such
  row), no room, this world.
\<close>

definition direct_match :: "world \<Rightarrow> user_id list \<Rightarrow> sys \<Rightarrow> channel \<Rightarrow> bool" where
  "direct_match w user_ids s c =
     (filter (\<lambda>m. m_channel m = channel_pk c \<and> m_user m \<notin> set user_ids) (memberships s) = []
      \<and> length (filter (\<lambda>m. m_channel m = channel_pk c \<and> m_user m \<in> set user_ids)
                  (memberships s)) = length user_ids
      \<and> filter (\<lambda>m. m_channel m = channel_pk c \<and> m_user m \<in> set user_ids) (memberships s) \<noteq> []
      \<and> channel_room c = None
      \<and> channel_world c = world_pk w)"

definition not_eligible :: "user list \<Rightarrow> user_id list \<Rightarrow> bool" where
  "not_eligible us user_ids =
     (length us \<noteq> length user_ids
      \<or> length us < 2
      \<or> list_ex (\<lambda>u. list_ex (\<lambda>v. uid v \<in> set (blocked_users u)) (filter (\<lambda>v. uid v \<noteq> uid u) us)
                      \<or> deleted u
                      \<or> utype u \<in> {KIOSK, ANONYMOUS}) us)"

text \<open>The users of the world among the requested ids, in the order of the table.\<close>

definition tenant_users :: "world \<Rightarrow> user_id list \<Rightarrow> sys \<Rightarrow> user list" where
  "tenant_users w user_ids s =
     filter (\<lambda>u. user_world u = world_pk w \<and> uid u \<in> set user_ids) (users s)"

definition get_or_create_direct_channel ::
  "ext \<Rightarrow> world \<Rightarrow> user_id list \<Rightarrow> bool \<Rightarrow> string option \<Rightarrow> sys
    \<Rightarrow> (error + channel option \<times> bool \<times> user list) \<times> sys" where
  "get_or_create_direct_channel x w user_ids hide hide_except s =
     (let us = tenant_users w user_ids s
      in if not_eligible us user_ids then (Inr (None, False, []), s)
         else
           case get_one (filter (direct_match w user_ids s) (channels s)) of
             Inr c \<Rightarrow> (Inr (Some c, False, us), s)
           | Inl DoesNotExist \<Rightarrow>
               let c = \<lparr>channel_pk = uuid4 x (uuid_draws s), channel_world = world_pk w,
                        channel_room = None\<rparr>;
                   s1 = s\<lparr>uuid_draws := uuid_draws s + 1\<rparr>
               in if channel_pk c \<in> channel_pk ` set (channels s)
                  then (Inl (IntegrityError Already_exists), s1)
                  else
                    (Inr (Some c, True, us),
                     s1\<lparr>channels := channels s @ [c],
                        memberships := memberships s @
                          map (\<lambda>u. \<lparr>m_channel = channel_pk c, m_user = uid u, volatile = False,
                                     hidden = (hide \<and> Some (uid u) \<noteq> hide_except)\<rparr>) us\<rparr>)
           | Inl e \<Rightarrow> (Inl e, s))"

section \<open>Reactions and notifications\<close>

definition get_event :: "int \<Rightarrow> sys \<Rightarrow> error + chat_event" where
  "get_event pk s = get_one (filter (\<lambda>e. ev_id e = pk) (events s))"

text \<open>The reaction rows of one event, symbol and sender.\<close>

definition reaction_rows :: "chat_event \<Rightarrow> string \<Rightarrow> user \<Rightarrow> sys \<Rightarrow> reaction list" where
  "reaction_rows event rc u s =
     filter (\<lambda>r. r_event r = ev_id event \<and> r_reaction r = rc \<and> r_sender r = uid u) (reactions s)"

definition remove_reaction ::
  "chat_event \<Rightarrow> string \<Rightarrow> user \<Rightarrow> sys \<Rightarrow> (error + public_event) \<times> sys" where
  "remove_reaction event rc u s =
     (let s1 = s\<lparr>reactions :=
                  filter (\<lambda>r. \<not> (r_event r = ev_id event \<and> r_reaction r = rc \<and> r_sender r = uid u))
                    (reactions s)\<rparr>
      in case get_event (ev_id event) s1 of
           Inl e \<Rightarrow> (Inl e, s1)
         | Inr e \<Rightarrow> (Inr (serialize_public e s1), s1))"

text \<open>
  \<^verbatim>\<open>add_reaction\<close>: \<^verbatim>\<open>update_or_create\<close> without defaults, so a row that is found is
  saved as it is.
\<close>

definition add_reaction ::
  "chat_event \<Rightarrow> string \<Rightarrow> user \<Rightarrow> sys \<Rightarrow> (error + public_event) \<times> sys" where
  "add_reaction event rc u s =
     (case reaction_rows event rc u s of
        _ # _ # _ \<Rightarrow> (Inl MultipleObjectsReturned, s)
      | rows \<Rightarrow>
          let s1 = (if rows = []
                    then s\<lparr>reactions := reactions s @
                            [\<lparr>r_event = ev_id event, r_reaction = rc, r_sender = uid u\<rparr>]\<rparr>
                    else s)
          in case get_event (ev_id event) s1 of
               Inl e \<Rightarrow> (Inl e, s1)
             | Inr e \<Rightarrow> (Inr (serialize_public e s1), s1))"

text \<open>The channel of the event a notification points at (the join on \<^verbatim>\<open>chat_event\<close>).\<close>

definition notification_channel :: "sys \<Rightarrow> notification \<Rightarrow> channel_id option" where
  "notification_channel s n = map_option ev_channel (find (\<lambda>e. ev_id e = n_event n) (events s))"

text \<open>The dictionary \<^verbatim>\<open>get_notification_counts\<close> returns, one entry for each group.\<close>

definition get_notification_counts :: "user_id \<Rightarrow> sys \<Rightarrow> (channel_id \<times> nat) list" where
  "get_notification_counts u s =
     (let cs = List.map_filter (notification_channel s)
                 (filter (\<lambda>n. n_recipient n = u) (notifications s))
      in map (\<lambda>c. (c, count_list cs c)) (remdups cs))"

definition store_notification :: "int \<Rightarrow> user_id list \<Rightarrow> sys \<Rightarrow> sys" where
  "store_notification event_id user_ids s =
     s\<lparr>notifications := notifications s @
         map (\<lambda>u. \<lparr>n_event = event_id, n_recipient = u\<rparr>) user_ids\<rparr>"

definition to_remove :: "user_id \<Rightarrow> channel_id \<Rightarrow> int \<Rightarrow> sys \<Rightarrow> notification \<Rightarrow> bool" where
  "to_remove u cid max_id s n =
     (n_event n \<le> max_id \<and> notification_channel s n = Some cid \<and> n_recipient n = u)"

definition remove_notifications :: "user_id \<Rightarrow> channel_id \<Rightarrow> int \<Rightarrow> sys \<Rightarrow> bool \<times> sys" where
  "remove_notifications u cid max_id s =
     (let deleted_count = length (filter (to_remove u cid max_id s) (notifications s))
      in (deleted_count > 0,
          s\<lparr>notifications := filter (\<lambda>n. \<not> to_remove u cid max_id s n) (notifications s)\<rparr>))"

section \<open>Editing an event\<close>

text \<open>
  \<^verbatim>\<open>update_event\<close>, in one transaction: \<^verbatim>\<open>save(update_fields=["content", "edited"])\<close>
  writes the two columns of the row with the event's key and fails when there is no such
  row; \<open>now\<close> is the clock's reading. The event given is the caller's object; the audit
  entry holds its serialized form before and after the two assignments. The entry's
  \<^verbatim>\<open>by_same_user\<close> is \<^verbatim>\<open>by_user.id == str(event.sender_id)\<close>: the left side is the
  user's key as a UUID object, the right side a string, and Python finds the two unequal
  whatever the keys are. The entry therefore holds \<^verbatim>\<open>False\<close>, also when the editor is
  the sender.
\<close>

definition update_event ::
  "world \<Rightarrow> chat_event \<Rightarrow> content \<Rightarrow> user \<Rightarrow> timestamp \<Rightarrow> sys \<Rightarrow> (error + unit) \<times> sys" where
  "update_event w event new_content by_user now s =
     (let old = serialize_public event s;
          event' = event\<lparr>ev_content := new_content, edited := Some now\<rparr>
      in if ev_id event \<notin> ev_id ` set (events s) then (Inl DatabaseError, s)
         else
           let s1 = s\<lparr>events :=
                       map (\<lambda>e. if ev_id e = ev_id event
                                 then e\<lparr>ev_content := new_content, edited := Some now\<rparr> else e)
                         (events s)\<rparr>;
               new = serialize_public event' s1
           in (Inr (),
               s1\<lparr>audit_log := audit_log s1 @
                    [\<lparr>a_world = world_pk w, a_user = uid by_user,
                      a_type = ''chat.event.updated'', a_object = ev_id event,
                      a_by_same_user = False,
                      a_old = old, a_new = new\<rparr>]\<rparr>))"

section \<open>Forced joins\<close>

definition room_row :: "room_id \<Rightarrow> sys \<Rightarrow> room option" where
  "room_row r s = find (\<lambda>x. room_pk x = r) (rooms s)"

text \<open>Each channel comes with its room, as \<^verbatim>\<open>select_related("room")\<close> loads it.\<close>

definition get_channels_to_join_forced :: "world \<Rightarrow> user \<Rightarrow> sys \<Rightarrow> (channel \<times> room) list" where
  "get_channels_to_join_forced w u s =
     concat (map (\<lambda>c.
        case channel_room c of
          None \<Rightarrow> []
        | Some r \<Rightarrow>
            (case room_row r s of
               None \<Rightarrow> []
             | Some rm \<Rightarrow>
                 if filter (\<lambda>m. m_channel m = channel_pk c \<and> m_user m = uid u \<and> \<not> volatile m)
                      (memberships s) = []
                    \<and> channel_world c = world_pk w \<and> force_join rm
                 then [(c, rm)] else []))
        (channels s))"

definition group_send :: "channel_id \<Rightarrow> public_event \<Rightarrow> sys \<Rightarrow> sys" where
  "group_send cid event s = s\<lparr>sent := sent s @ [Group_send cid event]\<rparr>"

definition broadcast_channel_list :: "ext \<Rightarrow> world \<Rightarrow> user \<Rightarrow> string \<Rightarrow> sys \<Rightarrow> sys" where
  "broadcast_channel_list x w u socket_id s =
     s\<lparr>sent := sent s @
         [User_broadcast ''chat.channels''
            (get_channels_for_user x w (uid u) (Some False) (Some False) s) (uid u) socket_id]\<rparr>"

text \<open>\<^verbatim>\<open>redis.sadd\<close> on the set \<^verbatim>\<open>chat:unread.notify:<channel>\<close>.\<close>

definition unread_notify_add :: "channel_id \<Rightarrow> user_id \<Rightarrow> sys \<Rightarrow> sys" where
  "unread_notify_add cid u s = s\<lparr>unread_notify := List.insert (cid, u) (unread_notify s)\<rparr>"

definition join_content :: "ext \<Rightarrow> world \<Rightarrow> user \<Rightarrow> content" where
  "join_content x w u =
     [(''membership'', JStr ''join''),
      (''user'', serialize_public_user x u (map_of (config w) ''trait_badges_map''))]"

text \<open>The loop of \<^verbatim>\<open>enforce_forced_joins\<close> over the channels found.\<close>

fun enforce_loop ::
  "ext \<Rightarrow> world \<Rightarrow> user \<Rightarrow> (channel \<times> room) list \<Rightarrow> sys \<Rightarrow> (error + unit) \<times> sys" where
  "enforce_loop x w u [] s = (Inr (), s)"
| "enforce_loop x w u ((ch, rm) # rest) s =
     (if \<not> has_permission w u ROOM_CHAT_JOIN (Some rm) then enforce_loop x w u rest s
      else
        case add_channel_user (channel_pk ch) u False s of
          (Inl e, s1) \<Rightarrow> (Inl e, s1)
        | (Inr joined, s1) \<Rightarrow>
            if joined then
              case create_event x w ch ''channel.member'' (join_content x w u) u None False s1 of
                (Inl e, s2) \<Rightarrow> (Inl e, s2)
              | (Inr event, s2) \<Rightarrow>
                  enforce_loop x w u rest
                    (unread_notify_add (channel_pk ch) (uid u)
                       (broadcast_channel_list x w u ''dummysocket''
                          (group_send (channel_pk ch) event s2)))
            else enforce_loop x w u rest s1)"

definition enforce_forced_joins :: "ext \<Rightarrow> world \<Rightarrow> user \<Rightarrow> sys \<Rightarrow> (error + unit) \<times> sys" where
  "enforce_forced_joins x w u s =
     (if \<not> truthy (map_of (profile u) ''display_name'') then (Inr (), s)
      else
        let c_to_join = get_channels_to_join_forced w u s
        in if c_to_join = [] then (Inr (), s) else enforce_loop x w u c_to_join s)"

section \<open>Notions used in the statements\<close>

text \<open>
  One attempt of \<^verbatim>\<open>create_event\<close>: the part of its body from the increment of the counter
  to the return of \<^verbatim>\<open>_store_event\<close>.
\<close>

definition attempt ::
  "ext \<Rightarrow> world \<Rightarrow> channel \<Rightarrow> string \<Rightarrow> content \<Rightarrow> user \<Rightarrow> int option \<Rightarrow> sys
    \<Rightarrow> (error + public_event option) \<times> content \<times> sys" where
  "attempt x w ch etype c sndr rep s =
     (let (event_id, s1) = redis_incr (await s);
          s2 = (if event_id < 2 then
                  let s' = await s1; current_max = get_highest_id s'
                  in redis_set (current_max + 1) (await s')
                else s1)
      in store_event x w ch event_id etype c sndr rep (await s2))"

text \<open>The self-healing step of \<^verbatim>\<open>create_event\<close> before it calls itself.\<close>

definition heal :: "sys \<Rightarrow> sys" where
  "heal s = (let s4 = await s; current_max = get_highest_id s4
             in redis_set (current_max + 1) (await s4))"

text \<open>
  Content that \<^verbatim>\<open>_store_event\<close> can give a call backend to: a call's body, when there is
  one, is a dictionary.
\<close>

definition call_ready :: "content \<Rightarrow> bool" where
  "call_ready c =
     (case map_of c ''body'' of None \<Rightarrow> True | Some (JObj b) \<Rightarrow> True
      | Some _ \<Rightarrow> map_of c ''type'' \<noteq> Some (JStr ''call''))"

text \<open>The second state differs from the first in the call table and the key generator only.\<close>

definition call_frame :: "sys \<Rightarrow> sys \<Rightarrow> bool" where
  "call_frame s s1 = (s1 = s\<lparr>bbb_calls := bbb_calls s1, uuid_draws := uuid_draws s1\<rparr>)"

section \<open>A small world for concrete runs\<close>

definition ex_ext :: ext where
  "ex_ext = \<lparr>choose_server = (\<lambda>w. ''bbb1''), serialize_public_user = (\<lambda>u t. JStr (uid u)),
             uuid4 = (\<lambda>n. replicate (Suc n) CHR ''n'')\<rparr>"

definition ex_world :: world where
  "ex_world = \<lparr>world_pk = ''w'', feature_flags = [], config = [],
               has_permission = (\<lambda>u p r. True)\<rparr>"

definition ex_user :: "string \<Rightarrow> user" where
  "ex_user n = \<lparr>uid = n, user_world = ''w'', deleted = False, utype = PERSON,
               blocked_users = [], profile = [(''display_name'', JStr n)]\<rparr>"

definition ex_channel :: channel where
  "ex_channel = \<lparr>channel_pk = ''c'', channel_world = ''w'', channel_room = None\<rparr>"

definition ex_event :: "int \<Rightarrow> chat_event" where
  "ex_event i = \<lparr>ev_id = i, ev_channel = ''c'', event_type = ''channel.message'',
                 ev_content = [], sender = ''a'', replaces = None, edited = None\<rparr>"

definition ex_sys :: sys where
  "ex_sys = \<lparr>users = [ex_user ''a'', ex_user ''b'', ex_user ''d''], rooms = [],
             channels = [ex_channel], memberships = [], events = [], reactions = [],
             notifications = [], bbb_calls = [], audit_log = [], event_counter = None,
             unread_notify = [], sent = [], uuid_draws = 0, pending = []\<rparr>"

definition ex_log :: "int list \<Rightarrow> int option \<Rightarrow> sys" where
  "ex_log ids cnt = ex_sys\<lparr>events := map ex_event ids, event_counter := cnt\<rparr>"

text \<open>The uniqueness constraint of the membership table: one row for a channel and a user.\<close>

definition unique_members :: "sys \<Rightarrow> bool" where
  "unique_members s = distinct (map (\<lambda>m. (m_channel m, m_user m)) (memberships s))"

definition ex_member :: "channel_id \<Rightarrow> user_id \<Rightarrow> bool \<Rightarrow> membership" where
  "ex_member cid u vol = \<lparr>m_channel = cid, m_user = u, volatile = vol, hidden = False\<rparr>"

definition ex_members :: "membership list \<Rightarrow> sys" where
  "ex_members ms = ex_sys\<lparr>memberships := ms\<rparr>"

definition ex_users :: "user list \<Rightarrow> sys" where
  "ex_users us = ex_sys\<lparr>users := us\<rparr>"

text \<open>The users that have a membership row in a channel.\<close>

definition member_set :: "channel_id \<Rightarrow> sys \<Rightarrow> user_id set" where
  "member_set cid s = m_user ` set (filter (\<lambda>m. m_channel m = cid) (memberships s))"

text \<open>Every membership row belongs to a stored channel.\<close>

definition members_refer :: "sys \<Rightarrow> bool" where
  "members_refer s = list_all (\<lambda>m. m_channel m \<in> channel_pk ` set (channels s)) (memberships s)"

text \<open>The rows \<^verbatim>\<open>get_or_create_direct_channel\<close> adds for a new channel.\<close>

definition direct_rows :: "channel_id \<Rightarrow> bool \<Rightarrow> string option \<Rightarrow> user list \<Rightarrow> membership list" where
  "direct_rows cid hide hide_except us =
     map (\<lambda>u. \<lparr>m_channel = cid, m_user = uid u, volatile = False,
                hidden = (hide \<and> Some (uid u) \<noteq> hide_except)\<rparr>) us"

definition ex_direct :: "channel_id \<Rightarrow> channel" where
  "ex_direct n = \<lparr>channel_pk = n, channel_world = ''w'', channel_room = None\<rparr>"

definition ex_hidden :: "channel_id \<Rightarrow> user_id \<Rightarrow> membership" where
  "ex_hidden cid u = \<lparr>m_channel = cid, m_user = u, volatile = False, hidden = True\<rparr>"

definition ex_direct_sys :: sys where
  "ex_direct_sys =
     ex_sys\<lparr>channels := [ex_channel, ex_direct ''n''],
            memberships := [ex_hidden ''n'' ''a'', ex_hidden ''n'' ''b''],
            uuid_draws := 1\<rparr>"

text \<open>The number of notifications a user has in a channel.\<close>

definition outstanding :: "user_id \<Rightarrow> channel_id \<Rightarrow> sys \<Rightarrow> nat" where
  "outstanding u cid s =
     length (filter (\<lambda>n. n_recipient n = u \<and> notification_channel s n = Some cid)
               (notifications s))"

definition ex_reaction :: reaction where
  "ex_reaction = \<lparr>r_event = 5, r_reaction = ''+1'', r_sender = ''a''\<rparr>"

text \<open>
  A step that touches the event log and the counter only: the stored events stay as they
  are, events may be appended, and beside the log only the counter, the call table, the key
  generator and the schedule of the other workers may differ.
\<close>

definition log_step :: "sys \<Rightarrow> sys \<Rightarrow> bool" where
  "log_step s s' =
     (take (length (events s)) (events s') = events s
      \<and> s' = s\<lparr>events := events s', event_counter := event_counter s',
                bbb_calls := bbb_calls s', uuid_draws := uuid_draws s', pending := pending s'\<rparr>)"

text \<open>The stored events are kept as they are; events may have been appended.\<close>

definition events_kept :: "sys \<Rightarrow> sys \<Rightarrow> bool" where
  "events_kept s s' = (take (length (events s)) (events s') = events s)"

text \<open>The user has a membership row in the channel that is not volatile.\<close>

definition joined :: "user \<Rightarrow> channel_id \<Rightarrow> sys \<Rightarrow> bool" where
  "joined u cid s =
     (filter (\<lambda>m. m_channel m = cid \<and> m_user m = uid u \<and> \<not> volatile m) (memberships s) \<noteq> [])"

definition ex_edited :: chat_event where
  "ex_edited = (ex_event 5)\<lparr>ev_content := [(''body'', JStr ''x'')], edited := Some 7\<rparr>"

definition ex_audit :: audit_entry where
  "ex_audit = \<lparr>a_world = ''w'', a_user = ''a'', a_type = ''chat.event.updated'', a_object = 5,
               a_by_same_user = False,
               a_old = \<lparr>pe_event = ex_event 5, pe_reactions = []\<rparr>,
               a_new = \<lparr>pe_event = ex_edited, pe_reactions = []\<rparr>\<rparr>"

definition ex_room :: room where
  "ex_room = \<lparr>room_pk = ''r'', room_world = ''w'', force_join = True, room_deleted = False\<rparr>"

definition ex_room_channel :: channel where
  "ex_room_channel = \<lparr>channel_pk = ''rc'', channel_world = ''w'', channel_room = Some ''r''\<rparr>"

definition ex_forced :: sys where
  "ex_forced = ex_sys\<lparr>rooms := [ex_room], channels := [ex_channel, ex_room_channel]\<rparr>"

definition ex_closed_world :: world where
  "ex_closed_world = ex_world\<lparr>has_permission := (\<lambda>u p r. False)\<rparr>"

definition ex_join :: public_event where
  "ex_join =
     \<lparr>pe_event = \<lparr>ev_id = 1, ev_channel = ''rc'', event_type = ''channel.member'',
                   ev_content = [(''membership'', JStr ''join''), (''user'', JStr ''a'')],
                   sender = ''a'', replaces = None, edited = None\<rparr>,
      pe_reactions = []\<rparr>"

definition ex_forced_done :: sys where
  "ex_forced_done =
     ex_forced\<lparr>memberships := [ex_member ''rc'' ''a'' False], events := [pe_event ex_join],
                event_counter := Some 1, unread_notify := [(''rc'', ''a'')],
                sent := [Group_send ''rc'' ex_join,
                         User_broadcast ''chat.channels''
                           [\<lparr>ce_id = ''rc'', ce_unread_pointer = 0, ce_members = None\<rparr>]
                           ''a'' ''dummysocket'']\<rparr>"

text \<open>The messages handed to the transport between two states.\<close>

definition sent_by :: "sys \<Rightarrow> sys \<Rightarrow> message list" where
  "sent_by s s' = drop (length (sent s)) (sent s')"

text \<open>The events that a list of messages sends to channels.\<close>

fun sent_events :: "message list \<Rightarrow> chat_event list" where
  "sent_events [] = []"
| "sent_events (Group_send cid ev # ms) = pe_event ev # sent_events ms"
| "sent_events (User_broadcast kind entries v sock # ms) = sent_events ms"

text \<open>The channels among those found that the permission oracle lets the user join.\<close>

definition permitted :: "world \<Rightarrow> user \<Rightarrow> (channel \<times> room) list \<Rightarrow> channel_id list" where
  "permitted w u cs =
     map (\<lambda>(c, rm). channel_pk c)
       (filter (\<lambda>(c, rm). has_permission w u ROOM_CHAT_JOIN (Some rm)) cs)"

text \<open>
  A message of a forced join: the user's \<^verbatim>\<open>channel.member\<close> join event, sent to one of
  the given channels in which the user had no membership row in the given state, or the
  broadcast of the user's channel list.
\<close>

definition join_message ::
  "ext \<Rightarrow> world \<Rightarrow> user \<Rightarrow> channel_id list \<Rightarrow> sys \<Rightarrow> message \<Rightarrow> bool" where
  "join_message x w u cids s msg =
     (case msg of
        Group_send cid ev \<Rightarrow>
          cid \<in> set cids \<and> member_rows cid (uid u) s = []
          \<and> event_type (pe_event ev) = ''channel.member''
          \<and> ev_content (pe_event ev) = join_content x w u
          \<and> ev_channel (pe_event ev) = cid \<and> sender (pe_event ev) = uid u
      | User_broadcast kind entries v sock \<Rightarrow>
          kind = ''chat.channels'' \<and> v = uid u \<and> sock = ''dummysocket'')"

text \<open>
  The state \<open>ex_forced\<close> with the ids 1, 2 and 3 in the log, the counter reset, and
  another worker that sets the counter back to 1 between the two attempts of a call.
\<close>

definition ex_forced_busy :: sys where
  "ex_forced_busy =
     ex_forced\<lparr>events := map ex_event [1, 2, 3], event_counter := Some 0,
                pending := [Env_idle, Env_idle, Env_idle, Env_idle, Env_idle, Env_idle,
                            Env_redis_set 1]\<rparr>"

section \<open>Facts about the event log and the counter\<close>

lemma map_of_setdefault:
  "map_of (setdefault k d c) k = (case map_of c k of None \<Rightarrow> Some d | Some v \<Rightarrow> Some v)"
proof (cases "map_of c k")
  case None
  then have "k \<notin> fst ` set c" by (simp add: map_of_eq_None_iff)
  with None show ?thesis by (simp add: setdefault_def map_add_def)
next
  case (Some v)
  then have "k \<in> fst ` set c" by (metis map_of_eq_None_iff option.distinct(1))
  with Some show ?thesis by (simp add: setdefault_def)
qed

lemma set_body_item_ready:
  "map_of c ''body'' = Some (JObj b) \<Longrightarrow>
   set_body_item k v c = Inr (AList.update ''body'' (JObj (AList.update k v b)) c)"
  by (simp add: set_body_item_def)

lemma call_ready_update_body: "call_ready (AList.update ''body'' (JObj b) c)"
  by (simp add: call_ready_def update_conv')

lemma call_frame_refl: "call_frame s s"
  by (simp add: call_frame_def)

lemma assign_call_ready:
  assumes "call_ready c"
  shows "\<exists>c1 s1. assign_call x w ch c s = (Inr c1, s1) \<and> call_ready c1 \<and> call_frame s s1"
proof (cases "map_of c ''type'' = Some (JStr ''call'')")
  case False
  with assms show ?thesis by (simp add: assign_call_def call_frame_refl)
next
  case True
  with assms obtain b where b: "map_of (setdefault ''body'' (JObj []) c) ''body'' = Some (JObj b)"
    by (auto simp: call_ready_def map_of_setdefault split: option.splits json.splits)
  show ?thesis
  proof (cases "''janus'' \<in> set (feature_flags w)")
    case janus: True
    then show ?thesis using True
      by (simp add: assign_call_def set_body_item_ready [OF b] call_ready_update_body call_frame_refl)
  next
    case bbb: False
    have b0: "map_of (AList.update ''body'' (JObj (AList.update ''id'' v b)) c') ''body''
              = Some (JObj (AList.update ''id'' v b))" for v c'
      by (simp add: update_conv')
    show ?thesis using True bbb
      by (simp add: assign_call_def set_body_item_ready [OF b] set_body_item_ready [OF b0] Let_def
          call_ready_update_body call_frame_def)
  qed
qed

lemma call_frame_fields:
  assumes "call_frame s s1"
  shows "events s1 = events s" "pending s1 = pending s" "event_counter s1 = event_counter s"
    "users s1 = users s" "channels s1 = channels s" "memberships s1 = memberships s"
    "reactions s1 = reactions s" "rooms s1 = rooms s" "notifications s1 = notifications s"
    "audit_log s1 = audit_log s" "sent s1 = sent s" "unread_notify s1 = unread_notify s"
proof -
  from assms have eq: "s1 = s\<lparr>bbb_calls := bbb_calls s1, uuid_draws := uuid_draws s1\<rparr>"
    by (simp add: call_frame_def)
  show "events s1 = events s" by (subst eq) simp
  show "pending s1 = pending s" by (subst eq) simp
  show "event_counter s1 = event_counter s" by (subst eq) simp
  show "users s1 = users s" by (subst eq) simp
  show "channels s1 = channels s" by (subst eq) simp
  show "memberships s1 = memberships s" by (subst eq) simp
  show "reactions s1 = reactions s" by (subst eq) simp
  show "rooms s1 = rooms s" by (subst eq) simp
  show "notifications s1 = notifications s" by (subst eq) simp
  show "audit_log s1 = audit_log s" by (subst eq) simp
  show "sent s1 = sent s" by (subst eq) simp
  show "unread_notify s1 = unread_notify s" by (subst eq) simp
qed

lemma store_event_taken:
  assumes "call_ready c" and "i \<in> ev_id ` set (events s)"
  shows "\<exists>c1 s1. store_event x w ch i etype c sndr rep s = (Inr None, c1, s1)
           \<and> call_ready c1 \<and> call_frame s s1"
proof -
  from assign_call_ready [OF assms(1)] obtain c1 s1 where
    a: "assign_call x w ch c s = (Inr c1, s1)" and r: "call_ready c1" and f: "call_frame s s1"
    by blast
  from assms(2) call_frame_fields(1) [OF f]
  have "chat_event_create (new_event ch i etype c1 sndr rep) s1 = Inl (IntegrityError Already_exists)"
    by (simp add: chat_event_create_def new_event_def)
  with a r f show ?thesis by (simp add: store_event_def)
qed

lemma store_event_fresh:
  assumes "call_ready c" and "i \<notin> ev_id ` set (events s)"
    and "channel_pk ch \<in> channel_pk ` set (channels s)" and "uid sndr \<in> uid ` set (users s)"
    and "case rep of None \<Rightarrow> True | Some r \<Rightarrow> r \<in> ev_id ` set (events s)"
  shows "\<exists>c1 s1. store_event x w ch i etype c sndr rep s =
           (Inr (Some (serialize_public (new_event ch i etype c1 sndr rep)
                   (s1\<lparr>events := events s @ [new_event ch i etype c1 sndr rep]\<rparr>))),
            c1, s1\<lparr>events := events s @ [new_event ch i etype c1 sndr rep]\<rparr>)
           \<and> call_ready c1 \<and> call_frame s s1"
proof -
  from assign_call_ready [OF assms(1)] obtain c1 s1 where
    a: "assign_call x w ch c s = (Inr c1, s1)" and r: "call_ready c1" and f: "call_frame s s1"
    by blast
  from assms(2-5) call_frame_fields [OF f]
  have "chat_event_create (new_event ch i etype c1 sndr rep) s1
        = Inr (s1\<lparr>events := events s @ [new_event ch i etype c1 sndr rep]\<rparr>)"
    by (auto simp: chat_event_create_def new_event_def split: option.splits)
  with a have "store_event x w ch i etype c sndr rep s =
           (Inr (Some (serialize_public (new_event ch i etype c1 sndr rep)
                   (s1\<lparr>events := events s @ [new_event ch i etype c1 sndr rep]\<rparr>))),
            c1, s1\<lparr>events := events s @ [new_event ch i etype c1 sndr rep]\<rparr>)"
    by (simp add: store_event_def)
  with r f show ?thesis by blast
qed

lemma await_idle: "pending s = [] \<Longrightarrow> await s = s"
  by (simp add: await_def)

lemma fold_max_ge: "(a::int) \<le> fold max xs a"
  by (induction xs arbitrary: a) (auto intro: order_trans [OF max.cobounded2])

lemma fold_max_mem: "(x::int) \<in> set xs \<Longrightarrow> x \<le> fold max xs a"
proof (induction xs arbitrary: a)
  case Nil
  then show ?case by simp
next
  case (Cons y ys)
  show ?case
  proof (cases "x = y")
    case True
    have "x \<le> max y a" using True by simp
    also have "\<dots> \<le> fold max ys (max y a)" by (rule fold_max_ge)
    finally show ?thesis by simp
  next
    case False
    with Cons show ?thesis by simp
  qed
qed

lemma get_highest_id_ge: "i \<in> ev_id ` set (events s) \<Longrightarrow> i \<le> get_highest_id s"
  by (cases "events s") (auto simp: get_highest_id_def fold_max_ge fold_max_mem)

lemma attempt_idle:
  assumes "pending s = []"
  shows "attempt x w ch etype c sndr rep s =
           store_event x w ch ((case event_counter s of None \<Rightarrow> 0 | Some v \<Rightarrow> v) + 1) etype c sndr rep
             (s\<lparr>event_counter :=
                 Some (if (case event_counter s of None \<Rightarrow> 0 | Some v \<Rightarrow> v) + 1 < 2
                       then get_highest_id s + 1
                       else (case event_counter s of None \<Rightarrow> 0 | Some v \<Rightarrow> v) + 1)\<rparr>)"
  using assms
  by (simp add: attempt_def redis_incr_def redis_set_def await_def get_highest_id_def Let_def)

lemma heal_idle:
  "pending s = [] \<Longrightarrow> heal s = s\<lparr>event_counter := Some (get_highest_id s + 1)\<rparr>"
  by (simp add: heal_def redis_set_def await_def Let_def)

lemma create_event_attempt:
  "create_event x w ch etype c sndr rep retry s =
     (case attempt x w ch etype c sndr rep s of
        (Inl e, c', s3) \<Rightarrow> (Inl e, s3)
      | (Inr (Some event), c', s3) \<Rightarrow> (Inr event, s3)
      | (Inr None, c', s3) \<Rightarrow>
          if \<not> retry then create_event x w ch etype c' sndr None True (heal s3)
          else (Inl (ValueError ''unable to recover in store_event''), s3))"
  by (subst create_event.simps)
     (simp add: attempt_def heal_def Let_def split: prod.splits sum.splits option.splits)


lemma chat_event_create_cases:
  "chat_event_create e s = Inl (IntegrityError Already_exists) \<and> ev_id e \<in> ev_id ` set (events s)
   \<or> chat_event_create e s = Inl (IntegrityError Foreign_key)
   \<or> chat_event_create e s = Inr (s\<lparr>events := events s @ [e]\<rparr>)
      \<and> ev_id e \<notin> ev_id ` set (events s)"
  by (simp add: chat_event_create_def)

lemma store_event_cases:
  "(\<exists>e. fst (store_event x w ch i etype c sndr rep s) = Inl e)
   \<or> (\<exists>c1 s1. store_event x w ch i etype c sndr rep s = (Inr None, c1, s1)
        \<and> i \<in> ev_id ` set (events s1))
   \<or> (\<exists>c1 s1. store_event x w ch i etype c sndr rep s =
          (Inr (Some (serialize_public (new_event ch i etype c1 sndr rep)
                  (s1\<lparr>events := events s1 @ [new_event ch i etype c1 sndr rep]\<rparr>))),
           c1, s1\<lparr>events := events s1 @ [new_event ch i etype c1 sndr rep]\<rparr>))"
proof -
  obtain r sa where a: "assign_call x w ch c s = (r, sa)" by (cases "assign_call x w ch c s")
  show ?thesis
  proof (cases r)
    case (Inl e)
    with a show ?thesis by (simp add: store_event_def)
  next
    case (Inr c')
    from chat_event_create_cases [of "new_event ch i etype c' sndr rep" sa]
    show ?thesis
    proof (elim disjE conjE)
      assume "chat_event_create (new_event ch i etype c' sndr rep) sa
              = Inl (IntegrityError Already_exists)"
        and "ev_id (new_event ch i etype c' sndr rep) \<in> ev_id ` set (events sa)"
      with a Inr show ?thesis by (simp add: store_event_def new_event_def)
    next
      assume "chat_event_create (new_event ch i etype c' sndr rep) sa
              = Inl (IntegrityError Foreign_key)"
      with a Inr show ?thesis by (simp add: store_event_def)
    next
      assume "chat_event_create (new_event ch i etype c' sndr rep) sa
              = Inr (sa\<lparr>events := events sa @ [new_event ch i etype c' sndr rep]\<rparr>)"
      with a Inr have "store_event x w ch i etype c sndr rep s =
          (Inr (Some (serialize_public (new_event ch i etype c' sndr rep)
                  (sa\<lparr>events := events sa @ [new_event ch i etype c' sndr rep]\<rparr>))),
           c', sa\<lparr>events := events sa @ [new_event ch i etype c' sndr rep]\<rparr>)"
        by (simp add: store_event_def)
      then show ?thesis by blast
    qed
  qed
qed

lemma store_event_None:
  assumes "store_event x w ch i etype c sndr rep s = (Inr None, c1, s1)"
  shows "i \<in> ev_id ` set (events s1)"
  using store_event_cases [of x w ch i etype c sndr rep s] assms by auto

lemma store_event_Some:
  assumes "store_event x w ch i etype c sndr rep s = (Inr (Some ev), c1, s1)"
  shows "replaces (pe_event ev) = rep \<and> ev_id (pe_event ev) = i \<and> pe_event ev \<in> set (events s1)
         \<and> ev_channel (pe_event ev) = channel_pk ch \<and> sender (pe_event ev) = uid sndr
         \<and> event_type (pe_event ev) = etype"
  using store_event_cases [of x w ch i etype c sndr rep s] assms
  by (auto simp: serialize_public_def new_event_def)

lemma attempt_Some:
  assumes "attempt x w ch etype c sndr rep s = (Inr (Some ev), c1, s1)"
  shows "replaces (pe_event ev) = rep \<and> pe_event ev \<in> set (events s1)
         \<and> ev_channel (pe_event ev) = channel_pk ch \<and> sender (pe_event ev) = uid sndr
         \<and> event_type (pe_event ev) = etype"
proof -
  from assms obtain i s' where "store_event x w ch i etype c sndr rep s' = (Inr (Some ev), c1, s1)"
    by (auto simp: attempt_def Let_def split: prod.splits)
  from store_event_Some [OF this] show ?thesis by simp
qed

lemma attempt_None:
  assumes "attempt x w ch etype c sndr rep s = (Inr None, c1, s1)"
  shows "fst (redis_incr (await s)) \<in> ev_id ` set (events s1)"
proof -
  from assms obtain s' where
    "store_event x w ch (fst (redis_incr (await s))) etype c sndr rep s' = (Inr None, c1, s1)"
    by (auto simp: attempt_def Let_def split: prod.splits)
  from store_event_None [OF this] show ?thesis .
qed

lemmas ex_defs = ex_log_def ex_sys_def ex_event_def ex_channel_def ex_user_def ex_world_def
  ex_ext_def

lemmas run_defs = attempt_def heal_def store_event_def assign_call_def chat_event_create_def
  new_event_def serialize_public_def reactions_of_def redis_incr_def redis_set_def await_def
  get_highest_id_def

section \<open>Facts about memberships\<close>

lemma member_rows_Nil_iff:
  "member_rows cid u s = [] \<longleftrightarrow> (cid, u) \<notin> (\<lambda>m. (m_channel m, m_user m)) ` set (memberships s)"
  by (auto simp: member_rows_def filter_empty_conv)

lemma map_key_clear:
  "map (\<lambda>m. (m_channel m, m_user m))
     (map (\<lambda>m'. if m_channel m' = cid \<and> m_user m' = u then m'\<lparr>volatile := False\<rparr> else m') ms)
   = map (\<lambda>m. (m_channel m, m_user m)) ms"
  by (induction ms) auto

lemma filter_clear:
  "filter (\<lambda>m. m_channel m = cid \<and> m_user m = u)
     (map (\<lambda>m'. if m_channel m' = cid \<and> m_user m' = u then m'\<lparr>volatile := False\<rparr> else m') ms)
   = map (\<lambda>m. m\<lparr>volatile := False\<rparr>) (filter (\<lambda>m. m_channel m = cid \<and> m_user m = u) ms)"
  by (induction ms) auto

lemma add_channel_user_unique:
  assumes "unique_members s"
  shows "unique_members (snd (add_channel_user cid u vol s))"
proof (cases "member_rows cid (uid u) s")
  case Nil
  then have "(cid, uid u) \<notin> (\<lambda>m. (m_channel m, m_user m)) ` set (memberships s)"
    by (simp add: member_rows_Nil_iff)
  with assms Nil show ?thesis
    by (simp add: add_channel_user_def unique_members_def)
next
  case (Cons m ms)
  with assms show ?thesis
    by (cases ms) (simp_all add: add_channel_user_def unique_members_def map_key_clear del: map_map)
qed

lemma add_channel_user_created:
  assumes "add_channel_user cid u vol s = (Inr True, s1)"
  shows "member_rows cid (uid u) s = []"
    and "s1 = s\<lparr>memberships := memberships s @
               [\<lparr>m_channel = cid, m_user = uid u, volatile = vol, hidden = False\<rparr>]\<rparr>"
    and "cid \<in> channel_pk ` set (channels s)"
    and "uid u \<in> uid ` set (users s)"
  using assms
  by (auto simp: add_channel_user_def split: list.splits if_splits)

lemma add_channel_user_again:
  assumes "add_channel_user cid u vol s = (Inr True, s1)" and "\<not> vol"
  shows "add_channel_user cid u vol' s1 = (Inr False, s1)"
proof -
  note c = add_channel_user_created [OF assms(1)]
  have "member_rows cid (uid u) s1
        = [\<lparr>m_channel = cid, m_user = uid u, volatile = False, hidden = False\<rparr>]"
    using c(1) assms(2) by (simp add: c(2) member_rows_def)
  then show ?thesis by (simp add: add_channel_user_def)
qed

lemma add_channel_user_clears:
  assumes "member_rows cid (uid u) s = [m]" and "volatile m"
  shows "\<exists>s1. add_channel_user cid u False s = (Inr False, s1)
           \<and> member_rows cid (uid u) s1 = [m\<lparr>volatile := False\<rparr>]
           \<and> length (memberships s1) = length (memberships s)
           \<and> map (\<lambda>m. (m_channel m, m_user m)) (memberships s1)
               = map (\<lambda>m. (m_channel m, m_user m)) (memberships s)"
  using assms
  by (simp add: add_channel_user_def map_key_clear del: map_map)
     (simp add: member_rows_def filter_clear)

lemma add_channel_user_keeps:
  assumes "member_rows cid (uid u) s = [m]" and "\<not> volatile m"
  shows "add_channel_user cid u vol s = (Inr False, s)"
  using assms by (simp add: add_channel_user_def)

lemma distinct_key_filter:
  "distinct (map f xs) \<Longrightarrow> length (filter (\<lambda>x. f x = k) xs) \<le> 1"
proof (induction xs)
  case Nil
  then show ?case by simp
next
  case (Cons x xs)
  show ?case
  proof (cases "f x = k")
    case True
    have "f y \<noteq> k" if "y \<in> set xs" for y
      using that Cons.prems True by (metis distinct.simps(2) imageI list.simps(9) set_map)
    then have "filter (\<lambda>x. f x = k) xs = []"
      by (simp add: filter_empty_conv)
    with True show ?thesis by simp
  next
    case False
    with Cons show ?thesis by simp
  qed
qed

lemma unique_member_rows:
  assumes "unique_members s"
  shows "member_rows cid u s = [] \<or> (\<exists>m. member_rows cid u s = [m])"
proof -
  have "member_rows cid u s = filter (\<lambda>m. (m_channel m, m_user m) = (cid, u)) (memberships s)"
    by (simp add: member_rows_def)
  with distinct_key_filter [of "\<lambda>m. (m_channel m, m_user m)" "memberships s" "(cid, u)"] assms
  have "length (member_rows cid u s) \<le> 1" by (simp add: unique_members_def)
  then show ?thesis by (cases "member_rows cid u s") auto
qed

lemma add_channel_user_total:
  assumes "unique_members s"
    and "cid \<in> channel_pk ` set (channels s)" and "uid u \<in> uid ` set (users s)"
  shows "\<exists>b. fst (add_channel_user cid u vol s) = Inr b"
  using unique_member_rows [OF assms(1), of cid "uid u"] assms(2,3)
  by (auto simp: add_channel_user_def)

lemma add_channel_user_first:
  assumes "member_rows cid (uid u) s = []"
    and "cid \<in> channel_pk ` set (channels s)" and "uid u \<in> uid ` set (users s)"
  shows "add_channel_user cid u vol s
         = (Inr True,
            s\<lparr>memberships := memberships s @
                [\<lparr>m_channel = cid, m_user = uid u, volatile = vol, hidden = False\<rparr>]\<rparr>)"
  using assms by (simp add: add_channel_user_def)

lemma add_channel_user_refused:
  assumes "member_rows cid (uid u) s = []"
    and "cid \<notin> channel_pk ` set (channels s) \<or> uid u \<notin> uid ` set (users s)"
  shows "add_channel_user cid u vol s = (Inl (IntegrityError Foreign_key), s)"
  using assms by (auto simp: add_channel_user_def)

lemma add_channel_user_found:
  assumes "unique_members s" and "member_rows cid (uid u) s \<noteq> []"
  shows "fst (add_channel_user cid u vol s) = Inr False"
  using unique_member_rows [OF assms(1), of cid "uid u"] assms(2)
  by (auto simp: add_channel_user_def)

section \<open>Facts about direct channels\<close>

lemma get_one_Inr: "get_one rows = Inr r \<longleftrightarrow> rows = [r]"
  by (auto simp: get_one_def split: list.splits)

lemma get_one_DoesNotExist: "get_one rows = Inl DoesNotExist \<longleftrightarrow> rows = []"
  by (auto simp: get_one_def split: list.splits)

lemma get_one_cases:
  "get_one rows = Inl DoesNotExist \<and> rows = []
   \<or> (\<exists>r. get_one rows = Inr r \<and> rows = [r])
   \<or> get_one rows = Inl MultipleObjectsReturned"
  by (auto simp: get_one_def split: list.splits)

lemma not_eligible_iff:
  "not_eligible us user_ids \<longleftrightarrow>
     length us \<noteq> length user_ids \<or> length us < 2
     \<or> (\<exists>a\<in>set us. \<exists>b\<in>set us. uid b \<noteq> uid a \<and> uid b \<in> set (blocked_users a))
     \<or> (\<exists>a\<in>set us. deleted a \<or> utype a = KIOSK \<or> utype a = ANONYMOUS)"
  by (auto simp: not_eligible_def list_ex_iff)

lemma tenant_uids_distinct:
  "distinct (map uid (users s)) \<Longrightarrow> distinct (map uid (tenant_users w user_ids s))"
  by (simp add: tenant_users_def distinct_map_filter)

lemma tenant_uids_subset: "uid ` set (tenant_users w user_ids s) \<subseteq> set user_ids"
  by (auto simp: tenant_users_def)

lemma tenant_users_missing:
  assumes d: "distinct (map uid (users s))"
    and i: "i \<in> set user_ids" and m: "i \<notin> uid ` {u \<in> set (users s). user_world u = world_pk w}"
  shows "length (tenant_users w user_ids s) \<noteq> length user_ids"
proof -
  let ?us = "tenant_users w user_ids s"
  have "uid ` set ?us \<subseteq> set user_ids - {i}"
    using m by (auto simp: tenant_users_def)
  then have "card (uid ` set ?us) \<le> card (set user_ids - {i})"
    by (intro card_mono) auto
  also have "\<dots> < card (set user_ids)" using i by (intro psubset_card_mono) auto
  also have "\<dots> \<le> length user_ids" by (rule card_length)
  finally have "card (uid ` set ?us) < length user_ids" .
  moreover have "card (uid ` set ?us) = length ?us"
    using tenant_uids_distinct [OF d, of w user_ids] distinct_card [of "map uid ?us"] by simp
  ultimately show ?thesis by simp
qed

lemma eligible_distinct_ids:
  assumes d: "distinct (map uid (users s))"
    and e: "\<not> not_eligible (tenant_users w user_ids s) user_ids"
  shows "distinct user_ids" and "uid ` set (tenant_users w user_ids s) = set user_ids"
proof -
  let ?us = "tenant_users w user_ids s"
  from e have len: "length ?us = length user_ids" by (simp add: not_eligible_iff)
  have c: "card (uid ` set ?us) = length ?us"
    using tenant_uids_distinct [OF d, of w user_ids] distinct_card [of "map uid ?us"] by simp
  have "card (uid ` set ?us) \<le> card (set user_ids)"
    by (intro card_mono tenant_uids_subset) simp
  with c len have "length user_ids \<le> card (set user_ids)" by simp
  with card_length [of user_ids] have eq: "card (set user_ids) = length user_ids" by simp
  then show "distinct user_ids" by (simp add: card_distinct)
  from c len eq have "card (uid ` set ?us) = card (set user_ids)" by simp
  with tenant_uids_subset [of w user_ids s] show "uid ` set ?us = set user_ids"
    by (intro card_subset_eq) auto
qed

lemma direct_channel_rejected:
  "not_eligible (tenant_users w user_ids s) user_ids \<Longrightarrow>
   get_or_create_direct_channel x w user_ids hide hide_except s = (Inr (None, False, []), s)"
  by (simp add: get_or_create_direct_channel_def)

lemma direct_channel_result:
  assumes r: "get_or_create_direct_channel x w ids hide he s = (Inr (Some c, created, us), s1)"
  shows "\<not> not_eligible (tenant_users w ids s) ids \<and> us = tenant_users w ids s \<and>
     (\<not> created \<and> s1 = s \<and> filter (direct_match w ids s) (channels s) = [c]
      \<or> created \<and> filter (direct_match w ids s) (channels s) = []
        \<and> c = \<lparr>channel_pk = uuid4 x (uuid_draws s), channel_world = world_pk w,
                channel_room = None\<rparr>
        \<and> channel_pk c \<notin> channel_pk ` set (channels s)
        \<and> s1 = s\<lparr>uuid_draws := uuid_draws s + 1, channels := channels s @ [c],
                  memberships := memberships s @ direct_rows (channel_pk c) hide he us\<rparr>)"
proof -
  have e: "\<not> not_eligible (tenant_users w ids s) ids"
    using r by (auto simp: get_or_create_direct_channel_def)
  from get_one_cases [of "filter (direct_match w ids s) (channels s)"]
  show ?thesis
  proof (elim disjE conjE exE)
    assume "get_one (filter (direct_match w ids s) (channels s)) = Inl DoesNotExist"
      and "filter (direct_match w ids s) (channels s) = []"
    with r e show ?thesis
      by (auto simp: get_or_create_direct_channel_def Let_def direct_rows_def split: if_splits)
  next
    fix c' assume "get_one (filter (direct_match w ids s) (channels s)) = Inr c'"
      and "filter (direct_match w ids s) (channels s) = [c']"
    with r e show ?thesis
      by (auto simp: get_or_create_direct_channel_def Let_def)
  next
    assume "get_one (filter (direct_match w ids s) (channels s)) = Inl MultipleObjectsReturned"
    with r e show ?thesis
      by (auto simp: get_or_create_direct_channel_def Let_def)
  qed
qed

lemma direct_channel_found:
  assumes "\<not> not_eligible (tenant_users w ids s) ids"
    and "filter (direct_match w ids s) (channels s) = [c]"
  shows "get_or_create_direct_channel x w ids hide he s
         = (Inr (Some c, False, tenant_users w ids s), s)"
  using assms by (simp add: get_or_create_direct_channel_def get_one_def)

lemma direct_channel_created:
  assumes "\<not> not_eligible (tenant_users w ids s) ids"
    and "filter (direct_match w ids s) (channels s) = []"
    and "uuid4 x (uuid_draws s) \<notin> channel_pk ` set (channels s)"
  shows "get_or_create_direct_channel x w ids hide he s
         = (Inr (Some \<lparr>channel_pk = uuid4 x (uuid_draws s), channel_world = world_pk w,
                        channel_room = None\<rparr>, True, tenant_users w ids s),
            s\<lparr>uuid_draws := uuid_draws s + 1,
              channels := channels s @ [\<lparr>channel_pk = uuid4 x (uuid_draws s),
                                         channel_world = world_pk w, channel_room = None\<rparr>],
              memberships := memberships s
                @ direct_rows (uuid4 x (uuid_draws s)) hide he (tenant_users w ids s)\<rparr>)"
  using assms by (simp add: get_or_create_direct_channel_def get_one_def Let_def direct_rows_def)

lemma direct_match_exact:
  assumes u: "unique_members s" and m: "direct_match w ids s c"
  shows "member_set (channel_pk c) s = set ids"
proof -
  let ?rows = "filter (\<lambda>m. m_channel m = channel_pk c) (memberships s)"
  from m have out: "filter (\<lambda>m. m_channel m = channel_pk c \<and> m_user m \<notin> set ids) (memberships s) = []"
    and cnt: "length (filter (\<lambda>m. m_channel m = channel_pk c \<and> m_user m \<in> set ids) (memberships s))
              = length ids"
    by (simp_all add: direct_match_def)
  from out have sub: "m_user ` set ?rows \<subseteq> set ids"
    by (auto simp: filter_empty_conv)
  then have "filter (\<lambda>m. m_channel m = channel_pk c \<and> m_user m \<in> set ids) (memberships s) = ?rows"
    by (intro filter_cong) auto
  with cnt have len: "length ?rows = length ids" by simp
  have "distinct (map (\<lambda>m. (m_channel m, m_user m)) ?rows)"
    using u by (simp add: unique_members_def distinct_map_filter)
  then have "distinct (map m_user ?rows)"
    by (auto simp: distinct_map inj_on_def)
  then have "card (m_user ` set ?rows) = length ?rows"
    using distinct_card [of "map m_user ?rows"] by simp
  with len card_length [of ids] have "card (set ids) \<le> card (m_user ` set ?rows)" by simp
  with sub have "m_user ` set ?rows = set ids" by (intro card_seteq) auto
  then show ?thesis by (simp add: member_set_def)
qed

lemma direct_match_superset:
  assumes m: "direct_match w ids s c" and sub: "set ids \<subseteq> set ids3"
    and len: "length ids < length ids3" and pk: "channel_pk c' = channel_pk c"
  shows "\<not> direct_match w3 ids3 s c'"
proof
  assume m3: "direct_match w3 ids3 s c'"
  from m have out: "filter (\<lambda>m. m_channel m = channel_pk c \<and> m_user m \<notin> set ids) (memberships s) = []"
    and cnt: "length (filter (\<lambda>m. m_channel m = channel_pk c \<and> m_user m \<in> set ids) (memberships s))
              = length ids"
    by (simp_all add: direct_match_def)
  from out sub have "filter (\<lambda>m. m_channel m = channel_pk c \<and> m_user m \<in> set ids3) (memberships s)
        = filter (\<lambda>m. m_channel m = channel_pk c \<and> m_user m \<in> set ids) (memberships s)"
    by (intro filter_cong) (auto simp: filter_empty_conv)
  with cnt have "length (filter (\<lambda>m. m_channel m = channel_pk c \<and> m_user m \<in> set ids3) (memberships s))
                 = length ids" by simp
  moreover from m3 pk
  have "length (filter (\<lambda>m. m_channel m = channel_pk c \<and> m_user m \<in> set ids3) (memberships s))
        = length ids3" by (simp add: direct_match_def)
  ultimately show False using len by simp
qed


lemma direct_rows_filter_in:
  "filter (\<lambda>m. m_channel m = cid \<and> m_user m \<in> A) (direct_rows cid' hide he us)
   = (if cid = cid' then direct_rows cid' hide he (filter (\<lambda>u. uid u \<in> A) us) else [])"
  by (induction us) (auto simp: direct_rows_def)

lemma direct_rows_filter_out:
  "filter (\<lambda>m. m_channel m = cid \<and> m_user m \<notin> A) (direct_rows cid' hide he us)
   = (if cid = cid' then direct_rows cid' hide he (filter (\<lambda>u. uid u \<notin> A) us) else [])"
  by (induction us) (auto simp: direct_rows_def)

lemma direct_rows_length: "length (direct_rows cid hide he us) = length us"
  by (simp add: direct_rows_def)

lemma direct_rows_keys:
  "map (\<lambda>m. (m_channel m, m_user m)) (direct_rows cid hide he us) = map (\<lambda>u. (cid, uid u)) us"
  by (simp add: direct_rows_def)

lemma members_refer_fresh:
  assumes "members_refer s" and "cid \<notin> channel_pk ` set (channels s)"
  shows "filter (\<lambda>m. m_channel m = cid \<and> P m) (memberships s) = []"
  using assms by (auto simp: members_refer_def list_all_iff filter_empty_conv)

lemma direct_match_other:
  assumes "channel_pk c' \<noteq> cid"
  shows "direct_match w ids
           (s\<lparr>uuid_draws := n, channels := cs,
              memberships := memberships s @ direct_rows cid hide he us\<rparr>) c'
         = direct_match w ids s c'"
  using assms by (simp add: direct_match_def direct_rows_filter_in direct_rows_filter_out)

lemma direct_match_new:
  assumes fk: "members_refer s" and fresh: "cid \<notin> channel_pk ` set (channels s)"
    and us: "uid ` set us \<subseteq> set ids" and len: "length us = length ids" and two: "2 \<le> length us"
  shows "direct_match w ids
           (s\<lparr>uuid_draws := n, channels := cs,
              memberships := memberships s @ direct_rows cid hide he us\<rparr>)
           \<lparr>channel_pk = cid, channel_world = world_pk w, channel_room = None\<rparr>"
proof -
  have all: "filter (\<lambda>u. uid u \<in> set ids) us = us" using us by (auto simp: filter_id_conv)
  have none: "filter (\<lambda>u. uid u \<notin> set ids) us = []" using us by (auto simp: filter_empty_conv)
  have ne: "us \<noteq> []" using two by auto
  have rows: "direct_rows cid hide he us \<noteq> []" using ne by (simp add: direct_rows_def)
  have in_old: "filter (\<lambda>m. m_channel m = cid \<and> m_user m \<in> set ids) (memberships s) = []"
    and out_old: "filter (\<lambda>m. m_channel m = cid \<and> m_user m \<notin> set ids) (memberships s) = []"
    by (rule members_refer_fresh [OF fk fresh])+
  have nil: "direct_rows cid hide he [] = []" by (simp add: direct_rows_def)
  show ?thesis
    using len rows
    by (simp add: direct_match_def direct_rows_filter_in direct_rows_filter_out all none
        in_old out_old direct_rows_length nil)
qed

lemma unique_members_after_create:
  assumes u: "unique_members s" and fk: "members_refer s"
    and fresh: "cid \<notin> channel_pk ` set (channels s)" and d: "distinct (map uid us)"
  shows "unique_members (s\<lparr>uuid_draws := n, channels := cs,
              memberships := memberships s @ direct_rows cid hide he us\<rparr>)"
proof -
  have "distinct (map (\<lambda>u. (cid, uid u)) us)"
    using d by (simp add: distinct_map inj_on_def)
  moreover have "(cid, v) \<notin> (\<lambda>m. (m_channel m, m_user m)) ` set (memberships s)" for v
    using fk fresh by (auto simp: members_refer_def list_all_iff)
  ultimately show ?thesis
    using u by (auto simp: unique_members_def direct_rows_keys)
qed

lemma direct_channel_after:
  assumes d: "distinct (map uid (users s))" and u: "unique_members s" and fk: "members_refer s"
    and r: "get_or_create_direct_channel x w ids hide he s = (Inr (Some c, created, us), s1)"
  shows "users s1 = users s" and "unique_members s1"
    and "filter (direct_match w ids s1) (channels s1) = [c]"
    and "\<not> not_eligible (tenant_users w ids s) ids" and "us = tenant_users w ids s"
proof -
  note res = direct_channel_result [OF r]
  from res show e: "\<not> not_eligible (tenant_users w ids s) ids" and us: "us = tenant_users w ids s"
    by simp_all
  from res consider
    (found) "\<not> created" "s1 = s" "filter (direct_match w ids s) (channels s) = [c]"
  | (new) "created" "filter (direct_match w ids s) (channels s) = []"
      "c = \<lparr>channel_pk = uuid4 x (uuid_draws s), channel_world = world_pk w, channel_room = None\<rparr>"
      "channel_pk c \<notin> channel_pk ` set (channels s)"
      "s1 = s\<lparr>uuid_draws := uuid_draws s + 1, channels := channels s @ [c],
                  memberships := memberships s @ direct_rows (channel_pk c) hide he us\<rparr>"
    by blast
  then have "users s1 = users s \<and> unique_members s1
             \<and> filter (direct_match w ids s1) (channels s1) = [c]"
  proof cases
    case found
    with u show ?thesis by simp
  next
    case new
    from e have len: "length us = length ids" and two: "2 \<le> length us"
      by (simp_all add: us not_eligible_iff)
    have sub: "uid ` set us \<subseteq> set ids" unfolding us by (rule tenant_uids_subset)
    have dus: "distinct (map uid us)" unfolding us by (rule tenant_uids_distinct [OF d])
    have old: "filter (direct_match w ids s1) (channels s) = filter (direct_match w ids s) (channels s)"
    proof (rule filter_cong [OF refl])
      fix c' assume "c' \<in> set (channels s)"
      with new(4) have "channel_pk c' \<noteq> channel_pk c" by (metis imageI)
      then show "direct_match w ids s1 c' = direct_match w ids s c'"
        unfolding new(5) by (rule direct_match_other)
    qed
    have "direct_match w ids s1 \<lparr>channel_pk = channel_pk c, channel_world = world_pk w,
                                   channel_room = None\<rparr>"
      unfolding new(5) by (rule direct_match_new [OF fk new(4) sub len two])
    moreover have "\<lparr>channel_pk = channel_pk c, channel_world = world_pk w, channel_room = None\<rparr> = c"
      by (subst (2) new(3)) (simp add: new(3))
    ultimately have m: "direct_match w ids s1 c" by simp
    have ch: "channels s1 = channels s @ [c]" by (simp add: new(5))
    have "filter (direct_match w ids s1) (channels s1) = [c]"
      by (simp add: ch old new(2) m)
    moreover have "unique_members s1"
      unfolding new(5) by (rule unique_members_after_create [OF u fk new(4) dus])
    moreover have "users s1 = users s" by (simp add: new(5))
    ultimately show ?thesis by simp
  qed
  then show "users s1 = users s" and "unique_members s1"
    and "filter (direct_match w ids s1) (channels s1) = [c]" by simp_all
qed

lemma tenant_users_cong:
  "users s1 = users s \<Longrightarrow> set ids' = set ids \<Longrightarrow> tenant_users w ids' s1 = tenant_users w ids s"
  by (simp add: tenant_users_def)

lemma not_eligible_cong:
  "length ids' = length ids \<Longrightarrow> not_eligible us ids' = not_eligible us ids"
  by (simp add: not_eligible_def)

lemma direct_match_cong:
  "set ids' = set ids \<Longrightarrow> length ids' = length ids \<Longrightarrow>
   direct_match w ids' s = direct_match w ids s"
  by (rule ext) (simp add: direct_match_def)


lemma superset_longer:
  assumes "distinct ids" and "distinct ids3" and "set ids \<subset> set ids3"
  shows "length ids < length ids3"
proof -
  have "card (set ids) < card (set ids3)" using assms(3) by (intro psubset_card_mono) auto
  with assms(1,2) show ?thesis by (simp add: distinct_card)
qed

section \<open>Facts about notifications and reactions\<close>

lemma count_list_map_filter:
  "count_list (List.map_filter f xs) c = length (filter (\<lambda>x. f x = Some c) xs)"
  by (induction xs) (auto simp: List.map_filter_simps split: option.splits)

lemma map_of_graph:
  "map_of (map (\<lambda>c. (c, f c)) xs) c = (if c \<in> set xs then Some (f c) else None)"
  by (induction xs) auto

lemma filter_filter_conj: "filter P (filter Q xs) = filter (\<lambda>x. Q x \<and> P x) xs"
  by (induction xs) auto

lemma counts_lookup:
  "map_of (get_notification_counts u s) c
   = (if outstanding u c s = 0 then None else Some (outstanding u c s))"
proof -
  let ?cs = "List.map_filter (notification_channel s)
               (filter (\<lambda>n. n_recipient n = u) (notifications s))"
  have c: "count_list ?cs c = outstanding u c s"
    by (simp add: count_list_map_filter outstanding_def filter_filter_conj)
  have "c \<in> set ?cs \<longleftrightarrow> count_list ?cs c \<noteq> 0" by (simp add: count_list_0_iff)
  then show ?thesis
    by (simp add: get_notification_counts_def Let_def map_of_graph c)
qed

lemma notification_channel_events:
  "events s' = events s \<Longrightarrow> notification_channel s' = notification_channel s"
  by (rule ext) (simp add: notification_channel_def)

lemma outstanding_store:
  assumes "find (\<lambda>e. ev_id e = i) (events s) = Some e" and "ev_channel e = c"
  shows "outstanding u c (store_notification i [u] s) = outstanding u c s + 1"
proof -
  have "notification_channel (store_notification i [u] s) = notification_channel s"
    by (rule notification_channel_events) (simp add: store_notification_def)
  moreover have "notification_channel s \<lparr>n_event = i, n_recipient = u\<rparr> = Some c"
    using assms by (simp add: notification_channel_def)
  ultimately show ?thesis
    by (simp add: outstanding_def) (simp add: store_notification_def)
qed

lemma remove_notifications_rows:
  "notifications (snd (remove_notifications u c mx s))
   = filter (\<lambda>n. \<not> (n_event n \<le> mx \<and> notification_channel s n = Some c \<and> n_recipient n = u))
       (notifications s)"
  by (simp add: remove_notifications_def to_remove_def Let_def)

lemma remove_notifications_frame:
  "snd (remove_notifications u c mx s)
   = s\<lparr>notifications := notifications (snd (remove_notifications u c mx s))\<rparr>"
  by (simp add: remove_notifications_def Let_def)

lemma remove_notifications_flag:
  "fst (remove_notifications u c mx s) \<longleftrightarrow>
     (\<exists>n\<in>set (notifications s).
        n_event n \<le> mx \<and> notification_channel s n = Some c \<and> n_recipient n = u)"
  by (auto simp: remove_notifications_def to_remove_def Let_def filter_empty_conv)

lemma to_remove_events:
  assumes "events s' = events s"
  shows "to_remove u c mx s' = to_remove u c mx s"
  by (rule ext) (simp add: to_remove_def notification_channel_events [OF assms])

lemma remove_notifications_again:
  "remove_notifications u c mx (snd (remove_notifications u c mx s))
   = (False, snd (remove_notifications u c mx s))"
proof -
  let ?s1 = "snd (remove_notifications u c mx s)"
  have ev: "events ?s1 = events s" by (simp add: remove_notifications_def Let_def)
  have rows: "notifications ?s1 = filter (\<lambda>n. \<not> to_remove u c mx s n) (notifications s)"
    by (simp add: remove_notifications_def Let_def)
  have none: "filter (to_remove u c mx ?s1) (notifications ?s1) = []"
    by (simp add: to_remove_events [OF ev] rows filter_empty_conv)
  then have keep: "filter (\<lambda>n. \<not> to_remove u c mx ?s1 n) (notifications ?s1) = notifications ?s1"
    by (simp add: filter_empty_conv filter_id_conv)
  show ?thesis
    by (simp add: remove_notifications_def [of u c mx ?s1] Let_def none keep)
qed

lemma outstanding_removed:
  "outstanding u c (snd (remove_notifications u c mx s))
   = length (filter (\<lambda>n. n_recipient n = u \<and> notification_channel s n = Some c \<and> mx < n_event n)
       (notifications s))"
proof -
  let ?s1 = "snd (remove_notifications u c mx s)"
  have ev: "events ?s1 = events s" by (simp add: remove_notifications_def Let_def)
  have "filter (\<lambda>n. n_recipient n = u \<and> notification_channel s n = Some c)
          (filter (\<lambda>n. \<not> (n_event n \<le> mx \<and> notification_channel s n = Some c \<and> n_recipient n = u))
             (notifications s))
        = filter (\<lambda>n. n_recipient n = u \<and> notification_channel s n = Some c \<and> mx < n_event n)
            (notifications s)"
    unfolding filter_filter_conj by (rule filter_cong) auto
  then show ?thesis
    by (simp add: outstanding_def notification_channel_events [OF ev] remove_notifications_rows)
qed

lemma get_event_events: "events s' = events s \<Longrightarrow> get_event i s' = get_event i s"
  by (simp add: get_event_def)

lemma add_reaction_cases:
  "reaction_rows event rc u s = []
     \<and> add_reaction event rc u s =
         (case get_event (ev_id event) s of
            Inl e \<Rightarrow> (Inl e, s\<lparr>reactions := reactions s @
                        [\<lparr>r_event = ev_id event, r_reaction = rc, r_sender = uid u\<rparr>]\<rparr>)
          | Inr e \<Rightarrow>
              (Inr (serialize_public e (s\<lparr>reactions := reactions s @
                        [\<lparr>r_event = ev_id event, r_reaction = rc, r_sender = uid u\<rparr>]\<rparr>)),
               s\<lparr>reactions := reactions s @
                        [\<lparr>r_event = ev_id event, r_reaction = rc, r_sender = uid u\<rparr>]\<rparr>))
   \<or> (\<exists>r. reaction_rows event rc u s = [r])
     \<and> add_reaction event rc u s =
         (case get_event (ev_id event) s of
            Inl e \<Rightarrow> (Inl e, s) | Inr e \<Rightarrow> (Inr (serialize_public e s), s))
   \<or> 2 \<le> length (reaction_rows event rc u s)
     \<and> add_reaction event rc u s = (Inl MultipleObjectsReturned, s)"
proof (cases "reaction_rows event rc u s")
  case Nil
  then show ?thesis by (simp add: add_reaction_def Let_def get_event_def)
next
  case (Cons r rs)
  then show ?thesis by (cases rs) (simp_all add: add_reaction_def)
qed

lemma reaction_rows_added:
  "reaction_rows event rc u s = [] \<Longrightarrow>
   reaction_rows event rc u
     (s\<lparr>reactions := reactions s @ [\<lparr>r_event = ev_id event, r_reaction = rc, r_sender = uid u\<rparr>]\<rparr>)
   = [\<lparr>r_event = ev_id event, r_reaction = rc, r_sender = uid u\<rparr>]"
  by (simp add: reaction_rows_def)

lemma add_reaction_result:
  assumes "add_reaction event rc u s = (Inr p, s1)"
  shows "length (reaction_rows event rc u s1) = 1"
    and "get_event (ev_id event) s1 = Inr (pe_event p)"
    and "pe_reactions p = reactions_of (ev_id event) s1"
    and "events s1 = events s"
    and "reaction_rows event rc u s = [] \<longrightarrow>
           reactions s1 = reactions s
             @ [\<lparr>r_event = ev_id event, r_reaction = rc, r_sender = uid u\<rparr>]"
    and "reaction_rows event rc u s \<noteq> [] \<longrightarrow> s1 = s"
proof -
  let ?new = "s\<lparr>reactions := reactions s @
                 [\<lparr>r_event = ev_id event, r_reaction = rc, r_sender = uid u\<rparr>]\<rparr>"
  have gid: "ev_id e = ev_id event" if "get_event (ev_id event) s = Inr e" for e
  proof -
    from that have "filter (\<lambda>e. ev_id e = ev_id event) (events s) = [e]"
      by (simp add: get_event_def get_one_Inr)
    then have "e \<in> set (filter (\<lambda>e. ev_id e = ev_id event) (events s))" by simp
    then show ?thesis by simp
  qed
  have gnew: "get_event (ev_id event) ?new = get_event (ev_id event) s"
    by (rule get_event_events) simp
  from add_reaction_cases [of event rc u s]
  have "length (reaction_rows event rc u s1) = 1
        \<and> get_event (ev_id event) s1 = Inr (pe_event p)
        \<and> pe_reactions p = reactions_of (ev_id event) s1
        \<and> events s1 = events s
        \<and> (reaction_rows event rc u s = [] \<longrightarrow>
           reactions s1 = reactions s
             @ [\<lparr>r_event = ev_id event, r_reaction = rc, r_sender = uid u\<rparr>])
        \<and> (reaction_rows event rc u s \<noteq> [] \<longrightarrow> s1 = s)"
  proof (elim disjE conjE exE)
    assume n: "reaction_rows event rc u s = []"
      and a: "add_reaction event rc u s =
         (case get_event (ev_id event) s of
            Inl e \<Rightarrow> (Inl e, ?new)
          | Inr e \<Rightarrow> (Inr (serialize_public e ?new), ?new))"
    from a assms obtain e where g: "get_event (ev_id event) s = Inr e"
      and p: "p = serialize_public e ?new" and s1: "s1 = ?new"
      by (cases "get_event (ev_id event) s") auto
    show ?thesis
      using n g gid [OF g] reaction_rows_added [OF n]
      by (simp add: p s1 gnew serialize_public_def)
  next
    fix r assume n: "reaction_rows event rc u s = [r]"
      and a: "add_reaction event rc u s =
         (case get_event (ev_id event) s of
            Inl e \<Rightarrow> (Inl e, s) | Inr e \<Rightarrow> (Inr (serialize_public e s), s))"
    from a assms obtain e where g: "get_event (ev_id event) s = Inr e"
      and p: "p = serialize_public e s" and s1: "s1 = s"
      by (cases "get_event (ev_id event) s") auto
    show ?thesis
      using n g gid [OF g] by (simp add: p s1 serialize_public_def)
  next
    assume "add_reaction event rc u s = (Inl MultipleObjectsReturned, s)"
    with assms show ?thesis by simp
  qed
  then show "length (reaction_rows event rc u s1) = 1"
    and "get_event (ev_id event) s1 = Inr (pe_event p)"
    and "pe_reactions p = reactions_of (ev_id event) s1"
    and "events s1 = events s"
    and "reaction_rows event rc u s = [] \<longrightarrow>
           reactions s1 = reactions s
             @ [\<lparr>r_event = ev_id event, r_reaction = rc, r_sender = uid u\<rparr>]"
    and "reaction_rows event rc u s \<noteq> [] \<longrightarrow> s1 = s"
    by simp_all
qed

lemma get_event_id: "get_event i s = Inr e \<Longrightarrow> ev_id e = i"
proof -
  assume "get_event i s = Inr e"
  then have "filter (\<lambda>e. ev_id e = i) (events s) = [e]" by (simp add: get_event_def get_one_Inr)
  then have "e \<in> set (filter (\<lambda>e. ev_id e = i) (events s))" by simp
  then show ?thesis by simp
qed

lemma add_reaction_again:
  assumes "add_reaction event rc u s = (Inr p, s1)"
  shows "add_reaction event rc u s1 = (Inr p, s1)"
proof -
  note r = add_reaction_result [OF assms]
  from r(1) obtain x where one: "reaction_rows event rc u s1 = [x]"
    by (cases "reaction_rows event rc u s1") auto
  have id: "ev_id (pe_event p) = ev_id event" by (rule get_event_id [OF r(2)])
  have p: "serialize_public (pe_event p) s1 = p"
    by (cases p) (use r(3) id in \<open>simp add: serialize_public_def\<close>)
  have "add_reaction event rc u s1
        = (case get_event (ev_id event) s1 of
             Inl e \<Rightarrow> (Inl e, s1) | Inr e \<Rightarrow> (Inr (serialize_public e s1), s1))"
    using one by (simp add: add_reaction_def)
  then show ?thesis by (simp add: r(2) p)
qed

lemma add_reaction_total:
  assumes "get_event (ev_id event) s = Inr e" and "length (reaction_rows event rc u s) \<le> 1"
  shows "\<exists>p s1. add_reaction event rc u s = (Inr p, s1)"
  using add_reaction_cases [of event rc u s] assms by auto

lemma remove_reaction_eq:
  "remove_reaction event rc u s =
     (case get_event (ev_id event) s of
        Inl e \<Rightarrow> (Inl e, s\<lparr>reactions := filter (\<lambda>r. \<not> (r_event r = ev_id event
                          \<and> r_reaction r = rc \<and> r_sender r = uid u)) (reactions s)\<rparr>)
      | Inr e \<Rightarrow>
          (Inr (serialize_public e (s\<lparr>reactions := filter (\<lambda>r. \<not> (r_event r = ev_id event
                          \<and> r_reaction r = rc \<and> r_sender r = uid u)) (reactions s)\<rparr>)),
           s\<lparr>reactions := filter (\<lambda>r. \<not> (r_event r = ev_id event
                          \<and> r_reaction r = rc \<and> r_sender r = uid u)) (reactions s)\<rparr>))"
proof -
  have g1: "get_event (ev_id event)
              (s\<lparr>reactions := filter (\<lambda>r. \<not> (r_event r = ev_id event
                          \<and> r_reaction r = rc \<and> r_sender r = uid u)) (reactions s)\<rparr>)
            = get_event (ev_id event) s"
    by (rule get_event_events) simp
  show ?thesis unfolding remove_reaction_def Let_def g1 by (rule refl)
qed

lemma remove_reaction_result:
  assumes "remove_reaction event rc u s = (Inr p, s1)"
  shows "reaction_rows event rc u s1 = []"
    and "get_event (ev_id event) s1 = Inr (pe_event p)"
    and "pe_reactions p = reactions_of (ev_id event) s1"
    and "events s1 = events s"
    and "reactions s1 = filter (\<lambda>r. \<not> (r_event r = ev_id event \<and> r_reaction r = rc
                                       \<and> r_sender r = uid u)) (reactions s)"
proof -
  let ?s1 = "s\<lparr>reactions := filter (\<lambda>r. \<not> (r_event r = ev_id event \<and> r_reaction r = rc
                                       \<and> r_sender r = uid u)) (reactions s)\<rparr>"
  have "\<exists>e. get_event (ev_id event) s = Inr e \<and> p = serialize_public e ?s1 \<and> s1 = ?s1"
  proof (cases "get_event (ev_id event) s")
    case (Inl x)
    have "remove_reaction event rc u s = (Inl x, ?s1)"
      by (subst remove_reaction_eq) (simp only: Inl sum.case)
    with assms have "(Inr p, s1) = (Inl x :: error + public_event, ?s1)" by (simp only:)
    then show ?thesis by (simp only: prod.inject sum.distinct simp_thms)
  next
    case (Inr e)
    have "remove_reaction event rc u s = (Inr (serialize_public e ?s1), ?s1)"
      by (subst remove_reaction_eq) (simp only: Inr sum.case)
    with assms have "(Inr p, s1) = (Inr (serialize_public e ?s1) :: error + public_event, ?s1)"
      by (simp only:)
    then have "p = serialize_public e ?s1 \<and> s1 = ?s1" by (simp only: prod.inject sum.inject)
    with Inr show ?thesis by blast
  qed
  then obtain e where g: "get_event (ev_id event) s = Inr e"
    and p: "p = serialize_public e ?s1" and s1: "s1 = ?s1" by blast
  have gid: "ev_id e = ev_id event" by (rule get_event_id [OF g])
  have g1: "get_event (ev_id event) ?s1 = get_event (ev_id event) s"
    by (rule get_event_events) simp
  show "reaction_rows event rc u s1 = []"
    unfolding s1 by (simp add: reaction_rows_def filter_empty_conv)
  show "get_event (ev_id event) s1 = Inr (pe_event p)"
    unfolding s1 p g1 by (simp add: g serialize_public_def)
  show "pe_reactions p = reactions_of (ev_id event) s1"
    unfolding s1 p by (simp add: serialize_public_def gid)
  show "events s1 = events s" unfolding s1 by simp
  show "reactions s1 = filter (\<lambda>r. \<not> (r_event r = ev_id event \<and> r_reaction r = rc
                                       \<and> r_sender r = uid u)) (reactions s)"
    unfolding s1 by simp
qed

lemma remove_reaction_absent:
  assumes "reaction_rows event rc u s = []" and "get_event (ev_id event) s = Inr e"
  shows "remove_reaction event rc u s = (Inr (serialize_public e s), s)"
proof -
  from assms(1) have "filter (\<lambda>r. \<not> (r_event r = ev_id event \<and> r_reaction r = rc
                                       \<and> r_sender r = uid u)) (reactions s) = reactions s"
    by (auto simp: reaction_rows_def filter_empty_conv filter_id_conv)
  with assms(2) show ?thesis by (simp add: remove_reaction_def)
qed

section \<open>What the operations leave alone\<close>

lemma log_step_refl: "log_step s s"
  by (simp add: log_step_def)

lemma take_prefix_trans:
  assumes "take (length xs) ys = xs" and "take (length ys) zs = ys"
  shows "take (length xs) zs = xs"
proof -
  from arg_cong [OF assms(1), of length] have le: "length xs \<le> length ys"
    by simp
  have "take (length xs) zs = take (length xs) (take (length ys) zs)"
    using le by (simp add: min_def)
  with assms show ?thesis by simp
qed

lemma log_step_trans:
  assumes "log_step s s1" and "log_step s1 s2"
  shows "log_step s s2"
proof -
  from assms have p: "take (length (events s)) (events s2) = events s"
    by (auto simp: log_step_def intro: take_prefix_trans)
  from assms(1) have e1: "s1 = s\<lparr>events := events s1, event_counter := event_counter s1,
                bbb_calls := bbb_calls s1, uuid_draws := uuid_draws s1, pending := pending s1\<rparr>"
    by (simp add: log_step_def)
  from assms(2) have e2: "s2 = s1\<lparr>events := events s2, event_counter := event_counter s2,
                bbb_calls := bbb_calls s2, uuid_draws := uuid_draws s2, pending := pending s2\<rparr>"
    by (simp add: log_step_def)
  have "s2 = s\<lparr>events := events s2, event_counter := event_counter s2,
                bbb_calls := bbb_calls s2, uuid_draws := uuid_draws s2, pending := pending s2\<rparr>"
    by (subst e2, subst e1) simp
  with p show ?thesis by (simp add: log_step_def)
qed

lemma log_step_fields:
  assumes "log_step s s'"
  shows "users s' = users s" "rooms s' = rooms s" "channels s' = channels s"
    "memberships s' = memberships s" "reactions s' = reactions s"
    "notifications s' = notifications s" "audit_log s' = audit_log s" "sent s' = sent s"
    "unread_notify s' = unread_notify s" "events_kept s s'"
proof -
  from assms have eq: "s' = s\<lparr>events := events s', event_counter := event_counter s',
                bbb_calls := bbb_calls s', uuid_draws := uuid_draws s', pending := pending s'\<rparr>"
    by (simp add: log_step_def)
  show "users s' = users s" by (subst eq) simp
  show "rooms s' = rooms s" by (subst eq) simp
  show "channels s' = channels s" by (subst eq) simp
  show "memberships s' = memberships s" by (subst eq) simp
  show "reactions s' = reactions s" by (subst eq) simp
  show "notifications s' = notifications s" by (subst eq) simp
  show "audit_log s' = audit_log s" by (subst eq) simp
  show "sent s' = sent s" by (subst eq) simp
  show "unread_notify s' = unread_notify s" by (subst eq) simp
  from assms show "events_kept s s'" by (simp add: log_step_def events_kept_def)
qed

lemma log_step_env: "log_step s (env_step a s)"
  by (cases a) (simp_all add: log_step_def)

lemma log_step_await: "log_step s (await s)"
proof (cases "pending s")
  case Nil
  then show ?thesis by (simp add: await_def log_step_refl)
next
  case (Cons a as)
  have "log_step s (s\<lparr>pending := as\<rparr>)" by (simp add: log_step_def)
  from log_step_trans [OF this log_step_env] Cons show ?thesis by (simp add: await_def)
qed

lemma log_step_incr: "log_step s (snd (redis_incr s))"
  by (simp add: redis_incr_def log_step_def Let_def)

lemma log_step_set: "log_step s (redis_set v s)"
  by (simp add: redis_set_def log_step_def)

lemma log_step_assign_call: "log_step s (snd (assign_call x w ch c s))"
  by (simp add: assign_call_def log_step_def Let_def split: sum.splits)

lemma log_step_create: "chat_event_create e s = Inr s' \<Longrightarrow> log_step s s'"
  using chat_event_create_cases [of e s] by (auto simp: log_step_def)

lemma log_step_store: "log_step s (snd (snd (store_event x w ch i etype c sndr rep s)))"
proof -
  obtain r sa where a: "assign_call x w ch c s = (r, sa)" by (cases "assign_call x w ch c s")
  with log_step_assign_call [of s x w ch c] have l: "log_step s sa" by simp
  show ?thesis
  proof (cases r)
    case (Inl e)
    with a l show ?thesis by (simp add: store_event_def)
  next
    case (Inr c')
    from chat_event_create_cases [of "new_event ch i etype c' sndr rep" sa]
    show ?thesis
    proof (elim disjE conjE)
      assume "chat_event_create (new_event ch i etype c' sndr rep) sa
              = Inl (IntegrityError Already_exists)"
      with a Inr l show ?thesis by (simp add: store_event_def)
    next
      assume "chat_event_create (new_event ch i etype c' sndr rep) sa
              = Inl (IntegrityError Foreign_key)"
      with a Inr l show ?thesis by (simp add: store_event_def)
    next
      assume k: "chat_event_create (new_event ch i etype c' sndr rep) sa
              = Inr (sa\<lparr>events := events sa @ [new_event ch i etype c' sndr rep]\<rparr>)"
      from log_step_trans [OF l log_step_create [OF k]] a Inr k
      show ?thesis by (simp add: store_event_def)
    qed
  qed
qed

lemma log_step_attempt: "log_step s (snd (snd (attempt x w ch etype c sndr rep s)))"
proof -
  obtain i s1 where r: "redis_incr (await s) = (i, s1)" by (cases "redis_incr (await s)")
  have l1: "log_step s s1"
    using log_step_trans [OF log_step_await log_step_incr, of s] r by simp
  let ?s2 = "if i < 2 then redis_set (get_highest_id (await s1) + 1) (await (await s1)) else s1"
  have "log_step s1 ?s2"
    using log_step_trans [OF log_step_await log_step_trans [OF log_step_await log_step_set]]
    by (simp add: log_step_refl)
  with l1 have l2: "log_step s ?s2" by (rule log_step_trans)
  have "log_step ?s2 (snd (snd (store_event x w ch i etype c sndr rep (await ?s2))))"
    by (rule log_step_trans [OF log_step_await log_step_store])
  with l2 have "log_step s (snd (snd (store_event x w ch i etype c sndr rep (await ?s2))))"
    by (rule log_step_trans)
  moreover have "attempt x w ch etype c sndr rep s
                 = store_event x w ch i etype c sndr rep (await ?s2)"
    by (simp add: attempt_def r Let_def)
  ultimately show ?thesis by simp
qed

lemma log_step_heal: "log_step s (heal s)"
  using log_step_trans [OF log_step_await log_step_trans [OF log_step_await log_step_set]]
  by (simp add: heal_def Let_def)

lemma log_step_create_event: "log_step s (snd (create_event x w ch etype c sndr rep retry s))"
proof -
  have last: "log_step s' (snd (create_event x w ch etype c' sndr rep' True s'))" for s' c' rep'
    using log_step_attempt [of s' x w ch etype c' sndr rep']
    by (subst create_event_attempt) (auto split: prod.splits sum.splits option.splits)
  obtain r c1 s1 where a: "attempt x w ch etype c sndr rep s = (r, c1, s1)"
    by (cases "attempt x w ch etype c sndr rep s")
  with log_step_attempt [of s x w ch etype c sndr rep] have l1: "log_step s s1" by simp
  show ?thesis
  proof (cases retry)
    case True
    then show ?thesis using last by simp
  next
    case False
    have "log_step s (snd (create_event x w ch etype c1 sndr None True (heal s1)))"
      by (rule log_step_trans [OF l1 log_step_trans [OF log_step_heal last]])
    with l1 False a show ?thesis
      by (subst create_event_attempt) (auto split: sum.splits option.splits)
  qed
qed

lemma events_kept_refl: "events_kept s s"
  by (simp add: events_kept_def)

lemma events_kept_eq: "events s' = events s \<Longrightarrow> events_kept s s'"
  by (simp add: events_kept_def)

lemma events_kept_trans: "events_kept s s1 \<Longrightarrow> events_kept s1 s2 \<Longrightarrow> events_kept s s2"
  unfolding events_kept_def by (rule take_prefix_trans)

lemma add_channel_user_frame:
  "snd (add_channel_user cid u vol s)
   = s\<lparr>memberships := memberships (snd (add_channel_user cid u vol s))\<rparr>"
proof (cases "member_rows cid (uid u) s")
  case Nil
  then show ?thesis by (simp add: add_channel_user_def)
next
  case (Cons m ms)
  then show ?thesis by (cases ms) (simp_all add: add_channel_user_def)
qed

lemma add_channel_user_events: "events (snd (add_channel_user cid u vol s)) = events s"
  by (subst add_channel_user_frame) simp

lemma direct_channel_events:
  "events (snd (get_or_create_direct_channel x w ids hide he s)) = events s"
proof -
  from get_one_cases [of "filter (direct_match w ids s) (channels s)"]
  show ?thesis
    by (elim disjE conjE exE)
       (simp_all add: get_or_create_direct_channel_def Let_def)
qed

lemma add_reaction_events: "events (snd (add_reaction event rc u s)) = events s"
  using add_reaction_cases [of event rc u s]
  by (elim disjE conjE exE) (simp_all split: sum.splits)

lemma remove_reaction_events: "events (snd (remove_reaction event rc u s)) = events s"
  by (subst remove_reaction_eq) (simp split: sum.splits)

lemma outbox_events:
  "events (unread_notify_add cid v (broadcast_channel_list x w u sock (group_send cid' e s)))
   = events s"
  by (simp add: unread_notify_add_def broadcast_channel_list_def group_send_def)

lemma enforce_loop_rel:
  assumes refl: "\<And>s. R s s" and trans: "\<And>s s1 s2. R s s1 \<Longrightarrow> R s1 s2 \<Longrightarrow> R s s2"
    and add: "\<And>cid s. R s (snd (add_channel_user cid u False s))"
    and ev: "\<And>ch s. R s (snd (create_event x w ch ''channel.member'' (join_content x w u) u
                                None False s))"
    and out: "\<And>cid e s. R s (unread_notify_add cid (uid u)
                 (broadcast_channel_list x w u ''dummysocket'' (group_send cid e s)))"
  shows "R s (snd (enforce_loop x w u cs s))"
proof (induction cs arbitrary: s)
  case Nil
  show ?case by (simp add: refl)
next
  case (Cons a cs)
  obtain ch rm where a: "a = (ch, rm)" by (cases a)
  show ?case
  proof (cases "has_permission w u ROOM_CHAT_JOIN (Some rm)")
    case False
    with Cons.IH [of s] show ?thesis by (simp add: a)
  next
    case True
    obtain r s1 where j: "add_channel_user (channel_pk ch) u False s = (r, s1)"
      by (cases "add_channel_user (channel_pk ch) u False s")
    from add [of s "channel_pk ch"] j have r1: "R s s1" by simp
    show ?thesis
    proof (cases r)
      case (Inl e)
      with True j r1 show ?thesis by (simp add: a)
    next
      case (Inr joined)
      show ?thesis
      proof (cases joined)
        case False
        from trans [OF r1 Cons.IH [of s1]] True j Inr False show ?thesis by (simp add: a)
      next
        case jn: True
        obtain r2 s2 where c: "create_event x w ch ''channel.member'' (join_content x w u) u
                                None False s1 = (r2, s2)"
          by (cases "create_event x w ch ''channel.member'' (join_content x w u) u None False s1")
        from ev [of s1 ch] c have r2: "R s1 s2" by simp
        show ?thesis
        proof (cases r2)
          case (Inl e)
          from trans [OF r1 r2] True j Inr jn c Inl show ?thesis by (simp add: a)
        next
          case ev: (Inr event)
          let ?s3 = "unread_notify_add (channel_pk ch) (uid u)
                       (broadcast_channel_list x w u ''dummysocket''
                          (group_send (channel_pk ch) event s2))"
          have "R s ?s3" by (rule trans [OF trans [OF r1 r2] out])
          from trans [OF this Cons.IH [of ?s3]] True j Inr jn c ev show ?thesis by (simp add: a)
        qed
      qed
    qed
  qed
qed

lemma enforce_loop_kept: "events_kept s (snd (enforce_loop x w u cs s))"
proof (rule enforce_loop_rel)
  show "events_kept s s" for s by (rule events_kept_refl)
  show "events_kept s s1 \<Longrightarrow> events_kept s1 s2 \<Longrightarrow> events_kept s s2" for s s1 s2
    by (rule events_kept_trans)
  show "events_kept s (snd (add_channel_user cid u False s))" for cid s
    by (rule events_kept_eq) (rule add_channel_user_events)
  show "events_kept s (snd (create_event x w ch ''channel.member'' (join_content x w u) u
                                None False s))" for ch s
    by (rule log_step_fields(10) [OF log_step_create_event])
  show "events_kept s (unread_notify_add cid (uid u)
                 (broadcast_channel_list x w u ''dummysocket'' (group_send cid e s)))" for cid e s
    by (rule events_kept_eq) (rule outbox_events)
qed

lemma enforce_forced_joins_kept: "events_kept s (snd (enforce_forced_joins x w u s))"
  by (simp add: enforce_forced_joins_def Let_def events_kept_refl enforce_loop_kept)

lemma update_event_ok:
  assumes "update_event w event nc by_user now s = (Inr (), s')"
  shows "events s' = map (\<lambda>e. if ev_id e = ev_id event
                               then e\<lparr>ev_content := nc, edited := Some now\<rparr> else e) (events s)"
    and "audit_log s' = audit_log s @
           [\<lparr>a_world = world_pk w, a_user = uid by_user, a_type = ''chat.event.updated'',
             a_object = ev_id event, a_by_same_user = False,
             a_old = serialize_public event s,
             a_new = serialize_public (event\<lparr>ev_content := nc, edited := Some now\<rparr>) s\<rparr>]"
    and "s' = s\<lparr>events := events s', audit_log := audit_log s'\<rparr>"
    and "ev_id event \<in> ev_id ` set (events s)"
proof -
  from assms have st: "ev_id event \<in> ev_id ` set (events s)"
    by (auto simp: update_event_def Let_def split: if_splits)
  then show "ev_id event \<in> ev_id ` set (events s)" .
  from assms st have s': "s' = s\<lparr>events := map (\<lambda>e. if ev_id e = ev_id event
                               then e\<lparr>ev_content := nc, edited := Some now\<rparr> else e) (events s),
        audit_log := audit_log s @
           [\<lparr>a_world = world_pk w, a_user = uid by_user, a_type = ''chat.event.updated'',
             a_object = ev_id event, a_by_same_user = False,
             a_old = serialize_public event s,
             a_new = serialize_public (event\<lparr>ev_content := nc, edited := Some now\<rparr>) s\<rparr>]\<rparr>"
    by (simp add: update_event_def Let_def serialize_public_def reactions_of_def)
  show "events s' = map (\<lambda>e. if ev_id e = ev_id event
                               then e\<lparr>ev_content := nc, edited := Some now\<rparr> else e) (events s)"
    by (subst s') simp
  show "audit_log s' = audit_log s @
           [\<lparr>a_world = world_pk w, a_user = uid by_user, a_type = ''chat.event.updated'',
             a_object = ev_id event, a_by_same_user = False,
             a_old = serialize_public event s,
             a_new = serialize_public (event\<lparr>ev_content := nc, edited := Some now\<rparr>) s\<rparr>]"
    by (subst s') simp
  show "s' = s\<lparr>events := events s', audit_log := audit_log s'\<rparr>"
    by (subst (2 3) s', subst s') simp
qed

lemma update_event_failed:
  "update_event w event nc by_user now s = (Inl err, s') \<Longrightarrow> s' = s"
  by (auto simp: update_event_def Let_def split: if_splits)

lemma map_keep_field:
  assumes "\<And>e. f (g e) = f e"
  shows "map f (map (\<lambda>e. if P e then g e else e) es) = map f es"
  by (induction es) (simp_all add: assms)

section \<open>Facts about forced joins\<close>

lemma joined_iff:
  "joined u cid s \<longleftrightarrow>
     (\<exists>m\<in>set (memberships s). m_channel m = cid \<and> m_user m = uid u \<and> \<not> volatile m)"
  by (auto simp: joined_def filter_empty_conv)

lemma joined_memberships: "memberships s' = memberships s \<Longrightarrow> joined u c s' = joined u c s"
  by (simp add: joined_def)

lemma add_channel_user_joins:
  assumes "add_channel_user cid u False s = (Inr b, s1)"
  shows "joined u cid s1"
proof (cases "member_rows cid (uid u) s")
  case Nil
  with assms show ?thesis by (auto simp: add_channel_user_def joined_iff split: if_splits)
next
  case (Cons m ms)
  with assms have ms: "ms = []" by (cases ms) (simp_all add: add_channel_user_def)
  from Cons have "m \<in> set (member_rows cid (uid u) s)" by simp
  then have m: "m \<in> set (memberships s)" "m_channel m = cid" "m_user m = uid u"
    by (simp_all add: member_rows_def)
  show ?thesis
  proof (cases "volatile m")
    case True
    with assms Cons ms have "memberships s1 = map (\<lambda>m'. if m_channel m' = cid \<and> m_user m' = uid u
                            then m'\<lparr>volatile := False\<rparr> else m') (memberships s)"
      by (auto simp: add_channel_user_def)
    with m have "m\<lparr>volatile := False\<rparr> \<in> set (memberships s1)" by force
    moreover have "m_channel (m\<lparr>volatile := False\<rparr>) = cid
                   \<and> m_user (m\<lparr>volatile := False\<rparr>) = uid u
                   \<and> \<not> volatile (m\<lparr>volatile := False\<rparr>)"
      using m by simp
    ultimately show ?thesis unfolding joined_iff by blast
  next
    case False
    with assms Cons ms have "s1 = s" by (simp add: add_channel_user_def)
    with m False show ?thesis unfolding joined_iff by blast
  qed
qed

lemma add_channel_user_keeps_joined:
  assumes "joined u c s"
  shows "joined u c (snd (add_channel_user cid u' vol s))"
proof -
  from assms obtain m where m: "m \<in> set (memberships s)" "m_channel m = c" "m_user m = uid u"
    "\<not> volatile m" unfolding joined_iff by blast
  let ?f = "\<lambda>m'. if m_channel m' = cid \<and> m_user m' = uid u' then m'\<lparr>volatile := False\<rparr> else m'"
  have fm: "m_channel (?f m) = c \<and> m_user (?f m) = uid u \<and> \<not> volatile (?f m)"
    using m by simp
  have in_map: "?f m \<in> set (map ?f (memberships s))" using m(1) by simp
  have in_app: "m \<in> set (memberships s @ [r])" for r using m(1) by simp
  have "memberships (snd (add_channel_user cid u' vol s)) = memberships s
        \<or> memberships (snd (add_channel_user cid u' vol s)) = map ?f (memberships s)
        \<or> (\<exists>r. memberships (snd (add_channel_user cid u' vol s)) = memberships s @ [r])"
  proof (cases "member_rows cid (uid u') s")
    case Nil
    then show ?thesis by (simp add: add_channel_user_def)
  next
    case (Cons r rs)
    then show ?thesis by (cases rs) (simp_all add: add_channel_user_def)
  qed
  then show ?thesis
  proof (elim disjE exE)
    assume "memberships (snd (add_channel_user cid u' vol s)) = memberships s"
    with assms show ?thesis by (simp add: joined_def)
  next
    assume e: "memberships (snd (add_channel_user cid u' vol s)) = map ?f (memberships s)"
    show ?thesis unfolding joined_iff e using in_map fm by blast
  next
    fix r assume e: "memberships (snd (add_channel_user cid u' vol s)) = memberships s @ [r]"
    show ?thesis unfolding joined_iff e using in_app [of r] m by blast
  qed
qed

lemma add_channel_user_tables:
  "channels (snd (add_channel_user cid u vol s)) = channels s"
  "rooms (snd (add_channel_user cid u vol s)) = rooms s"
  by (subst add_channel_user_frame, simp)+

lemma outbox_tables:
  "channels (unread_notify_add cid v (broadcast_channel_list x w u sock (group_send cid' e s)))
   = channels s"
  "rooms (unread_notify_add cid v (broadcast_channel_list x w u sock (group_send cid' e s)))
   = rooms s"
  "memberships (unread_notify_add cid v (broadcast_channel_list x w u sock (group_send cid' e s)))
   = memberships s"
  by (simp_all add: unread_notify_add_def broadcast_channel_list_def group_send_def)

text \<open>What a run of the loop keeps: the channels, the rooms and the joins that are there.\<close>

lemma enforce_loop_keeps:
  "channels (snd (enforce_loop x w u cs s)) = channels s
   \<and> rooms (snd (enforce_loop x w u cs s)) = rooms s
   \<and> (\<forall>c. joined u c s \<longrightarrow> joined u c (snd (enforce_loop x w u cs s)))"
proof (rule enforce_loop_rel
    [where R = "\<lambda>s s'. channels s' = channels s \<and> rooms s' = rooms s
                  \<and> (\<forall>c. joined u c s \<longrightarrow> joined u c s')"])
  show "channels s = channels s \<and> rooms s = rooms s \<and> (\<forall>c. joined u c s \<longrightarrow> joined u c s)" for s
    by simp
  show "channels s2 = channels s \<and> rooms s2 = rooms s \<and> (\<forall>c. joined u c s \<longrightarrow> joined u c s2)"
    if "channels s1 = channels s \<and> rooms s1 = rooms s \<and> (\<forall>c. joined u c s \<longrightarrow> joined u c s1)"
      and "channels s2 = channels s1 \<and> rooms s2 = rooms s1 \<and> (\<forall>c. joined u c s1 \<longrightarrow> joined u c s2)"
    for s s1 s2
    using that by simp
  show "channels (snd (add_channel_user cid u False s)) = channels s
        \<and> rooms (snd (add_channel_user cid u False s)) = rooms s
        \<and> (\<forall>c. joined u c s \<longrightarrow> joined u c (snd (add_channel_user cid u False s)))" for cid s
    by (simp add: add_channel_user_tables add_channel_user_keeps_joined)
  show "channels (snd (create_event x w ch ''channel.member'' (join_content x w u) u None False s))
          = channels s
        \<and> rooms (snd (create_event x w ch ''channel.member'' (join_content x w u) u None False s))
          = rooms s
        \<and> (\<forall>c. joined u c s \<longrightarrow>
              joined u c (snd (create_event x w ch ''channel.member'' (join_content x w u) u
                                 None False s)))" for ch s
    using log_step_fields(2,3,4) [OF log_step_create_event
        [of s x w ch "''channel.member''" "join_content x w u" u None False]]
    by (simp add: joined_def)
  show "channels (unread_notify_add cid (uid u)
                 (broadcast_channel_list x w u ''dummysocket'' (group_send cid e s))) = channels s
        \<and> rooms (unread_notify_add cid (uid u)
                 (broadcast_channel_list x w u ''dummysocket'' (group_send cid e s))) = rooms s
        \<and> (\<forall>c. joined u c s \<longrightarrow> joined u c (unread_notify_add cid (uid u)
                 (broadcast_channel_list x w u ''dummysocket'' (group_send cid e s))))" for cid e s
    by (simp add: outbox_tables joined_def)
qed


lemma candidates_iff:
  "(c, rm) \<in> set (get_channels_to_join_forced w u s) \<longleftrightarrow>
     c \<in> set (channels s) \<and> channel_world c = world_pk w
     \<and> (\<exists>r. channel_room c = Some r \<and> room_row r s = Some rm)
     \<and> force_join rm \<and> \<not> joined u (channel_pk c) s"
proof -
  let ?f = "\<lambda>c. case channel_room c of
          None \<Rightarrow> []
        | Some r \<Rightarrow>
            (case room_row r s of
               None \<Rightarrow> []
             | Some rm \<Rightarrow>
                 if filter (\<lambda>m. m_channel m = channel_pk c \<and> m_user m = uid u \<and> \<not> volatile m)
                      (memberships s) = []
                    \<and> channel_world c = world_pk w \<and> force_join rm
                 then [(c, rm)] else [])"
  have one: "(c, rm) \<in> set (?f c') \<longleftrightarrow>
               c' = c \<and> channel_world c = world_pk w
               \<and> (\<exists>r. channel_room c = Some r \<and> room_row r s = Some rm)
               \<and> force_join rm \<and> \<not> joined u (channel_pk c) s" for c'
  proof (cases "channel_room c'")
    case None
    then show ?thesis by auto
  next
    case (Some r)
    then show ?thesis by (cases "room_row r s") (auto simp: joined_def)
  qed
  have "(c, rm) \<in> set (get_channels_to_join_forced w u s)
        \<longleftrightarrow> (\<exists>c'\<in>set (channels s). (c, rm) \<in> set (?f c'))"
    by (simp add: get_channels_to_join_forced_def)
  then show ?thesis unfolding one by blast
qed

lemma enforce_loop_denied:
  assumes "\<forall>(c, rm)\<in>set cs. \<not> has_permission w u ROOM_CHAT_JOIN (Some rm)"
  shows "enforce_loop x w u cs s = (Inr (), s)"
  using assms by (induction cs) auto

lemma enforce_loop_joins:
  assumes "enforce_loop x w u cs s = (Inr (), s1)"
  shows "\<forall>(c, rm)\<in>set cs. has_permission w u ROOM_CHAT_JOIN (Some rm) \<longrightarrow>
           joined u (channel_pk c) s1"
  using assms
proof (induction cs arbitrary: s)
  case Nil
  show ?case by simp
next
  case (Cons a cs)
  obtain ch rm where a: "a = (ch, rm)" by (cases a)
  show ?case
  proof (cases "has_permission w u ROOM_CHAT_JOIN (Some rm)")
    case False
    with Cons.prems have "enforce_loop x w u cs s = (Inr (), s1)" by (simp add: a)
    from Cons.IH [OF this] False show ?thesis by (simp add: a)
  next
    case True
    obtain r t where j: "add_channel_user (channel_pk ch) u False s = (r, t)"
      by (cases "add_channel_user (channel_pk ch) u False s")
    show ?thesis
    proof (cases r)
      case (Inl e)
      with True j Cons.prems show ?thesis by (simp add: a)
    next
      case (Inr b)
      from j Inr have jt: "joined u (channel_pk ch) t"
        by (intro add_channel_user_joins [of "channel_pk ch" u s b t]) simp
      have rest: "\<exists>t'. enforce_loop x w u cs t' = (Inr (), s1) \<and> joined u (channel_pk ch) t'"
      proof (cases b)
        case False
        with True j Inr Cons.prems have "enforce_loop x w u cs t = (Inr (), s1)" by (simp add: a)
        with jt show ?thesis by blast
      next
        case jn: True
        obtain r2 t2 where c: "create_event x w ch ''channel.member'' (join_content x w u) u
                                None False t = (r2, t2)"
          by (cases "create_event x w ch ''channel.member'' (join_content x w u) u None False t")
        have m2: "memberships t2 = memberships t"
          using log_step_fields(4) [OF log_step_create_event
              [of t x w ch "''channel.member''" "join_content x w u" u None False]] c by simp
        show ?thesis
        proof (cases r2)
          case (Inl e)
          with True j Inr jn c Cons.prems show ?thesis by (simp add: a)
        next
          case ev: (Inr event)
          let ?t3 = "unread_notify_add (channel_pk ch) (uid u)
                       (broadcast_channel_list x w u ''dummysocket''
                          (group_send (channel_pk ch) event t2))"
          from True j Inr jn c ev Cons.prems
          have "enforce_loop x w u cs ?t3 = (Inr (), s1)" by (simp add: a)
          moreover have "joined u (channel_pk ch) ?t3"
            using jt by (simp add: joined_def outbox_tables m2)
          ultimately show ?thesis by blast
        qed
      qed
      then obtain t' where l: "enforce_loop x w u cs t' = (Inr (), s1)"
        and jt': "joined u (channel_pk ch) t'" by blast
      from enforce_loop_keeps [of x w u cs t'] jt' l have "joined u (channel_pk ch) s1" by simp
      with Cons.IH [OF l] show ?thesis by (simp add: a)
    qed
  qed
qed

lemma enforce_forced_joins_again:
  assumes r: "enforce_forced_joins x w u s = (Inr (), s1)"
  shows "enforce_forced_joins x w u s1 = (Inr (), s1)"
proof (cases "truthy (map_of (profile u) ''display_name'')
              \<and> get_channels_to_join_forced w u s \<noteq> []")
  case False
  with r have "s1 = s" by (auto simp: enforce_forced_joins_def Let_def split: if_splits)
  with r show ?thesis by simp
next
  case True
  let ?cs = "get_channels_to_join_forced w u s"
  let ?cs1 = "get_channels_to_join_forced w u s1"
  from True r have l: "enforce_loop x w u ?cs s = (Inr (), s1)"
    by (simp add: enforce_forced_joins_def Let_def)
  from enforce_loop_keeps [of x w u ?cs s] l
  have ch: "channels s1 = channels s" and rm: "rooms s1 = rooms s"
    and mono: "\<And>c. joined u c s \<Longrightarrow> joined u c s1" by simp_all
  have "\<forall>(c, rm)\<in>set ?cs1. \<not> has_permission w u ROOM_CHAT_JOIN (Some rm)"
  proof (clarify)
    fix c rm' assume in1: "(c, rm') \<in> set ?cs1"
      and p: "has_permission w u ROOM_CHAT_JOIN (Some rm')"
    from in1 have nj: "\<not> joined u (channel_pk c) s1" by (simp add: candidates_iff)
    with mono have "\<not> joined u (channel_pk c) s" by blast
    with in1 have "(c, rm') \<in> set ?cs" by (simp add: candidates_iff ch room_row_def rm)
    with enforce_loop_joins [OF l] p have "joined u (channel_pk c) s1" by blast
    with nj show False by simp
  qed
  from enforce_loop_denied [OF this] True show ?thesis
    by (simp add: enforce_forced_joins_def Let_def)
qed

lemma store_event_plain:
  assumes "map_of c ''type'' \<noteq> Some (JStr ''call'')"
  shows "fst (snd (store_event x w ch i etype c sndr rep s)) = c"
    and "fst (store_event x w ch i etype c sndr rep s) = Inr (Some ev) \<Longrightarrow>
         ev_content (pe_event ev) = c"
proof -
  from assms have a: "assign_call x w ch c s = (Inr c, s)" by (simp add: assign_call_def)
  from chat_event_create_cases [of "new_event ch i etype c sndr rep" s]
  have "fst (snd (store_event x w ch i etype c sndr rep s)) = c
        \<and> (fst (store_event x w ch i etype c sndr rep s) = Inr (Some ev) \<longrightarrow>
             ev_content (pe_event ev) = c)"
    by (elim disjE conjE)
       (auto simp: store_event_def a serialize_public_def new_event_def)
  then show "fst (snd (store_event x w ch i etype c sndr rep s)) = c"
    and "fst (store_event x w ch i etype c sndr rep s) = Inr (Some ev) \<Longrightarrow>
         ev_content (pe_event ev) = c" by simp_all
qed

lemma attempt_plain:
  assumes "map_of c ''type'' \<noteq> Some (JStr ''call'')"
  shows "fst (snd (attempt x w ch etype c sndr rep s)) = c"
    and "fst (attempt x w ch etype c sndr rep s) = Inr (Some ev) \<Longrightarrow>
         ev_content (pe_event ev) = c"
  using store_event_plain [OF assms]
  by (simp_all add: attempt_def Let_def split: prod.splits)

lemma create_event_Inr:
  assumes r: "create_event x w ch etype c sndr rep retry s = (Inr ev, s')"
  shows "event_type (pe_event ev) = etype" and "ev_channel (pe_event ev) = channel_pk ch"
    and "sender (pe_event ev) = uid sndr" and "pe_event ev \<in> set (events s')"
    and "map_of c ''type'' \<noteq> Some (JStr ''call'') \<Longrightarrow> ev_content (pe_event ev) = c"
proof -
  have last: "event_type (pe_event ev) = etype \<and> ev_channel (pe_event ev) = channel_pk ch
              \<and> sender (pe_event ev) = uid sndr \<and> pe_event ev \<in> set (events s')
              \<and> (map_of c0 ''type'' \<noteq> Some (JStr ''call'') \<longrightarrow> ev_content (pe_event ev) = c0)"
    if a: "attempt x w ch etype c0 sndr rep0 s0 = (Inr (Some ev), c1, s')" for c0 rep0 s0 c1
    using attempt_Some [OF a] attempt_plain(2) [of c0 x w ch etype sndr rep0 s0 ev] a by simp
  obtain r1 c1 s1 where a: "attempt x w ch etype c sndr rep s = (r1, c1, s1)"
    by (cases "attempt x w ch etype c sndr rep s")
  have "event_type (pe_event ev) = etype \<and> ev_channel (pe_event ev) = channel_pk ch
              \<and> sender (pe_event ev) = uid sndr \<and> pe_event ev \<in> set (events s')
              \<and> (map_of c ''type'' \<noteq> Some (JStr ''call'') \<longrightarrow> ev_content (pe_event ev) = c)"
  proof (cases r1)
    case (Inl e)
    with r a show ?thesis by (subst (asm) create_event_attempt) simp
  next
    case (Inr o1)
    show ?thesis
    proof (cases o1)
      case (Some e1)
      with r a Inr have "e1 = ev \<and> s1 = s'" by (subst (asm) create_event_attempt) simp
      with a Inr Some last [of c rep s c1] show ?thesis by simp
    next
      case None
      show ?thesis
      proof (cases retry)
        case True
        with r a Inr None show ?thesis by (subst (asm) create_event_attempt) simp
      next
        case False
        with r a Inr None
        have r2: "create_event x w ch etype c1 sndr None True (heal s1) = (Inr ev, s')"
          by (subst (asm) create_event_attempt) simp
        obtain r3 c3 s3 where a2: "attempt x w ch etype c1 sndr None (heal s1) = (r3, c3, s3)"
          by (cases "attempt x w ch etype c1 sndr None (heal s1)")
        from r2 have "r3 = Inr (Some ev) \<and> s3 = s'"
          by (subst (asm) create_event_attempt)
             (auto simp: a2 split: sum.splits option.splits)
        with a2 have a3: "attempt x w ch etype c1 sndr None (heal s1) = (Inr (Some ev), c3, s')"
          by simp
        have "map_of c ''type'' \<noteq> Some (JStr ''call'') \<Longrightarrow> c1 = c"
          using attempt_plain(1) [of c x w ch etype sndr rep s] a by simp
        with last [OF a3] show ?thesis by auto
      qed
    qed
  qed
  then show "event_type (pe_event ev) = etype" and "ev_channel (pe_event ev) = channel_pk ch"
    and "sender (pe_event ev) = uid sndr" and "pe_event ev \<in> set (events s')"
    and "map_of c ''type'' \<noteq> Some (JStr ''call'') \<Longrightarrow> ev_content (pe_event ev) = c"
    by simp_all
qed

lemma enforce_loop_skip:
  "\<not> has_permission w u ROOM_CHAT_JOIN (Some rm) \<Longrightarrow>
   enforce_loop x w u ((ch, rm) # rest) s = enforce_loop x w u rest s"
  by simp

lemma enforce_loop_member:
  assumes p: "has_permission w u ROOM_CHAT_JOIN (Some rm)"
    and m: "member_rows (channel_pk ch) (uid u) s = [m]"
  shows "\<exists>s1. enforce_loop x w u ((ch, rm) # rest) s = enforce_loop x w u rest s1
           \<and> s1 = s\<lparr>memberships := memberships s1\<rparr>
           \<and> map (\<lambda>m. (m_channel m, m_user m)) (memberships s1)
               = map (\<lambda>m. (m_channel m, m_user m)) (memberships s)
           \<and> joined u (channel_pk ch) s1"
proof -
  obtain s1 where a: "add_channel_user (channel_pk ch) u False s = (Inr False, s1)"
    and k: "map (\<lambda>m. (m_channel m, m_user m)) (memberships s1)
               = map (\<lambda>m. (m_channel m, m_user m)) (memberships s)"
  proof (cases "volatile m")
    case True
    from add_channel_user_clears [OF m True] that show ?thesis by blast
  next
    case False
    from add_channel_user_keeps [OF m False, of False] that show ?thesis by blast
  qed
  from add_channel_user_frame [of "channel_pk ch" u False s] a
  have f: "s1 = s\<lparr>memberships := memberships s1\<rparr>" by simp
  from a p have "enforce_loop x w u ((ch, rm) # rest) s = enforce_loop x w u rest s1" by simp
  with f k add_channel_user_joins [OF a] show ?thesis by blast
qed

lemma enforce_loop_new:
  assumes p: "has_permission w u ROOM_CHAT_JOIN (Some rm)"
    and m: "member_rows (channel_pk ch) (uid u) s = []"
    and st: "channel_pk ch \<in> channel_pk ` set (channels s)" "uid u \<in> uid ` set (users s)"
  shows "create_event x w ch ''channel.member'' (join_content x w u) u None False
           (s\<lparr>memberships := memberships s @
                [\<lparr>m_channel = channel_pk ch, m_user = uid u, volatile = False, hidden = False\<rparr>]\<rparr>)
         = (Inr ev, s2) \<Longrightarrow>
         enforce_loop x w u ((ch, rm) # rest) s =
           enforce_loop x w u rest
             (unread_notify_add (channel_pk ch) (uid u)
                (broadcast_channel_list x w u ''dummysocket'' (group_send (channel_pk ch) ev s2)))"
    and "create_event x w ch ''channel.member'' (join_content x w u) u None False
           (s\<lparr>memberships := memberships s @
                [\<lparr>m_channel = channel_pk ch, m_user = uid u, volatile = False, hidden = False\<rparr>]\<rparr>)
         = (Inl e, s2) \<Longrightarrow>
         enforce_loop x w u ((ch, rm) # rest) s = (Inl e, s2)"
proof -
  have a: "add_channel_user (channel_pk ch) u False s
        = (Inr True, s\<lparr>memberships := memberships s @
                [\<lparr>m_channel = channel_pk ch, m_user = uid u, volatile = False, hidden = False\<rparr>]\<rparr>)"
    by (rule add_channel_user_first [OF m st])
  show "create_event x w ch ''channel.member'' (join_content x w u) u None False
           (s\<lparr>memberships := memberships s @
                [\<lparr>m_channel = channel_pk ch, m_user = uid u, volatile = False, hidden = False\<rparr>]\<rparr>)
         = (Inr ev, s2) \<Longrightarrow>
         enforce_loop x w u ((ch, rm) # rest) s =
           enforce_loop x w u rest
             (unread_notify_add (channel_pk ch) (uid u)
                (broadcast_channel_list x w u ''dummysocket'' (group_send (channel_pk ch) ev s2)))"
    using p by (simp add: a)
  show "create_event x w ch ''channel.member'' (join_content x w u) u None False
           (s\<lparr>memberships := memberships s @
                [\<lparr>m_channel = channel_pk ch, m_user = uid u, volatile = False, hidden = False\<rparr>]\<rparr>)
         = (Inl e, s2) \<Longrightarrow>
         enforce_loop x w u ((ch, rm) # rest) s = (Inl e, s2)"
    using p by (simp add: a)
qed

lemma enforce_loop_refused:
  assumes p: "has_permission w u ROOM_CHAT_JOIN (Some rm)"
    and m: "member_rows (channel_pk ch) (uid u) s = []"
    and st: "channel_pk ch \<notin> channel_pk ` set (channels s) \<or> uid u \<notin> uid ` set (users s)"
  shows "enforce_loop x w u ((ch, rm) # rest) s = (Inl (IntegrityError Foreign_key), s)"
  using p by (simp add: add_channel_user_refused [OF m st])

lemma enforce_forced_joins_unique:
  "unique_members s \<Longrightarrow> unique_members (snd (enforce_forced_joins x w u s))"
proof -
  have "unique_members s \<longrightarrow> unique_members (snd (enforce_loop x w u cs s))" for cs
  proof (rule enforce_loop_rel [where R = "\<lambda>s s'. unique_members s \<longrightarrow> unique_members s'"])
    show "unique_members s \<longrightarrow> unique_members s" for s by simp
    show "unique_members s \<longrightarrow> unique_members s2"
      if "unique_members s \<longrightarrow> unique_members s1" and "unique_members s1 \<longrightarrow> unique_members s2"
      for s s1 s2 using that by simp
    show "unique_members s \<longrightarrow> unique_members (snd (add_channel_user cid u False s))" for cid s
      by (simp add: add_channel_user_unique)
    show "unique_members s \<longrightarrow>
          unique_members (snd (create_event x w ch ''channel.member'' (join_content x w u) u
                                 None False s))" for ch s
      using log_step_fields(4) [OF log_step_create_event
          [of s x w ch "''channel.member''" "join_content x w u" u None False]]
      by (simp add: unique_members_def)
    show "unique_members s \<longrightarrow> unique_members (unread_notify_add cid (uid u)
                 (broadcast_channel_list x w u ''dummysocket'' (group_send cid e s)))" for cid e s
      by (simp add: unique_members_def outbox_tables)
  qed
  then show "unique_members s \<Longrightarrow> unique_members (snd (enforce_forced_joins x w u s))"
    by (simp add: enforce_forced_joins_def Let_def)
qed

lemma enforce_forced_joins_denied:
  assumes "\<forall>(c, rm)\<in>set (get_channels_to_join_forced w u s).
             \<not> has_permission w u ROOM_CHAT_JOIN (Some rm)"
  shows "enforce_forced_joins x w u s = (Inr (), s)"
  using enforce_loop_denied [OF assms] by (simp add: enforce_forced_joins_def Let_def)

section \<open>Facts about the messages of a forced join\<close>

lemma add_channel_user_fields:
  "sent (snd (add_channel_user cid u vol s)) = sent s"
  "pending (snd (add_channel_user cid u vol s)) = pending s"
  "unread_notify (snd (add_channel_user cid u vol s)) = unread_notify s"
  "users (snd (add_channel_user cid u vol s)) = users s"
  by (subst add_channel_user_frame, simp)+

lemma add_channel_user_Inl: "add_channel_user cid u vol s = (Inl e, s1) \<Longrightarrow> s1 = s"
  by (auto simp: add_channel_user_def split: list.splits if_splits)

lemma add_channel_user_False:
  assumes "add_channel_user cid u vol s = (Inr False, s1)"
  shows "member_rows cid (uid u) s \<noteq> []"
    and "map (\<lambda>m. (m_channel m, m_user m)) (memberships s1)
         = map (\<lambda>m. (m_channel m, m_user m)) (memberships s)"
  using assms
  by (auto simp: add_channel_user_def map_key_clear split: list.splits if_splits simp del: map_map)

lemma member_rows_keys:
  assumes "map (\<lambda>m. (m_channel m, m_user m)) (memberships s1)
           = map (\<lambda>m. (m_channel m, m_user m)) (memberships s)"
  shows "member_rows c v s1 = [] \<longleftrightarrow> member_rows c v s = []"
proof -
  have "(\<lambda>m. (m_channel m, m_user m)) ` set (memberships s1)
        = (\<lambda>m. (m_channel m, m_user m)) ` set (memberships s)"
    using arg_cong [OF assms, of set] by (simp only: set_map)
  then show ?thesis by (simp only: member_rows_Nil_iff)
qed

lemma member_rows_append:
  "memberships s1 = memberships s @ rows \<Longrightarrow> member_rows c v s1 = [] \<Longrightarrow> member_rows c v s = []"
  by (simp add: member_rows_def)

lemma sent_by_append: "sent s' = sent s @ ms \<Longrightarrow> sent_by s s' = ms"
  by (simp add: sent_by_def)

lemma sent_by_same: "sent s' = sent s \<Longrightarrow> sent_by s s' = []"
  by (simp add: sent_by_def)

lemma join_message_mono:
  assumes "set cids \<subseteq> set cids'"
    and "\<And>cid. member_rows cid (uid u) s1 = [] \<Longrightarrow> member_rows cid (uid u) s = []"
    and "join_message x w u cids s1 msg"
  shows "join_message x w u cids' s msg"
  using assms by (cases msg) (auto simp: join_message_def)

lemma permitted_Cons:
  "permitted w u ((ch, rm) # cs)
   = (if has_permission w u ROOM_CHAT_JOIN (Some rm) then channel_pk ch # permitted w u cs
      else permitted w u cs)"
  by (simp add: permitted_def)

lemma outbox_fields:
  "sent (unread_notify_add cid v (broadcast_channel_list x w u sock (group_send cid' e s)))
   = sent s @ [Group_send cid' e,
               User_broadcast ''chat.channels''
                 (get_channels_for_user x w (uid u) (Some False) (Some False)
                    (group_send cid' e s)) (uid u) sock]"
  "unread_notify (unread_notify_add cid v (broadcast_channel_list x w u sock (group_send cid' e s)))
   = List.insert (cid, v) (unread_notify s)"
  "pending (unread_notify_add cid v (broadcast_channel_list x w u sock (group_send cid' e s)))
   = pending s"
  by (simp_all add: unread_notify_add_def broadcast_channel_list_def group_send_def)

text \<open>The runs of the loop, case by case.\<close>

lemma enforce_loop_run [consumes 1, case_names nil skip refused found failed new]:
  assumes run: "enforce_loop x w u cs s = r"
    and nil: "\<And>s. P [] s (Inr (), s)"
    and skip: "\<And>ch rm cs s r. \<not> has_permission w u ROOM_CHAT_JOIN (Some rm) \<Longrightarrow>
                 enforce_loop x w u cs s = r \<Longrightarrow> P cs s r \<Longrightarrow> P ((ch, rm) # cs) s r"
    and refused: "\<And>ch rm cs s e. has_permission w u ROOM_CHAT_JOIN (Some rm) \<Longrightarrow>
                 add_channel_user (channel_pk ch) u False s = (Inl e, s) \<Longrightarrow>
                 P ((ch, rm) # cs) s (Inl e, s)"
    and found: "\<And>ch rm cs s s1 r. has_permission w u ROOM_CHAT_JOIN (Some rm) \<Longrightarrow>
                 add_channel_user (channel_pk ch) u False s = (Inr False, s1) \<Longrightarrow>
                 enforce_loop x w u cs s1 = r \<Longrightarrow> P cs s1 r \<Longrightarrow> P ((ch, rm) # cs) s r"
    and failed: "\<And>ch rm cs s s1 e s2. has_permission w u ROOM_CHAT_JOIN (Some rm) \<Longrightarrow>
                 add_channel_user (channel_pk ch) u False s = (Inr True, s1) \<Longrightarrow>
                 create_event x w ch ''channel.member'' (join_content x w u) u None False s1
                   = (Inl e, s2) \<Longrightarrow>
                 P ((ch, rm) # cs) s (Inl e, s2)"
    and new: "\<And>ch rm cs s s1 ev s2 r. has_permission w u ROOM_CHAT_JOIN (Some rm) \<Longrightarrow>
                 add_channel_user (channel_pk ch) u False s = (Inr True, s1) \<Longrightarrow>
                 create_event x w ch ''channel.member'' (join_content x w u) u None False s1
                   = (Inr ev, s2) \<Longrightarrow>
                 enforce_loop x w u cs
                   (unread_notify_add (channel_pk ch) (uid u)
                      (broadcast_channel_list x w u ''dummysocket''
                         (group_send (channel_pk ch) ev s2))) = r \<Longrightarrow>
                 P cs (unread_notify_add (channel_pk ch) (uid u)
                         (broadcast_channel_list x w u ''dummysocket''
                            (group_send (channel_pk ch) ev s2))) r \<Longrightarrow>
                 P ((ch, rm) # cs) s r"
  shows "P cs s r"
  using run
proof (induction cs arbitrary: s r)
  case Nil
  then show ?case using nil by auto
next
  case (Cons a cs)
  obtain ch rm where a: "a = (ch, rm)" by (cases a)
  show ?case
  proof (cases "has_permission w u ROOM_CHAT_JOIN (Some rm)")
    case False
    with Cons.prems have l: "enforce_loop x w u cs s = r" by (simp add: a)
    from skip [OF False l Cons.IH [OF l]] show ?thesis by (simp add: a)
  next
    case True
    obtain r1 s1 where j: "add_channel_user (channel_pk ch) u False s = (r1, s1)"
      by (cases "add_channel_user (channel_pk ch) u False s")
    show ?thesis
    proof (cases r1)
      case (Inl e)
      with j add_channel_user_Inl [of "channel_pk ch" u False s e s1]
      have j': "add_channel_user (channel_pk ch) u False s = (Inl e, s)" by simp
      with True Cons.prems have "r = (Inl e, s)" by (simp add: a)
      with refused [OF True j'] show ?thesis by (simp add: a)
    next
      case (Inr joined)
      show ?thesis
      proof (cases joined)
        case False
        with j Inr have j': "add_channel_user (channel_pk ch) u False s = (Inr False, s1)" by simp
        with True Cons.prems have l: "enforce_loop x w u cs s1 = r" by (simp add: a)
        from found [OF True j' l Cons.IH [OF l]] show ?thesis by (simp add: a)
      next
        case jn: True
        with j Inr have j': "add_channel_user (channel_pk ch) u False s = (Inr True, s1)" by simp
        obtain r2 s2 where c: "create_event x w ch ''channel.member'' (join_content x w u) u
                                None False s1 = (r2, s2)"
          by (cases "create_event x w ch ''channel.member'' (join_content x w u) u None False s1")
        show ?thesis
        proof (cases r2)
          case (Inl e)
          with True j' c Cons.prems have "r = (Inl e, s2)" by (simp add: a)
          with failed [OF True j'] c Inl show ?thesis by (simp add: a)
        next
          case ev: (Inr event)
          let ?s3 = "unread_notify_add (channel_pk ch) (uid u)
                       (broadcast_channel_list x w u ''dummysocket''
                          (group_send (channel_pk ch) event s2))"
          from True j' c ev Cons.prems have l: "enforce_loop x w u cs ?s3 = r" by (simp add: a)
          from c ev have c': "create_event x w ch ''channel.member'' (join_content x w u) u
                                None False s1 = (Inr event, s2)" by simp
          from new [OF True j' c' l Cons.IH [OF l]] show ?thesis by (simp add: a)
        qed
      qed
    qed
  qed
qed

lemma create_event_fields:
  "sent (snd (create_event x w ch etype c sndr rep retry s)) = sent s"
  "unread_notify (snd (create_event x w ch etype c sndr rep retry s)) = unread_notify s"
  "memberships (snd (create_event x w ch etype c sndr rep retry s)) = memberships s"
  using log_step_fields(8,9,4) [OF log_step_create_event [of s x w ch etype c sndr rep retry]]
  by simp_all

lemma join_content_plain: "map_of (join_content x w u) ''type'' \<noteq> Some (JStr ''call'')"
  by (simp add: join_content_def)

lemma enforce_loop_sends:
  "\<exists>ms. sent (snd (enforce_loop x w u cs s)) = sent s @ ms
         \<and> list_all (join_message x w u (permitted w u cs) s) ms"
proof -
  have "\<exists>ms. sent (snd r) = sent s @ ms \<and> list_all (join_message x w u (permitted w u cs) s) ms"
    if "enforce_loop x w u cs s = r" for r
    using that
  proof (induction rule: enforce_loop_run)
    case (nil s)
    show ?case by simp
  next
    case (skip ch rm cs s r)
    then show ?case by (simp add: permitted_Cons)
  next
    case (refused ch rm cs s e)
    show ?case by simp
  next
    case (found ch rm cs s s1 r)
    from found.IH obtain ms where ms: "sent (snd r) = sent s1 @ ms"
      and all: "list_all (join_message x w u (permitted w u cs) s1) ms" by blast
    from add_channel_user_fields(1) [of "channel_pk ch" u False s] found.hyps(2)
    have s1: "sent s1 = sent s" by simp
    have rows: "member_rows cid (uid u) s = []" if "member_rows cid (uid u) s1 = []" for cid
      using member_rows_keys [OF add_channel_user_False(2) [OF found.hyps(2)]] that by simp
    have "join_message x w u (permitted w u ((ch, rm) # cs)) s msg"
      if "join_message x w u (permitted w u cs) s1 msg" for msg
      using that by (rule join_message_mono [rotated 2]) (auto simp: permitted_Cons rows)
    with all have "list_all (join_message x w u (permitted w u ((ch, rm) # cs)) s) ms"
      by (simp add: list_all_iff)
    with ms s1 show ?case by simp
  next
    case (failed ch rm cs s s1 e s2)
    from add_channel_user_fields(1) [of "channel_pk ch" u False s] failed.hyps(2)
      create_event_fields(1) [of x w ch "''channel.member''" "join_content x w u" u None False s1]
      failed.hyps(3)
    show ?case by simp
  next
    case (new ch rm cs s s1 ev s2 r)
    let ?s3 = "unread_notify_add (channel_pk ch) (uid u)
                 (broadcast_channel_list x w u ''dummysocket'' (group_send (channel_pk ch) ev s2))"
    let ?G = "Group_send (channel_pk ch) ev"
    let ?U = "User_broadcast ''chat.channels''
                 (get_channels_for_user x w (uid u) (Some False) (Some False)
                    (group_send (channel_pk ch) ev s2)) (uid u) ''dummysocket''"
    from new.IH obtain ms where ms: "sent (snd r) = sent ?s3 @ ms"
      and all: "list_all (join_message x w u (permitted w u cs) ?s3) ms" by blast
    note c = add_channel_user_created [OF new.hyps(2)]
    from add_channel_user_fields(1) [of "channel_pk ch" u False s] new.hyps(2)
      create_event_fields(1) [of x w ch "''channel.member''" "join_content x w u" u None False s1]
      new.hyps(3)
    have s2: "sent s2 = sent s" by simp
    have s3: "sent ?s3 = sent s @ [?G, ?U]" by (simp add: outbox_fields s2)
    from create_event_fields(3) [of x w ch "''channel.member''" "join_content x w u" u None False s1]
      new.hyps(3)
    have m3: "memberships ?s3 = memberships s
                @ [\<lparr>m_channel = channel_pk ch, m_user = uid u, volatile = False, hidden = False\<rparr>]"
      by (simp add: outbox_tables c(2))
    have rows: "member_rows cid (uid u) s = []" if "member_rows cid (uid u) ?s3 = []" for cid
      using member_rows_append [OF m3 that] .
    note f = create_event_Inr [OF new.hyps(3)]
    have g: "join_message x w u (permitted w u ((ch, rm) # cs)) s ?G"
      using new.hyps(1) c(1) f(1,2,3) f(5) [OF join_content_plain]
      by (simp add: join_message_def permitted_Cons)
    have b: "join_message x w u (permitted w u ((ch, rm) # cs)) s ?U"
      by (simp add: join_message_def)
    have "join_message x w u (permitted w u ((ch, rm) # cs)) s msg"
      if "join_message x w u (permitted w u cs) ?s3 msg" for msg
      using that by (rule join_message_mono [rotated 2]) (auto simp: permitted_Cons rows)
    with all have "list_all (join_message x w u (permitted w u ((ch, rm) # cs)) s) ms"
      by (simp add: list_all_iff)
    with g b have "list_all (join_message x w u (permitted w u ((ch, rm) # cs)) s) ([?G, ?U] @ ms)"
      by simp
    moreover have "sent (snd r) = sent s @ ([?G, ?U] @ ms)" by (simp add: ms s3)
    ultimately show ?case by blast
  qed
  then show ?thesis by simp
qed

lemma assign_call_log:
  "events (snd (assign_call x w ch c s)) = events s"
  "pending (snd (assign_call x w ch c s)) = pending s"
  by (simp_all add: assign_call_def Let_def split: sum.splits)

lemma store_event_log:
  "pending (snd (snd (store_event x w ch i etype c sndr rep s))) = pending s
   \<and> ((\<exists>ev. fst (store_event x w ch i etype c sndr rep s) = Inr (Some ev)
             \<and> events (snd (snd (store_event x w ch i etype c sndr rep s)))
                 = events s @ [pe_event ev])
        \<or> (\<forall>ev. fst (store_event x w ch i etype c sndr rep s) \<noteq> Inr (Some ev))
           \<and> events (snd (snd (store_event x w ch i etype c sndr rep s))) = events s)"
proof -
  obtain r sa where a: "assign_call x w ch c s = (r, sa)" by (cases "assign_call x w ch c s")
  from assign_call_log [of x w ch c s] a
  have e: "events sa = events s" and p: "pending sa = pending s" by simp_all
  show ?thesis
  proof (cases r)
    case (Inl e')
    with a e p show ?thesis by (simp add: store_event_def)
  next
    case (Inr c')
    from chat_event_create_cases [of "new_event ch i etype c' sndr rep" sa]
    show ?thesis
      by (elim disjE conjE)
         (simp_all add: store_event_def a Inr e p serialize_public_def)
  qed
qed

lemma attempt_quiet:
  assumes "pending s = []"
  shows "pending (snd (snd (attempt x w ch etype c sndr rep s))) = []
   \<and> ((\<exists>ev. fst (attempt x w ch etype c sndr rep s) = Inr (Some ev)
             \<and> events (snd (snd (attempt x w ch etype c sndr rep s))) = events s @ [pe_event ev])
        \<or> (\<forall>ev. fst (attempt x w ch etype c sndr rep s) \<noteq> Inr (Some ev))
           \<and> events (snd (snd (attempt x w ch etype c sndr rep s))) = events s)"
  unfolding attempt_idle [OF assms]
  using store_event_log [of x w ch "(case event_counter s of None \<Rightarrow> 0 | Some v \<Rightarrow> v) + 1"
      etype c sndr rep
      "s\<lparr>event_counter :=
                 Some (if (case event_counter s of None \<Rightarrow> 0 | Some v \<Rightarrow> v) + 1 < 2
                       then get_highest_id s + 1
                       else (case event_counter s of None \<Rightarrow> 0 | Some v \<Rightarrow> v) + 1)\<rparr>"] assms
  by simp

text \<open>With no other worker at work, a call appends the event it returns and nothing else.\<close>

lemma create_event_quiet:
  assumes idle: "pending s = []"
    and r: "create_event x w ch etype c sndr rep retry s = (r, s')"
  shows "pending s' = []"
    and "r = Inr ev \<Longrightarrow> events s' = events s @ [pe_event ev]"
    and "r = Inl e \<Longrightarrow> events s' = events s"
proof -
  have last: "pending t' = [] \<and> (\<forall>ev. q = Inr ev \<longrightarrow> events t' = events t @ [pe_event ev])
              \<and> (\<forall>e. q = Inl e \<longrightarrow> events t' = events t)"
    if i: "pending t = []" and c: "create_event x w ch etype c0 sndr rep0 True t = (q, t')"
    for t c0 rep0 q t'
  proof -
    obtain r1 c1 t1 where a: "attempt x w ch etype c0 sndr rep0 t = (r1, c1, t1)"
      by (cases "attempt x w ch etype c0 sndr rep0 t")
    from attempt_quiet [OF i, of x w ch etype c0 sndr rep0] a
    have p: "pending t1 = []"
      and e: "(\<exists>ev. r1 = Inr (Some ev) \<and> events t1 = events t @ [pe_event ev])
              \<or> (\<forall>ev. r1 \<noteq> Inr (Some ev)) \<and> events t1 = events t" by simp_all
    from c a have "q = (case r1 of Inl e \<Rightarrow> Inl e | Inr (Some ev) \<Rightarrow> Inr ev
                         | Inr None \<Rightarrow> Inl (ValueError ''unable to recover in store_event''))
                   \<and> t' = t1"
      by (subst (asm) create_event_attempt) (auto split: sum.splits option.splits)
    with p e show ?thesis by (auto split: sum.splits option.splits)
  qed
  have "pending s' = [] \<and> (\<forall>ev. r = Inr ev \<longrightarrow> events s' = events s @ [pe_event ev])
              \<and> (\<forall>e. r = Inl e \<longrightarrow> events s' = events s)"
  proof (cases retry)
    case True
    with last [OF idle, of c rep r s'] r show ?thesis by simp
  next
    case False
    obtain r1 c1 s1 where a: "attempt x w ch etype c sndr rep s = (r1, c1, s1)"
      by (cases "attempt x w ch etype c sndr rep s")
    from attempt_quiet [OF idle, of x w ch etype c sndr rep] a
    have p: "pending s1 = []"
      and e: "(\<exists>ev. r1 = Inr (Some ev) \<and> events s1 = events s @ [pe_event ev])
              \<or> (\<forall>ev. r1 \<noteq> Inr (Some ev)) \<and> events s1 = events s" by simp_all
    show ?thesis
    proof (cases "r1 = Inr None")
      case True
      with e have e1: "events s1 = events s" by auto
      have h: "heal s1 = s1\<lparr>event_counter := Some (get_highest_id s1 + 1)\<rparr>"
        by (rule heal_idle [OF p])
      from r a True False
      have "create_event x w ch etype c1 sndr None True (heal s1) = (r, s')"
        by (subst (asm) create_event_attempt) simp
      from last [OF _ this] p h e1 show ?thesis by simp
    next
      case nn: False
      from r a False nn have "r = (case r1 of Inl e \<Rightarrow> Inl e | Inr (Some ev) \<Rightarrow> Inr ev
                         | Inr None \<Rightarrow> Inl DoesNotExist) \<and> s' = s1"
        by (subst (asm) create_event_attempt) (auto split: sum.splits option.splits)
      with p e show ?thesis by (auto split: sum.splits option.splits)
    qed
  qed
  then show "pending s' = []"
    and "r = Inr ev \<Longrightarrow> events s' = events s @ [pe_event ev]"
    and "r = Inl e \<Longrightarrow> events s' = events s"
    by simp_all
qed

lemma sent_by_loop:
  "sent (snd (enforce_loop x w u cs s)) = sent s @ sent_by s (snd (enforce_loop x w u cs s))"
  using enforce_loop_sends [of x w u cs s] by (auto simp: sent_by_def)

lemma enforce_loop_unread:
  "set (unread_notify s) \<subseteq> set (unread_notify (snd (enforce_loop x w u cs s)))"
proof (rule enforce_loop_rel
    [where R = "\<lambda>s s'. set (unread_notify s) \<subseteq> set (unread_notify s')"])
  show "set (unread_notify s) \<subseteq> set (unread_notify s)" for s by simp
  show "set (unread_notify s) \<subseteq> set (unread_notify s2)"
    if "set (unread_notify s) \<subseteq> set (unread_notify s1)"
      and "set (unread_notify s1) \<subseteq> set (unread_notify s2)" for s s1 s2
    using that by simp
  show "set (unread_notify s) \<subseteq> set (unread_notify (snd (add_channel_user cid u False s)))"
    for cid s by (simp add: add_channel_user_fields)
  show "set (unread_notify s)
        \<subseteq> set (unread_notify (snd (create_event x w ch ''channel.member'' (join_content x w u) u
                                None False s)))" for ch s
    by (subst create_event_fields) (rule subset_refl)
  show "set (unread_notify s) \<subseteq> set (unread_notify (unread_notify_add cid (uid u)
                 (broadcast_channel_list x w u ''dummysocket'' (group_send cid e s))))" for cid e s
    by (auto simp: outbox_fields)
qed

lemma events_kept_set: "events_kept s s' \<Longrightarrow> set (events s) \<subseteq> set (events s')"
  unfolding events_kept_def by (metis set_take_subset)

text \<open>
  A run of the loop that succeeds has announced every join it made: for a channel it was
  let to join and in which the user had no row, the join event is stored and was sent to
  the channel, the channel list was broadcast, and the user is marked for unread
  notification.
\<close>

lemma enforce_loop_announces:
  assumes "enforce_loop x w u cs s = (Inr (), s')"
    and "cid \<in> set (permitted w u cs)" and "member_rows cid (uid u) s = []"
  shows "(\<exists>ev. Group_send cid ev \<in> set (sent_by s s') \<and> pe_event ev \<in> set (events s'))
         \<and> (\<exists>entries. User_broadcast ''chat.channels'' entries (uid u) ''dummysocket''
                         \<in> set (sent_by s s'))
         \<and> (cid, uid u) \<in> set (unread_notify s')"
proof -
  have "fst r = Inr () \<longrightarrow> cid \<in> set (permitted w u cs) \<longrightarrow> member_rows cid (uid u) s = [] \<longrightarrow>
        (\<exists>ev. Group_send cid ev \<in> set (sent_by s (snd r)) \<and> pe_event ev \<in> set (events (snd r)))
         \<and> (\<exists>entries. User_broadcast ''chat.channels'' entries (uid u) ''dummysocket''
                         \<in> set (sent_by s (snd r)))
         \<and> (cid, uid u) \<in> set (unread_notify (snd r))"
    if "enforce_loop x w u cs s = r" for r
    using that
  proof (induction rule: enforce_loop_run)
    case (nil s)
    show ?case by (simp add: permitted_def)
  next
    case (skip ch rm cs s r)
    then show ?case by (simp add: permitted_Cons)
  next
    case (refused ch rm cs s e)
    show ?case by simp
  next
    case (found ch rm cs s s1 r)
    note f = add_channel_user_False [OF found.hyps(2)]
    from add_channel_user_fields(1) [of "channel_pk ch" u False s] found.hyps(2)
    have "sent s1 = sent s" by simp
    then have sb: "sent_by s1 (snd r) = sent_by s (snd r)" by (simp add: sent_by_def)
    show ?case
    proof (intro impI)
      assume ok: "fst r = Inr ()" and c: "cid \<in> set (permitted w u ((ch, rm) # cs))"
        and n: "member_rows cid (uid u) s = []"
      from n f(1) have "cid \<noteq> channel_pk ch" by auto
      with c found.hyps(1) have c': "cid \<in> set (permitted w u cs)" by (simp add: permitted_Cons)
      from n member_rows_keys [OF f(2)] have "member_rows cid (uid u) s1 = []" by simp
      with found.IH ok c' show "(\<exists>ev. Group_send cid ev \<in> set (sent_by s (snd r))
                 \<and> pe_event ev \<in> set (events (snd r)))
         \<and> (\<exists>entries. User_broadcast ''chat.channels'' entries (uid u) ''dummysocket''
                         \<in> set (sent_by s (snd r)))
         \<and> (cid, uid u) \<in> set (unread_notify (snd r))"
        by (simp add: sb)
    qed
  next
    case (failed ch rm cs s s1 e s2)
    show ?case by simp
  next
    case (new ch rm cs s s1 ev s2 r)
    let ?s3 = "unread_notify_add (channel_pk ch) (uid u)
                 (broadcast_channel_list x w u ''dummysocket'' (group_send (channel_pk ch) ev s2))"
    let ?G = "Group_send (channel_pk ch) ev"
    let ?U = "User_broadcast ''chat.channels''
                 (get_channels_for_user x w (uid u) (Some False) (Some False)
                    (group_send (channel_pk ch) ev s2)) (uid u) ''dummysocket''"
    note c = add_channel_user_created [OF new.hyps(2)]
    from add_channel_user_fields(1) [of "channel_pk ch" u False s] new.hyps(2)
      create_event_fields(1) [of x w ch "''channel.member''" "join_content x w u" u None False s1]
      new.hyps(3)
    have s2: "sent s2 = sent s" by simp
    have s3: "sent ?s3 = sent s @ [?G, ?U]" by (simp add: outbox_fields s2)
    from sent_by_loop [of x w u cs ?s3] new.hyps(4)
    have "sent (snd r) = sent ?s3 @ sent_by ?s3 (snd r)" by simp
    then have "sent (snd r) = sent s @ ([?G, ?U] @ sent_by ?s3 (snd r))" by (simp add: s3)
    then have sb: "sent_by s (snd r) = [?G, ?U] @ sent_by ?s3 (snd r)" by (rule sent_by_append)
    from create_event_fields(3) [of x w ch "''channel.member''" "join_content x w u" u None False s1]
      new.hyps(3)
    have m3: "memberships ?s3 = memberships s
                @ [\<lparr>m_channel = channel_pk ch, m_user = uid u, volatile = False, hidden = False\<rparr>]"
      by (simp add: outbox_tables c(2))
    from create_event_Inr(4) [OF new.hyps(3)] have "pe_event ev \<in> set (events ?s3)"
      by (simp add: outbox_events)
    with events_kept_set [OF enforce_loop_kept [of ?s3 x w u cs]] new.hyps(4)
    have e: "pe_event ev \<in> set (events (snd r))" by auto
    have "(channel_pk ch, uid u) \<in> set (unread_notify ?s3)" by (simp add: outbox_fields)
    with enforce_loop_unread [of ?s3 x w u cs] new.hyps(4)
    have n3: "(channel_pk ch, uid u) \<in> set (unread_notify (snd r))" by auto
    show ?case
    proof (intro impI)
      assume ok: "fst r = Inr ()" and cin: "cid \<in> set (permitted w u ((ch, rm) # cs))"
        and n: "member_rows cid (uid u) s = []"
      show "(\<exists>ev. Group_send cid ev \<in> set (sent_by s (snd r))
                 \<and> pe_event ev \<in> set (events (snd r)))
         \<and> (\<exists>entries. User_broadcast ''chat.channels'' entries (uid u) ''dummysocket''
                         \<in> set (sent_by s (snd r)))
         \<and> (cid, uid u) \<in> set (unread_notify (snd r))"
      proof (cases "cid = channel_pk ch")
        case True
        have "?G \<in> set (sent_by s (snd r))" and "?U \<in> set (sent_by s (snd r))"
          by (simp_all add: sb)
        with e n3 True show ?thesis by blast
      next
        case False
        with cin new.hyps(1) have c': "cid \<in> set (permitted w u cs)"
          by (simp add: permitted_Cons)
        from n False have "member_rows cid (uid u) ?s3 = []" by (simp add: member_rows_def m3)
        with new.IH ok c'
        have "(\<exists>ev. Group_send cid ev \<in> set (sent_by ?s3 (snd r))
                 \<and> pe_event ev \<in> set (events (snd r)))
         \<and> (\<exists>entries. User_broadcast ''chat.channels'' entries (uid u) ''dummysocket''
                         \<in> set (sent_by ?s3 (snd r)))
         \<and> (cid, uid u) \<in> set (unread_notify (snd r))" by simp
        then show ?thesis unfolding sb by auto
      qed
    qed
  qed
  from this [OF assms(1)] assms(2,3) show ?thesis by simp
qed

text \<open>
  With no other worker at work, the events a run of the loop appends are the events it
  has sent to channels, in the order of the sends.
\<close>

lemma enforce_loop_quiet:
  assumes "pending s = []"
  shows "pending (snd (enforce_loop x w u cs s)) = []
         \<and> events (snd (enforce_loop x w u cs s))
             = events s @ sent_events (sent_by s (snd (enforce_loop x w u cs s)))"
proof -
  have "pending s = [] \<longrightarrow>
        pending (snd r) = [] \<and> events (snd r) = events s @ sent_events (sent_by s (snd r))"
    if "enforce_loop x w u cs s = r" for r
    using that
  proof (induction rule: enforce_loop_run)
    case (nil s)
    show ?case by (simp add: sent_by_def)
  next
    case (skip ch rm cs s r)
    then show ?case by simp
  next
    case (refused ch rm cs s e)
    show ?case by (simp add: sent_by_def)
  next
    case (found ch rm cs s s1 r)
    from add_channel_user_fields(1,2) [of "channel_pk ch" u False s]
      add_channel_user_events [of "channel_pk ch" u False s] found.hyps(2)
    have "sent s1 = sent s" "pending s1 = pending s" "events s1 = events s" by simp_all
    with found.IH show ?case by (simp add: sent_by_def)
  next
    case (failed ch rm cs s s1 e s2)
    from add_channel_user_fields(1,2) [of "channel_pk ch" u False s]
      add_channel_user_events [of "channel_pk ch" u False s] failed.hyps(2)
    have s1: "sent s1 = sent s" "pending s1 = pending s" "events s1 = events s" by simp_all
    from create_event_fields(1) [of x w ch "''channel.member''" "join_content x w u" u None False s1]
      failed.hyps(3) s1(1)
    have s2: "sent s2 = sent s" by simp
    show ?case
    proof
      assume "pending s = []"
      with s1(2) have i: "pending s1 = []" by simp
      from create_event_quiet(1,3) [OF i failed.hyps(3)] s1(3) s2
      show "pending (snd (Inl e, s2)) = []
            \<and> events (snd (Inl e, s2)) = events s @ sent_events (sent_by s (snd (Inl e, s2)))"
        by (simp add: sent_by_def)
    qed
  next
    case (new ch rm cs s s1 ev s2 r)
    let ?s3 = "unread_notify_add (channel_pk ch) (uid u)
                 (broadcast_channel_list x w u ''dummysocket'' (group_send (channel_pk ch) ev s2))"
    let ?G = "Group_send (channel_pk ch) ev"
    let ?U = "User_broadcast ''chat.channels''
                 (get_channels_for_user x w (uid u) (Some False) (Some False)
                    (group_send (channel_pk ch) ev s2)) (uid u) ''dummysocket''"
    from add_channel_user_fields(1,2) [of "channel_pk ch" u False s]
      add_channel_user_events [of "channel_pk ch" u False s] new.hyps(2)
    have s1: "sent s1 = sent s" "pending s1 = pending s" "events s1 = events s" by simp_all
    from create_event_fields(1) [of x w ch "''channel.member''" "join_content x w u" u None False s1]
      new.hyps(3) s1(1)
    have s2: "sent s2 = sent s" by simp
    have s3: "sent ?s3 = sent s @ [?G, ?U]" by (simp add: outbox_fields s2)
    from sent_by_loop [of x w u cs ?s3] new.hyps(4)
    have "sent (snd r) = sent ?s3 @ sent_by ?s3 (snd r)" by simp
    then have "sent (snd r) = sent s @ ([?G, ?U] @ sent_by ?s3 (snd r))" by (simp add: s3)
    then have sb: "sent_by s (snd r) = [?G, ?U] @ sent_by ?s3 (snd r)" by (rule sent_by_append)
    show ?case
    proof
      assume "pending s = []"
      with s1(2) have i: "pending s1 = []" by simp
      from create_event_quiet(1) [OF i new.hyps(3)] create_event_quiet(2) [OF i new.hyps(3) refl]
        s1(3)
      have p2: "pending s2 = []" and e2: "events s2 = events s @ [pe_event ev]" by simp_all
      from p2 have "pending ?s3 = []" by (simp add: outbox_fields)
      with new.IH have "pending (snd r) = []"
        and "events (snd r) = events ?s3 @ sent_events (sent_by ?s3 (snd r))" by simp_all
      then show "pending (snd r) = []
                 \<and> events (snd r) = events s @ sent_events (sent_by s (snd r))"
        by (simp add: sb outbox_events e2)
    qed
  qed
  with assms show ?thesis by simp
qed

section \<open>Facts about the enforcer of forced joins\<close>

lemma enforce_forced_joins_loop:
  "truthy (map_of (profile u) ''display_name'') \<Longrightarrow>
   enforce_forced_joins x w u s = enforce_loop x w u (get_channels_to_join_forced w u s) s"
  by (simp add: enforce_forced_joins_def Let_def)

lemma permitted_mem:
  "(c, rm) \<in> set cs \<Longrightarrow> has_permission w u ROOM_CHAT_JOIN (Some rm) \<Longrightarrow>
   channel_pk c \<in> set (permitted w u cs)"
  by (force simp: permitted_def)

lemma enforce_forced_joins_sends:
  "sent (snd (enforce_forced_joins x w u s))
     = sent s @ sent_by s (snd (enforce_forced_joins x w u s))
   \<and> list_all (join_message x w u (permitted w u (get_channels_to_join_forced w u s)) s)
       (sent_by s (snd (enforce_forced_joins x w u s)))"
proof (cases "truthy (map_of (profile u) ''display_name'')")
  case False
  then show ?thesis by (simp add: enforce_forced_joins_def sent_by_def)
next
  case True
  from enforce_loop_sends [of x w u "get_channels_to_join_forced w u s" s]
  obtain ms where ms: "sent (snd (enforce_loop x w u (get_channels_to_join_forced w u s) s))
                       = sent s @ ms"
    and all: "list_all (join_message x w u (permitted w u (get_channels_to_join_forced w u s)) s) ms"
    by blast
  from sent_by_append [OF ms] ms all show ?thesis
    by (simp add: enforce_forced_joins_loop [OF True])
qed

lemma enforce_forced_joins_only_new:
  assumes "member_rows cid (uid u) s \<noteq> []"
  shows "Group_send cid ev \<notin> set (sent_by s (snd (enforce_forced_joins x w u s)))"
proof
  assume "Group_send cid ev \<in> set (sent_by s (snd (enforce_forced_joins x w u s)))"
  with enforce_forced_joins_sends [of x w u s]
  have "join_message x w u (permitted w u (get_channels_to_join_forced w u s)) s (Group_send cid ev)"
    by (simp add: list_all_iff)
  with assms show False by (simp add: join_message_def)
qed

lemma enforce_forced_joins_quiet:
  assumes "pending s = []"
  shows "events (snd (enforce_forced_joins x w u s))
         = events s @ sent_events (sent_by s (snd (enforce_forced_joins x w u s)))"
proof (cases "truthy (map_of (profile u) ''display_name'')")
  case False
  then show ?thesis by (simp add: enforce_forced_joins_def sent_by_def)
next
  case True
  from enforce_loop_quiet [OF assms, of x w u "get_channels_to_join_forced w u s"]
  show ?thesis by (simp add: enforce_forced_joins_loop [OF True])
qed

lemma enforce_forced_joins_announces:
  assumes r: "enforce_forced_joins x w u s = (Inr (), s1)"
    and n: "truthy (map_of (profile u) ''display_name'')"
    and c: "(c, rm) \<in> set (get_channels_to_join_forced w u s)"
    and p: "has_permission w u ROOM_CHAT_JOIN (Some rm)"
  shows "joined u (channel_pk c) s1"
    and "member_rows (channel_pk c) (uid u) s = [] \<Longrightarrow>
         (\<exists>ev. Group_send (channel_pk c) ev \<in> set (sent_by s s1) \<and> pe_event ev \<in> set (events s1))
         \<and> (\<exists>entries. User_broadcast ''chat.channels'' entries (uid u) ''dummysocket''
                         \<in> set (sent_by s s1))
         \<and> (channel_pk c, uid u) \<in> set (unread_notify s1)"
proof -
  from r have l: "enforce_loop x w u (get_channels_to_join_forced w u s) s = (Inr (), s1)"
    by (simp add: enforce_forced_joins_loop [OF n])
  from enforce_loop_joins [OF l] c p show "joined u (channel_pk c) s1" by blast
  show "(\<exists>ev. Group_send (channel_pk c) ev \<in> set (sent_by s s1) \<and> pe_event ev \<in> set (events s1))
         \<and> (\<exists>entries. User_broadcast ''chat.channels'' entries (uid u) ''dummysocket''
                         \<in> set (sent_by s s1))
         \<and> (channel_pk c, uid u) \<in> set (unread_notify s1)"
    if "member_rows (channel_pk c) (uid u) s = []"
    by (rule enforce_loop_announces [OF l permitted_mem [OF c p] that])
qed

section \<open>Event ordering: allocation, self-healing and the single retry\<close>

text \<open>
  Claim C1, as the code has it. Let no other worker interfere and let the counter have
  been reset to 0 (or lost), so that the candidate drawn is 1, below 2. Then
  \<^verbatim>\<open>create_event\<close> sets the counter to the highest id of the durable log plus one and
  makes its insert at the candidate 1 in that state; it draws no new candidate, and goes
  on from the outcome of that insert as it does from any insert. When the log holds the
  id 1 and the content can take a call backend, that insert is refused, with the counter
  at \<open>N + 1\<close>, where \<open>N\<close> is the highest id of the log: a call that is itself the retry
  ends there with its error. When moreover the channel and the sender are stored and
  \<open>N + 2\<close> is within the range of the counter store, whose integers are signed and 64 bits
  wide, the single retry of a first call stores and returns the event with the id
  \<open>N + 2\<close>: an id above \<open>N\<close> that no stored event has. The counter is left at \<open>N + 2\<close>.
\<close>

theorem create_event_self_heal:
  assumes idle: "pending s = []"
    and reset: "event_counter s = None \<or> event_counter s = Some 0"
  shows "create_event x w ch etype c sndr rep retry s =
           (case store_event x w ch 1 etype c sndr rep
                   (s\<lparr>event_counter := Some (get_highest_id s + 1)\<rparr>) of
              (Inl e, c', s3) \<Rightarrow> (Inl e, s3)
            | (Inr (Some event), c', s3) \<Rightarrow> (Inr event, s3)
            | (Inr None, c', s3) \<Rightarrow>
                if \<not> retry then create_event x w ch etype c' sndr None True (heal s3)
                else (Inl (ValueError ''unable to recover in store_event''), s3))
         \<and> (1 \<in> ev_id ` set (events s) \<and> call_ready c \<longrightarrow>
              (\<exists>s1. create_event x w ch etype c sndr rep True s
                       = (Inl (ValueError ''unable to recover in store_event''), s1)
                    \<and> event_counter s1 = Some (get_highest_id s + 1)
                    \<and> events s1 = events s))
         \<and> (1 \<in> ev_id ` set (events s) \<and> call_ready c
              \<and> channel_pk ch \<in> channel_pk ` set (channels s)
              \<and> uid sndr \<in> uid ` set (users s)
              \<and> get_highest_id s + 2 < 2 ^ 63 \<longrightarrow>
              (\<exists>ev s'. create_event x w ch etype c sndr rep False s = (Inr ev, s')
                 \<and> ev_id (pe_event ev) = get_highest_id s + 2
                 \<and> get_highest_id s < ev_id (pe_event ev)
                 \<and> ev_id (pe_event ev) \<notin> ev_id ` set (events s)
                 \<and> events s' = events s @ [pe_event ev]
                 \<and> event_counter s' = Some (get_highest_id s + 2)))"
proof -
  let ?N = "get_highest_id s"
  let ?sa = "s\<lparr>event_counter := Some (?N + 1)\<rparr>"
  from reset have cand: "(case event_counter s of None \<Rightarrow> 0 | Some v \<Rightarrow> v) + 1 = 1" by auto
  have first: "attempt x w ch etype c sndr rep s = store_event x w ch 1 etype c sndr rep ?sa"
    by (simp add: attempt_idle [OF idle] cand)
  have branch: "create_event x w ch etype c sndr rep retry s =
           (case store_event x w ch 1 etype c sndr rep ?sa of
              (Inl e, c', s3) \<Rightarrow> (Inl e, s3)
            | (Inr (Some event), c', s3) \<Rightarrow> (Inr event, s3)
            | (Inr None, c', s3) \<Rightarrow>
                if \<not> retry then create_event x w ch etype c' sndr None True (heal s3)
                else (Inl (ValueError ''unable to recover in store_event''), s3))"
    by (subst create_event_attempt) (simp only: first)
  have refused: "\<exists>s1. create_event x w ch etype c sndr rep True s
                       = (Inl (ValueError ''unable to recover in store_event''), s1)
                    \<and> event_counter s1 = Some (?N + 1) \<and> events s1 = events s"
    if taken: "1 \<in> ev_id ` set (events s)" and ready: "call_ready c"
  proof -
    from taken have "1 \<in> ev_id ` set (events ?sa)" by simp
    from store_event_taken [OF ready this] obtain c1 s1 where
      st1: "store_event x w ch 1 etype c sndr rep ?sa = (Inr None, c1, s1)"
      and f1: "call_frame ?sa s1"
      by blast
    note fs1 = call_frame_fields [OF f1]
    have "create_event x w ch etype c sndr rep True s
          = (Inl (ValueError ''unable to recover in store_event''), s1)"
      by (subst create_event_attempt) (simp add: first st1)
    with fs1(1,3) show ?thesis by simp
  qed
  have healed: "\<exists>ev s'. create_event x w ch etype c sndr rep False s = (Inr ev, s')
           \<and> ev_id (pe_event ev) = ?N + 2
           \<and> ?N < ev_id (pe_event ev)
           \<and> ev_id (pe_event ev) \<notin> ev_id ` set (events s)
           \<and> events s' = events s @ [pe_event ev]
           \<and> event_counter s' = Some (?N + 2)"
    if taken: "1 \<in> ev_id ` set (events s)" and ready: "call_ready c"
      and ch: "channel_pk ch \<in> channel_pk ` set (channels s)"
      and sndr: "uid sndr \<in> uid ` set (users s)"
  proof -
    from taken have N1: "1 \<le> ?N" by (rule get_highest_id_ge)
    from taken have "1 \<in> ev_id ` set (events ?sa)" by simp
    from store_event_taken [OF ready this] obtain c1 s1 where
      st1: "store_event x w ch 1 etype c sndr rep ?sa = (Inr None, c1, s1)"
      and r1: "call_ready c1" and f1: "call_frame ?sa s1"
      by blast
    note fs1 = call_frame_fields [OF f1]
    have idle1: "pending s1 = []" using fs1(2) idle by simp
    have ev1: "events s1 = events s" using fs1(1) by simp
    have N': "get_highest_id s1 = ?N" by (simp add: get_highest_id_def ev1)
    let ?sh = "s1\<lparr>event_counter := Some (?N + 1)\<rparr>"
    have heal: "heal s1 = ?sh" by (simp add: heal_idle [OF idle1] N')
    have step1: "create_event x w ch etype c sndr rep False s
                 = create_event x w ch etype c1 sndr None True ?sh"
      by (subst create_event_attempt) (simp add: first st1 heal)
    let ?sb = "?sh\<lparr>event_counter := Some (?N + 2)\<rparr>"
    have idle2: "pending ?sh = []" using idle1 by simp
    have second: "attempt x w ch etype c1 sndr None ?sh
                  = store_event x w ch (?N + 2) etype c1 sndr None ?sb"
      using N1 attempt_idle [OF idle2, of x w ch etype c1 sndr None] by (simp add: add.commute)
    have fresh: "?N + 2 \<notin> ev_id ` set (events ?sb)"
    proof
      assume "?N + 2 \<in> ev_id ` set (events ?sb)"
      then have "?N + 2 \<in> ev_id ` set (events s)" by (simp add: ev1)
      from get_highest_id_ge [OF this] show False by simp
    qed
    have ch': "channel_pk ch \<in> channel_pk ` set (channels ?sb)" using ch fs1(5) by simp
    have sndr': "uid sndr \<in> uid ` set (users ?sb)" using sndr fs1(4) by simp
    have rep': "case None :: int option of None \<Rightarrow> True | Some r \<Rightarrow> r \<in> ev_id ` set (events ?sb)"
      by simp
    from store_event_fresh [OF r1 fresh ch' sndr' rep'] obtain c2 s2 where
      st2: "store_event x w ch (?N + 2) etype c1 sndr None ?sb =
             (Inr (Some (serialize_public (new_event ch (?N + 2) etype c2 sndr None)
                     (s2\<lparr>events := events ?sb @ [new_event ch (?N + 2) etype c2 sndr None]\<rparr>))),
              c2, s2\<lparr>events := events ?sb @ [new_event ch (?N + 2) etype c2 sndr None]\<rparr>)"
      and f2: "call_frame ?sb s2"
      by blast
    note fs2 = call_frame_fields [OF f2]
    let ?ev = "serialize_public (new_event ch (?N + 2) etype c2 sndr None)
                     (s2\<lparr>events := events ?sb @ [new_event ch (?N + 2) etype c2 sndr None]\<rparr>)"
    let ?s' = "s2\<lparr>events := events ?sb @ [new_event ch (?N + 2) etype c2 sndr None]\<rparr>"
    have a2: "attempt x w ch etype c1 sndr None ?sh = (Inr (Some ?ev), c2, ?s')"
      unfolding second by (rule st2)
    have step2: "create_event x w ch etype c1 sndr None True ?sh = (Inr ?ev, ?s')"
      by (subst create_event_attempt) (simp only: a2 prod.case sum.case option.case)
    have id: "ev_id (pe_event ?ev) = ?N + 2" by (simp add: serialize_public_def new_event_def)
    have "create_event x w ch etype c sndr rep False s = (Inr ?ev, ?s')"
      using step1 step2 by simp
    moreover have "?N < ev_id (pe_event ?ev)" using id by simp
    moreover have "ev_id (pe_event ?ev) \<notin> ev_id ` set (events s)" using fresh id by (simp add: ev1)
    moreover have "events ?s' = events s @ [pe_event ?ev]" by (simp add: ev1 serialize_public_def)
    moreover have "event_counter ?s' = Some (?N + 2)" using fs2(3) by simp
    ultimately show ?thesis using id by blast
  qed
  from refused have c2: "1 \<in> ev_id ` set (events s) \<and> call_ready c \<longrightarrow>
              (\<exists>s1. create_event x w ch etype c sndr rep True s
                       = (Inl (ValueError ''unable to recover in store_event''), s1)
                    \<and> event_counter s1 = Some (?N + 1)
                    \<and> events s1 = events s)"
    by blast
  from healed have c3: "1 \<in> ev_id ` set (events s) \<and> call_ready c
              \<and> channel_pk ch \<in> channel_pk ` set (channels s)
              \<and> uid sndr \<in> uid ` set (users s)
              \<and> ?N + 2 < 2 ^ 63 \<longrightarrow>
              (\<exists>ev s'. create_event x w ch etype c sndr rep False s = (Inr ev, s')
                 \<and> ev_id (pe_event ev) = ?N + 2
                 \<and> ?N < ev_id (pe_event ev)
                 \<and> ev_id (pe_event ev) \<notin> ev_id ` set (events s)
                 \<and> events s' = events s @ [pe_event ev]
                 \<and> event_counter s' = Some (?N + 2))"
    by blast
  show ?thesis by (intro conjI branch c2 c3)
qed

text \<open>
  A run of it: the log holds the ids 1, 2 and 3. The insert at the id 1 is refused with
  the counter at 4, and the new event of a first call gets the id 5.
\<close>

theorem create_event_self_heal_witness:
  "pending (ex_log [1, 2, 3] (Some 0)) = []
   \<and> event_counter (ex_log [1, 2, 3] (Some 0)) = Some 0
   \<and> 1 \<in> ev_id ` set (events (ex_log [1, 2, 3] (Some 0)))
   \<and> call_ready []
   \<and> get_highest_id (ex_log [1, 2, 3] (Some 0)) = 3
   \<and> store_event ex_ext ex_world ex_channel 1 ''channel.message'' [] (ex_user ''a'') None
        (ex_log [1, 2, 3] (Some 4))
      = (Inr None, [], ex_log [1, 2, 3] (Some 4))
   \<and> create_event ex_ext ex_world ex_channel ''channel.message'' [] (ex_user ''a'') None True
        (ex_log [1, 2, 3] (Some 0))
      = (Inl (ValueError ''unable to recover in store_event''), ex_log [1, 2, 3] (Some 4))
   \<and> (\<exists>ev s'. create_event ex_ext ex_world ex_channel ''channel.message'' [] (ex_user ''a'')
                  None False (ex_log [1, 2, 3] (Some 0)) = (Inr ev, s')
               \<and> ev_id (pe_event ev) = 5 \<and> event_counter s' = Some 5)"
proof -
  let ?s = "ex_log [1, 2, 3] (Some 0)"
  have h1: "pending ?s = []" by (simp add: ex_defs)
  have h2: "event_counter ?s = None \<or> event_counter ?s = Some 0" by (simp add: ex_defs)
  have h3: "1 \<in> ev_id ` set (events ?s)" by (simp add: ex_defs)
  have h4: "call_ready []" by (simp add: call_ready_def)
  have h5: "channel_pk ex_channel \<in> channel_pk ` set (channels ?s)" by (simp add: ex_defs)
  have h6: "uid (ex_user ''a'') \<in> uid ` set (users ?s)" by (simp add: ex_defs)
  have n: "get_highest_id ?s = 3" by (simp add: ex_defs get_highest_id_def)
  have h7: "get_highest_id ?s + 2 < 2 ^ 63" by (simp add: n)
  have sa: "?s\<lparr>event_counter := Some (get_highest_id ?s + 1)\<rparr> = ex_log [1, 2, 3] (Some 4)"
    by (simp add: n) (simp add: ex_defs)
  have st: "store_event ex_ext ex_world ex_channel 1 ''channel.message'' [] (ex_user ''a'') None
        (ex_log [1, 2, 3] (Some 4)) = (Inr None, [], ex_log [1, 2, 3] (Some 4))"
    by (simp add: ex_defs run_defs)
  note t = create_event_self_heal [OF h1 h2, of ex_ext ex_world ex_channel "''channel.message''"
      "[]" "ex_user ''a''" None]
  from t [of True, THEN conjunct1]
  have r1: "create_event ex_ext ex_world ex_channel ''channel.message'' [] (ex_user ''a'') None True ?s
            = (Inl (ValueError ''unable to recover in store_event''), ex_log [1, 2, 3] (Some 4))"
    by (simp only: sa st prod.case sum.case option.case not_True_eq_False if_False not_not if_True)
  from t [of False, THEN conjunct2, THEN conjunct1] h3 h4
  obtain s1 where "create_event ex_ext ex_world ex_channel ''channel.message'' [] (ex_user ''a'')
                     None True ?s = (Inl (ValueError ''unable to recover in store_event''), s1)"
    and "event_counter s1 = Some (get_highest_id ?s + 1)" by blast
  from t [of False, THEN conjunct2, THEN conjunct2] h3 h4 h5 h6 h7
  have "\<exists>ev s'. create_event ex_ext ex_world ex_channel ''channel.message'' [] (ex_user ''a'')
                  None False ?s = (Inr ev, s')
               \<and> ev_id (pe_event ev) = 5 \<and> event_counter s' = Some 5"
    unfolding n by auto
  with h1 h3 h4 n st r1 show ?thesis by (simp add: ex_defs)
qed

text \<open>
  The claim as it is stated fails on the code. With the counter reset to 0 and a log whose
  only event has the id 5, the new event is stored with the id 1, below the highest id of
  the log, and the counter is left at 6. With the log holding the ids 1, 2 and 3, the
  branch for a low candidate sets the counter to 4, not to 3, and draws no new candidate:
  the insert is tried at the id 1 and refused.
\<close>

theorem create_event_self_heal_counterexample:
  "event_counter (ex_log [5] (Some 0)) = Some 0
   \<and> pending (ex_log [5] (Some 0)) = []
   \<and> get_highest_id (ex_log [5] (Some 0)) = 5
   \<and> create_event ex_ext ex_world ex_channel ''channel.message'' [] (ex_user ''a'') None False
        (ex_log [5] (Some 0))
      = (Inr \<lparr>pe_event = ex_event 1, pe_reactions = []\<rparr>, ex_log [5, 1] (Some 6))
   \<and> \<not> get_highest_id (ex_log [5] (Some 0)) < ev_id (ex_event 1)
   \<and> get_highest_id (ex_log [1, 2, 3] (Some 0)) = 3
   \<and> attempt ex_ext ex_world ex_channel ''channel.message'' [] (ex_user ''a'') None
        (ex_log [1, 2, 3] (Some 0))
      = (Inr None, [], ex_log [1, 2, 3] (Some 4))"
  by (simp add: create_event.simps ex_defs run_defs)

text \<open>
  Claim C2. When the insert at the candidate id is refused because a stored event has that
  id, \<^verbatim>\<open>create_event\<close> sets the counter to the highest id of the durable log plus one and
  runs once more, as a retry. A retry whose insert is refused as well does nothing further:
  it raises ``unable to recover in store_event''. So a call whose two inserts are both
  refused ends with that error, in the state the second insert left.
\<close>

theorem create_event_single_retry:
  assumes "attempt x w ch etype c sndr rep s = (Inr None, c1, s1)"
  shows "fst (redis_incr (await s)) \<in> ev_id ` set (events s1)
         \<and> create_event x w ch etype c sndr rep False s
             = create_event x w ch etype c1 sndr None True (heal s1)
         \<and> event_counter (heal s1) = Some (get_highest_id (await s1) + 1)
         \<and> create_event x w ch etype c sndr rep True s
             = (Inl (ValueError ''unable to recover in store_event''), s1)
         \<and> (attempt x w ch etype c1 sndr None (heal s1) = (Inr None, c2, s2) \<longrightarrow>
              create_event x w ch etype c sndr rep False s
                = (Inl (ValueError ''unable to recover in store_event''), s2))"
proof -
  have first: "create_event x w ch etype c sndr rep False s
               = create_event x w ch etype c1 sndr None True (heal s1)"
    by (subst create_event_attempt) (simp add: assms)
  have last: "create_event x w ch etype c sndr rep True s
              = (Inl (ValueError ''unable to recover in store_event''), s1)"
    by (subst create_event_attempt) (simp add: assms)
  have both: "create_event x w ch etype c1 sndr None True (heal s1)
              = (Inl (ValueError ''unable to recover in store_event''), s2)"
    if "attempt x w ch etype c1 sndr None (heal s1) = (Inr None, c2, s2)"
    by (subst create_event_attempt) (simp add: that)
  have "event_counter (heal s1) = Some (get_highest_id (await s1) + 1)"
    by (simp add: heal_def redis_set_def Let_def)
  with attempt_None [OF assms] first last both show ?thesis by simp
qed

text \<open>
  A run of it: another worker sets the counter back to 1 while this one is between its two
  attempts, so that the retry draws the id 2, which is taken as well.
\<close>

theorem create_event_single_retry_witness:
  "attempt ex_ext ex_world ex_channel ''channel.message'' [] (ex_user ''a'') None
     ((ex_log [1, 2, 3] (Some 0))
        \<lparr>pending := [Env_idle, Env_idle, Env_idle, Env_idle, Env_idle, Env_idle, Env_redis_set 1]\<rparr>)
     = (Inr None, [],
        (ex_log [1, 2, 3] (Some 4))\<lparr>pending := [Env_idle, Env_idle, Env_redis_set 1]\<rparr>)
   \<and> attempt ex_ext ex_world ex_channel ''channel.message'' [] (ex_user ''a'') None
       (heal ((ex_log [1, 2, 3] (Some 4))\<lparr>pending := [Env_idle, Env_idle, Env_redis_set 1]\<rparr>))
     = (Inr None, [], ex_log [1, 2, 3] (Some 2))
   \<and> create_event ex_ext ex_world ex_channel ''channel.message'' [] (ex_user ''a'') None False
       ((ex_log [1, 2, 3] (Some 0))
          \<lparr>pending := [Env_idle, Env_idle, Env_idle, Env_idle, Env_idle, Env_idle, Env_redis_set 1]\<rparr>)
     = (Inl (ValueError ''unable to recover in store_event''), ex_log [1, 2, 3] (Some 2))"
proof -
  have a1: "attempt ex_ext ex_world ex_channel ''channel.message'' [] (ex_user ''a'') None
     ((ex_log [1, 2, 3] (Some 0))
        \<lparr>pending := [Env_idle, Env_idle, Env_idle, Env_idle, Env_idle, Env_idle, Env_redis_set 1]\<rparr>)
     = (Inr None, [],
        (ex_log [1, 2, 3] (Some 4))\<lparr>pending := [Env_idle, Env_idle, Env_redis_set 1]\<rparr>)"
    by (simp add: ex_defs run_defs)
  have a2: "attempt ex_ext ex_world ex_channel ''channel.message'' [] (ex_user ''a'') None
       (heal ((ex_log [1, 2, 3] (Some 4))\<lparr>pending := [Env_idle, Env_idle, Env_redis_set 1]\<rparr>))
     = (Inr None, [], ex_log [1, 2, 3] (Some 2))"
    by (simp add: ex_defs run_defs)
  from create_event_single_retry [OF a1, where ?c2.0 = "[]" and ?s2.0 = "ex_log [1, 2, 3] (Some 2)"] a2
  have "create_event ex_ext ex_world ex_channel ''channel.message'' [] (ex_user ''a'') None False
       ((ex_log [1, 2, 3] (Some 0))
          \<lparr>pending := [Env_idle, Env_idle, Env_idle, Env_idle, Env_idle, Env_idle, Env_redis_set 1]\<rparr>)
     = (Inl (ValueError ''unable to recover in store_event''), ex_log [1, 2, 3] (Some 2))"
    by blast
  with a1 a2 show ?thesis by blast
qed

text \<open>
  Claim C10. The retry of \<^verbatim>\<open>create_event\<close> is called without the \<^verbatim>\<open>replaces\<close> argument.
  An event that the first attempt stores carries the reference the caller gave; an event
  that is stored by the retry, after the first insert was refused, carries none.
\<close>

theorem create_event_retry_drops_replaces:
  "(attempt x w ch etype c sndr rep s = (Inr (Some ev), c1, s1) \<longrightarrow>
      create_event x w ch etype c sndr rep retry s = (Inr ev, s1)
      \<and> replaces (pe_event ev) = rep \<and> pe_event ev \<in> set (events s1))
   \<and> (attempt x w ch etype c sndr rep s = (Inr None, c1, s1)
        \<and> create_event x w ch etype c sndr rep False s = (Inr ev', s') \<longrightarrow>
      replaces (pe_event ev') = None \<and> pe_event ev' \<in> set (events s'))"
proof (intro conjI impI)
  assume a: "attempt x w ch etype c sndr rep s = (Inr (Some ev), c1, s1)"
  show "create_event x w ch etype c sndr rep retry s = (Inr ev, s1)"
    by (subst create_event_attempt) (simp add: a)
  from attempt_Some [OF a]
  show "replaces (pe_event ev) = rep" and "pe_event ev \<in> set (events s1)" by simp_all
next
  assume "attempt x w ch etype c sndr rep s = (Inr None, c1, s1)
          \<and> create_event x w ch etype c sndr rep False s = (Inr ev', s')"
  then have a: "attempt x w ch etype c sndr rep s = (Inr None, c1, s1)"
    and r: "create_event x w ch etype c sndr rep False s = (Inr ev', s')" by simp_all
  have "create_event x w ch etype c sndr rep False s
        = create_event x w ch etype c1 sndr None True (heal s1)"
    by (subst create_event_attempt) (simp add: a)
  with r have r': "create_event x w ch etype c1 sndr None True (heal s1) = (Inr ev', s')" by simp
  obtain r2 c2 s2 where a2: "attempt x w ch etype c1 sndr None (heal s1) = (r2, c2, s2)"
    by (cases "attempt x w ch etype c1 sndr None (heal s1)")
  have "r2 = Inr (Some ev') \<and> s2 = s'"
    using r' by (subst (asm) create_event_attempt) (auto simp: a2 split: sum.splits option.splits)
  with a2 have "attempt x w ch etype c1 sndr None (heal s1) = (Inr (Some ev'), c2, s')" by simp
  from attempt_Some [OF this]
  show "replaces (pe_event ev') = None" and "pe_event ev' \<in> set (events s')" by simp_all
qed

text \<open>
  Two runs that ask to replace the event 2: with the counter at 3 the event is stored at
  once, with the reference; with the counter reset it is stored by the retry, without it.
\<close>

theorem create_event_retry_drops_replaces_witness:
  "attempt ex_ext ex_world ex_channel ''channel.message'' [] (ex_user ''a'') (Some 2)
      (ex_log [1, 2, 3] (Some 3))
     = (Inr (Some \<lparr>pe_event = (ex_event 4)\<lparr>replaces := Some 2\<rparr>, pe_reactions = []\<rparr>), [],
        (ex_log [1, 2, 3] (Some 4))
          \<lparr>events := map ex_event [1, 2, 3] @ [(ex_event 4)\<lparr>replaces := Some 2\<rparr>]\<rparr>)
   \<and> create_event ex_ext ex_world ex_channel ''channel.message'' [] (ex_user ''a'') (Some 2) False
      (ex_log [1, 2, 3] (Some 3))
     = (Inr \<lparr>pe_event = (ex_event 4)\<lparr>replaces := Some 2\<rparr>, pe_reactions = []\<rparr>,
        (ex_log [1, 2, 3] (Some 4))
          \<lparr>events := map ex_event [1, 2, 3] @ [(ex_event 4)\<lparr>replaces := Some 2\<rparr>]\<rparr>)
   \<and> attempt ex_ext ex_world ex_channel ''channel.message'' [] (ex_user ''a'') (Some 2)
      (ex_log [1, 2, 3] (Some 0))
     = (Inr None, [], ex_log [1, 2, 3] (Some 4))
   \<and> create_event ex_ext ex_world ex_channel ''channel.message'' [] (ex_user ''a'') (Some 2) False
      (ex_log [1, 2, 3] (Some 0))
     = (Inr \<lparr>pe_event = ex_event 5, pe_reactions = []\<rparr>, ex_log [1, 2, 3, 5] (Some 5))
   \<and> replaces (ex_event 5) = None"
proof -
  have a1: "attempt ex_ext ex_world ex_channel ''channel.message'' [] (ex_user ''a'') (Some 2)
      (ex_log [1, 2, 3] (Some 3))
     = (Inr (Some \<lparr>pe_event = (ex_event 4)\<lparr>replaces := Some 2\<rparr>, pe_reactions = []\<rparr>), [],
        (ex_log [1, 2, 3] (Some 4))
          \<lparr>events := map ex_event [1, 2, 3] @ [(ex_event 4)\<lparr>replaces := Some 2\<rparr>]\<rparr>)"
    by (simp add: ex_defs run_defs)
  have a2: "attempt ex_ext ex_world ex_channel ''channel.message'' [] (ex_user ''a'') (Some 2)
      (ex_log [1, 2, 3] (Some 0))
     = (Inr None, [], ex_log [1, 2, 3] (Some 4))"
    by (simp add: ex_defs run_defs)
  have r2: "create_event ex_ext ex_world ex_channel ''channel.message'' [] (ex_user ''a'') (Some 2)
      False (ex_log [1, 2, 3] (Some 0))
     = (Inr \<lparr>pe_event = ex_event 5, pe_reactions = []\<rparr>, ex_log [1, 2, 3, 5] (Some 5))"
    by (simp add: create_event.simps ex_defs run_defs)
  note t = create_event_retry_drops_replaces
  from t [of ex_ext ex_world ex_channel "''channel.message''" "[]" "ex_user ''a''" "Some 2"
      "ex_log [1, 2, 3] (Some 3)" _ _ _ False] a1
  have one: "create_event ex_ext ex_world ex_channel ''channel.message'' [] (ex_user ''a'') (Some 2)
      False (ex_log [1, 2, 3] (Some 3))
     = (Inr \<lparr>pe_event = (ex_event 4)\<lparr>replaces := Some 2\<rparr>, pe_reactions = []\<rparr>,
        (ex_log [1, 2, 3] (Some 4))
          \<lparr>events := map ex_event [1, 2, 3] @ [(ex_event 4)\<lparr>replaces := Some 2\<rparr>]\<rparr>)"
    by blast
  from t [of ex_ext ex_world ex_channel "''channel.message''" "[]" "ex_user ''a''" "Some 2"
      "ex_log [1, 2, 3] (Some 0)"] a2 r2
  have two: "replaces (pe_event \<lparr>pe_event = ex_event 5, pe_reactions = []\<rparr>) = None"
    by blast
  from a1 one a2 r2 two show ?thesis by simp
qed

section \<open>Memberships\<close>

text \<open>
  Claim C5. \<^verbatim>\<open>add_channel_user\<close> keeps the membership table free of two rows for one
  channel and user. On such a table it does not fail when the channel and the user are
  stored, and it reports ``not created'' whenever a row is there. With no row, a stored
  channel and a stored user it adds the one row asked for and reports ``created''; with no
  row and a channel or a user that is not stored it fails with the integrity error and
  leaves the state as it was. A second join after a non-volatile one that created the row
  reports ``not created'' and changes nothing. A non-volatile join of a volatile member
  clears the flag on the row that is there, and the table keeps its rows' keys. A row that
  is not volatile is left as it is by every later join, volatile or not.
\<close>

theorem add_channel_user_idempotent:
  "(unique_members s \<longrightarrow> unique_members (snd (add_channel_user cid u vol s)))
   \<and> (unique_members s \<and> cid \<in> channel_pk ` set (channels s) \<and> uid u \<in> uid ` set (users s)
        \<longrightarrow> (\<exists>b. fst (add_channel_user cid u vol s) = Inr b))
   \<and> (unique_members s \<and> member_rows cid (uid u) s \<noteq> []
        \<longrightarrow> fst (add_channel_user cid u vol s) = Inr False)
   \<and> (member_rows cid (uid u) s = []
        \<and> cid \<in> channel_pk ` set (channels s) \<and> uid u \<in> uid ` set (users s) \<longrightarrow>
        add_channel_user cid u vol s
        = (Inr True,
           s\<lparr>memberships := memberships s @
               [\<lparr>m_channel = cid, m_user = uid u, volatile = vol, hidden = False\<rparr>]\<rparr>))
   \<and> (member_rows cid (uid u) s = []
        \<and> (cid \<notin> channel_pk ` set (channels s) \<or> uid u \<notin> uid ` set (users s)) \<longrightarrow>
        add_channel_user cid u vol s = (Inl (IntegrityError Foreign_key), s))
   \<and> (add_channel_user cid u False s = (Inr True, s1) \<longrightarrow>
        add_channel_user cid u False s1 = (Inr False, s1)
        \<and> add_channel_user cid u True s1 = (Inr False, s1))
   \<and> (member_rows cid (uid u) s = [m] \<and> volatile m \<longrightarrow>
        (\<exists>s2. add_channel_user cid u False s = (Inr False, s2)
               \<and> member_rows cid (uid u) s2 = [m\<lparr>volatile := False\<rparr>]
               \<and> map (\<lambda>m. (m_channel m, m_user m)) (memberships s2)
                   = map (\<lambda>m. (m_channel m, m_user m)) (memberships s)))
   \<and> (member_rows cid (uid u) s = [m] \<and> \<not> volatile m \<longrightarrow>
        add_channel_user cid u vol s = (Inr False, s))"
proof (intro conjI impI)
  assume "unique_members s"
  then show "unique_members (snd (add_channel_user cid u vol s))"
    by (rule add_channel_user_unique)
next
  assume "unique_members s \<and> cid \<in> channel_pk ` set (channels s) \<and> uid u \<in> uid ` set (users s)"
  then show "\<exists>b. fst (add_channel_user cid u vol s) = Inr b"
    by (intro add_channel_user_total) simp_all
next
  assume "unique_members s \<and> member_rows cid (uid u) s \<noteq> []"
  then show "fst (add_channel_user cid u vol s) = Inr False"
    by (intro add_channel_user_found) simp_all
next
  assume "member_rows cid (uid u) s = []
    \<and> cid \<in> channel_pk ` set (channels s) \<and> uid u \<in> uid ` set (users s)"
  then show "add_channel_user cid u vol s
        = (Inr True,
           s\<lparr>memberships := memberships s @
               [\<lparr>m_channel = cid, m_user = uid u, volatile = vol, hidden = False\<rparr>]\<rparr>)"
    by (intro add_channel_user_first) simp_all
next
  assume "member_rows cid (uid u) s = []
    \<and> (cid \<notin> channel_pk ` set (channels s) \<or> uid u \<notin> uid ` set (users s))"
  then show "add_channel_user cid u vol s = (Inl (IntegrityError Foreign_key), s)"
    by (intro add_channel_user_refused) simp_all
next
  assume a: "add_channel_user cid u False s = (Inr True, s1)"
  show "add_channel_user cid u False s1 = (Inr False, s1)"
    and "add_channel_user cid u True s1 = (Inr False, s1)"
    using add_channel_user_again [OF a] by simp_all
next
  assume "member_rows cid (uid u) s = [m] \<and> volatile m"
  then have "member_rows cid (uid u) s = [m]" and "volatile m" by simp_all
  from add_channel_user_clears [OF this]
  show "\<exists>s2. add_channel_user cid u False s = (Inr False, s2)
               \<and> member_rows cid (uid u) s2 = [m\<lparr>volatile := False\<rparr>]
               \<and> map (\<lambda>m. (m_channel m, m_user m)) (memberships s2)
                   = map (\<lambda>m. (m_channel m, m_user m)) (memberships s)"
    by blast
next
  assume "member_rows cid (uid u) s = [m] \<and> \<not> volatile m"
  then have "member_rows cid (uid u) s = [m]" and "\<not> volatile m" by simp_all
  then show "add_channel_user cid u vol s = (Inr False, s)" by (rule add_channel_user_keeps)
qed

text \<open>
  Runs of it in a channel where \<open>a\<close> is a volatile member: \<open>b\<close> joins twice, \<open>a\<close> joins
  for good, and \<open>b\<close>, now a member for good, asks for a volatile join. A join of a channel
  that is not stored, and a join by a user who is not stored, are refused.
\<close>

theorem add_channel_user_idempotent_witness:
  "unique_members (ex_members [ex_member ''c'' ''a'' True])
   \<and> member_rows ''c'' ''b'' (ex_members [ex_member ''c'' ''a'' True]) = []
   \<and> add_channel_user ''c'' (ex_user ''b'') False (ex_members [ex_member ''c'' ''a'' True])
       = (Inr True, ex_members [ex_member ''c'' ''a'' True, ex_member ''c'' ''b'' False])
   \<and> unique_members (ex_members [ex_member ''c'' ''a'' True, ex_member ''c'' ''b'' False])
   \<and> add_channel_user ''c'' (ex_user ''b'') False
        (ex_members [ex_member ''c'' ''a'' True, ex_member ''c'' ''b'' False])
       = (Inr False, ex_members [ex_member ''c'' ''a'' True, ex_member ''c'' ''b'' False])
   \<and> member_rows ''c'' ''a'' (ex_members [ex_member ''c'' ''a'' True]) = [ex_member ''c'' ''a'' True]
   \<and> volatile (ex_member ''c'' ''a'' True)
   \<and> add_channel_user ''c'' (ex_user ''a'') False (ex_members [ex_member ''c'' ''a'' True])
       = (Inr False, ex_members [ex_member ''c'' ''a'' False])
   \<and> member_rows ''c'' ''b'' (ex_members [ex_member ''c'' ''a'' True, ex_member ''c'' ''b'' False])
       = [ex_member ''c'' ''b'' False]
   \<and> add_channel_user ''c'' (ex_user ''b'') True
        (ex_members [ex_member ''c'' ''a'' True, ex_member ''c'' ''b'' False])
       = (Inr False, ex_members [ex_member ''c'' ''a'' True, ex_member ''c'' ''b'' False])
   \<and> add_channel_user ''zz'' (ex_user ''b'') False (ex_members [ex_member ''c'' ''a'' True])
       = (Inl (IntegrityError Foreign_key), ex_members [ex_member ''c'' ''a'' True])
   \<and> add_channel_user ''c'' (ex_user ''z'') False (ex_members [ex_member ''c'' ''a'' True])
       = (Inl (IntegrityError Foreign_key), ex_members [ex_member ''c'' ''a'' True])"
proof -
  let ?s = "ex_members [ex_member ''c'' ''a'' True]"
  let ?s1 = "ex_members [ex_member ''c'' ''a'' True, ex_member ''c'' ''b'' False]"
  note t = add_channel_user_idempotent
  have u: "unique_members ?s" by code_simp
  have n: "member_rows ''c'' ''b'' ?s = []" by code_simp
  have ub: "uid (ex_user ''b'') = ''b''" and ua: "uid (ex_user ''a'') = ''a''"
    and uz: "uid (ex_user ''z'') = ''z''" by (simp_all add: ex_user_def)
  have h4: "member_rows ''c'' (uid (ex_user ''b'')) ?s = []
            \<and> ''c'' \<in> channel_pk ` set (channels ?s)
            \<and> uid (ex_user ''b'') \<in> uid ` set (users ?s)" by code_simp
  have row: "?s\<lparr>memberships := memberships ?s @
               [\<lparr>m_channel = ''c'', m_user = uid (ex_user ''b''), volatile = False,
                  hidden = False\<rparr>]\<rparr> = ?s1" by code_simp
  from t [where s = ?s and cid = "''c''" and u = "ex_user ''b''" and vol = False,
      THEN conjunct2, THEN conjunct2, THEN conjunct2, THEN conjunct1, THEN mp, OF h4]
  have c: "add_channel_user ''c'' (ex_user ''b'') False ?s = (Inr True, ?s1)"
    by (simp only: row)
  from t [where s = ?s and cid = "''c''" and u = "ex_user ''b''" and vol = False,
      THEN conjunct1, THEN mp, OF u]
  have u1: "unique_members ?s1" by (simp only: c snd_conv)
  have h2: "unique_members ?s \<and> ''c'' \<in> channel_pk ` set (channels ?s)
            \<and> uid (ex_user ''b'') \<in> uid ` set (users ?s)" by code_simp
  from t [where s = ?s and cid = "''c''" and u = "ex_user ''b''" and vol = False,
      THEN conjunct2, THEN conjunct1, THEN mp, OF h2]
  have tot: "\<exists>b. fst (add_channel_user ''c'' (ex_user ''b'') False ?s) = Inr b" .
  have h3: "unique_members ?s \<and> member_rows ''c'' (uid (ex_user ''a'')) ?s \<noteq> []" by code_simp
  from t [where s = ?s and cid = "''c''" and u = "ex_user ''a''" and vol = True,
      THEN conjunct2, THEN conjunct2, THEN conjunct1, THEN mp, OF h3]
  have fnd: "fst (add_channel_user ''c'' (ex_user ''a'') True ?s) = Inr False" .
  from t [where s = ?s and cid = "''c''" and u = "ex_user ''b''" and ?s1.0 = ?s1,
      THEN conjunct2, THEN conjunct2, THEN conjunct2, THEN conjunct2, THEN conjunct2,
      THEN conjunct1, THEN mp, OF c]
  have again: "add_channel_user ''c'' (ex_user ''b'') False ?s1 = (Inr False, ?s1)"
    by (rule conjunct1)
  have v: "member_rows ''c'' ''a'' ?s = [ex_member ''c'' ''a'' True]" by code_simp
  have vv: "volatile (ex_member ''c'' ''a'' True)" by code_simp
  have h7: "member_rows ''c'' (uid (ex_user ''a'')) ?s = [ex_member ''c'' ''a'' True]
            \<and> volatile (ex_member ''c'' ''a'' True)" by code_simp
  from t [where s = ?s and cid = "''c''" and u = "ex_user ''a''"
        and m = "ex_member ''c'' ''a'' True",
      THEN conjunct2, THEN conjunct2, THEN conjunct2, THEN conjunct2, THEN conjunct2,
      THEN conjunct2, THEN conjunct1, THEN mp, OF h7]
  obtain s2 where s2: "add_channel_user ''c'' (ex_user ''a'') False ?s = (Inr False, s2)"
    by (elim exE conjE)
  have clear: "add_channel_user ''c'' (ex_user ''a'') False ?s
               = (Inr False, ex_members [ex_member ''c'' ''a'' False])"
    by code_simp
  have k: "member_rows ''c'' ''b'' ?s1 = [ex_member ''c'' ''b'' False]" by code_simp
  have h8: "member_rows ''c'' (uid (ex_user ''b'')) ?s1 = [ex_member ''c'' ''b'' False]
            \<and> \<not> volatile (ex_member ''c'' ''b'' False)" by code_simp
  from t [where s = ?s1 and cid = "''c''" and u = "ex_user ''b''" and vol = True
        and m = "ex_member ''c'' ''b'' False",
      THEN conjunct2, THEN conjunct2, THEN conjunct2, THEN conjunct2, THEN conjunct2,
      THEN conjunct2, THEN conjunct2, THEN mp, OF h8]
  have keep: "add_channel_user ''c'' (ex_user ''b'') True ?s1 = (Inr False, ?s1)" .
  have hz: "member_rows ''zz'' (uid (ex_user ''b'')) ?s = []
            \<and> (''zz'' \<notin> channel_pk ` set (channels ?s)
                \<or> uid (ex_user ''b'') \<notin> uid ` set (users ?s))" by code_simp
  from t [where s = ?s and cid = "''zz''" and u = "ex_user ''b''" and vol = False,
      THEN conjunct2, THEN conjunct2, THEN conjunct2, THEN conjunct2, THEN conjunct1,
      THEN mp, OF hz]
  have rc: "add_channel_user ''zz'' (ex_user ''b'') False ?s = (Inl (IntegrityError Foreign_key), ?s)" .
  have hu: "member_rows ''c'' (uid (ex_user ''z'')) ?s = []
            \<and> (''c'' \<notin> channel_pk ` set (channels ?s)
                \<or> uid (ex_user ''z'') \<notin> uid ` set (users ?s))" by code_simp
  from t [where s = ?s and cid = "''c''" and u = "ex_user ''z''" and vol = False,
      THEN conjunct2, THEN conjunct2, THEN conjunct2, THEN conjunct2, THEN conjunct1,
      THEN mp, OF hu]
  have ru: "add_channel_user ''c'' (ex_user ''z'') False ?s = (Inl (IntegrityError Foreign_key), ?s)" .
  show ?thesis by (intro conjI u n c u1 again v vv clear k keep rc ru)
qed

section \<open>Direct channels\<close>

text \<open>
  Claim C4. On a user table with unique keys, \<^verbatim>\<open>get_or_create_direct_channel\<close> returns
  \<^verbatim>\<open>(None, False, [])\<close>, raises nothing and changes nothing when a requested id is not a
  user of the world, when fewer than two users are found, when one of the users found has
  blocked another of them, or when one of them is deleted, a kiosk or anonymous. If \<open>a\<close>
  has blocked \<open>b\<close>, the request is refused for the ids in either order.
\<close>

theorem direct_channel_not_eligible:
  assumes "distinct (map uid (users s))"
  shows "((\<exists>i\<in>set user_ids. i \<notin> uid ` {u \<in> set (users s). user_world u = world_pk w})
          \<or> length (tenant_users w user_ids s) < 2
          \<or> (\<exists>a\<in>set (tenant_users w user_ids s). \<exists>b\<in>set (tenant_users w user_ids s).
                uid b \<noteq> uid a \<and> uid b \<in> set (blocked_users a))
          \<or> (\<exists>a\<in>set (tenant_users w user_ids s).
                deleted a \<or> utype a = KIOSK \<or> utype a = ANONYMOUS)
          \<longrightarrow> get_or_create_direct_channel x w user_ids hide hide_except s
                = (Inr (None, False, []), s))
         \<and> (a \<in> set (users s) \<and> b \<in> set (users s) \<and> user_world a = world_pk w
             \<and> user_world b = world_pk w \<and> uid b \<noteq> uid a \<and> uid b \<in> set (blocked_users a)
             \<longrightarrow> get_or_create_direct_channel x w [uid a, uid b] hide hide_except s
                   = (Inr (None, False, []), s)
                 \<and> get_or_create_direct_channel x w [uid b, uid a] hide hide_except s
                   = (Inr (None, False, []), s))"
proof (intro conjI impI)
  assume h: "(\<exists>i\<in>set user_ids. i \<notin> uid ` {u \<in> set (users s). user_world u = world_pk w})
          \<or> length (tenant_users w user_ids s) < 2
          \<or> (\<exists>a\<in>set (tenant_users w user_ids s). \<exists>b\<in>set (tenant_users w user_ids s).
                uid b \<noteq> uid a \<and> uid b \<in> set (blocked_users a))
          \<or> (\<exists>a\<in>set (tenant_users w user_ids s).
                deleted a \<or> utype a = KIOSK \<or> utype a = ANONYMOUS)"
  have "not_eligible (tenant_users w user_ids s) user_ids"
    using h tenant_users_missing [OF assms, of _ user_ids w]
    unfolding not_eligible_iff by blast
  then show "get_or_create_direct_channel x w user_ids hide hide_except s
             = (Inr (None, False, []), s)"
    by (rule direct_channel_rejected)
next
  assume h: "a \<in> set (users s) \<and> b \<in> set (users s) \<and> user_world a = world_pk w
             \<and> user_world b = world_pk w \<and> uid b \<noteq> uid a \<and> uid b \<in> set (blocked_users a)"
  then have "a \<in> set (tenant_users w [uid a, uid b] s)" "b \<in> set (tenant_users w [uid a, uid b] s)"
    "a \<in> set (tenant_users w [uid b, uid a] s)" "b \<in> set (tenant_users w [uid b, uid a] s)"
    by (simp_all add: tenant_users_def)
  with h have "not_eligible (tenant_users w [uid a, uid b] s) [uid a, uid b]"
    and "not_eligible (tenant_users w [uid b, uid a] s) [uid b, uid a]"
    unfolding not_eligible_iff by blast+
  then show "get_or_create_direct_channel x w [uid a, uid b] hide hide_except s
             = (Inr (None, False, []), s)"
    and "get_or_create_direct_channel x w [uid b, uid a] hide hide_except s
             = (Inr (None, False, []), s)"
    by (simp_all add: direct_channel_rejected)
qed

text \<open>
  Runs of it: an id that is no user's, a single user, a deleted user, a kiosk, and a user
  \<open>a\<close> who has blocked \<open>b\<close>.
\<close>

theorem direct_channel_not_eligible_witness:
  "distinct (map uid (users ex_sys))
   \<and> ''z'' \<notin> uid ` {u \<in> set (users ex_sys). user_world u = world_pk ex_world}
   \<and> get_or_create_direct_channel ex_ext ex_world [''a'', ''z''] True None ex_sys
       = (Inr (None, False, []), ex_sys)
   \<and> length (tenant_users ex_world [''a''] ex_sys) < 2
   \<and> get_or_create_direct_channel ex_ext ex_world [''a''] True None ex_sys
       = (Inr (None, False, []), ex_sys)
   \<and> get_or_create_direct_channel ex_ext ex_world [''a'', ''b''] True None
        (ex_users [ex_user ''a'', (ex_user ''b'')\<lparr>deleted := True\<rparr>])
       = (Inr (None, False, []), ex_users [ex_user ''a'', (ex_user ''b'')\<lparr>deleted := True\<rparr>])
   \<and> get_or_create_direct_channel ex_ext ex_world [''a'', ''b''] True None
        (ex_users [ex_user ''a'', (ex_user ''b'')\<lparr>utype := KIOSK\<rparr>])
       = (Inr (None, False, []), ex_users [ex_user ''a'', (ex_user ''b'')\<lparr>utype := KIOSK\<rparr>])
   \<and> get_or_create_direct_channel ex_ext ex_world [''a'', ''b''] True None
        (ex_users [(ex_user ''a'')\<lparr>blocked_users := [''b'']\<rparr>, ex_user ''b''])
       = (Inr (None, False, []), ex_users [(ex_user ''a'')\<lparr>blocked_users := [''b'']\<rparr>, ex_user ''b''])
   \<and> get_or_create_direct_channel ex_ext ex_world [''b'', ''a''] True None
        (ex_users [(ex_user ''a'')\<lparr>blocked_users := [''b'']\<rparr>, ex_user ''b''])
       = (Inr (None, False, []), ex_users [(ex_user ''a'')\<lparr>blocked_users := [''b'']\<rparr>, ex_user ''b''])"
proof -
  note t = direct_channel_not_eligible
  note defs = ex_users_def ex_defs tenant_users_def
  have d0: "distinct (map uid (users ex_sys))" by (simp add: defs)
  have m: "''z'' \<in> set [''a'', ''z'']
           \<and> ''z'' \<notin> uid ` {u \<in> set (users ex_sys). user_world u = world_pk ex_world}"
    by (auto simp: defs)
  have l: "length (tenant_users ex_world [''a''] ex_sys) < 2" by (simp add: defs)
  let ?sd = "ex_users [ex_user ''a'', (ex_user ''b'')\<lparr>deleted := True\<rparr>]"
  have dd: "distinct (map uid (users ?sd))" by (simp add: defs)
  have hd: "(ex_user ''b'')\<lparr>deleted := True\<rparr> \<in> set (tenant_users ex_world [''a'', ''b''] ?sd)
            \<and> deleted ((ex_user ''b'')\<lparr>deleted := True\<rparr>)"
    by (simp add: defs)
  let ?sk = "ex_users [ex_user ''a'', (ex_user ''b'')\<lparr>utype := KIOSK\<rparr>]"
  have dk: "distinct (map uid (users ?sk))" by (simp add: defs)
  have hk: "(ex_user ''b'')\<lparr>utype := KIOSK\<rparr> \<in> set (tenant_users ex_world [''a'', ''b''] ?sk)
            \<and> utype ((ex_user ''b'')\<lparr>utype := KIOSK\<rparr>) = KIOSK"
    by (simp add: defs)
  let ?sb = "ex_users [(ex_user ''a'')\<lparr>blocked_users := [''b'']\<rparr>, ex_user ''b'']"
  have db: "distinct (map uid (users ?sb))" by (simp add: defs)
  have hb: "(ex_user ''a'')\<lparr>blocked_users := [''b'']\<rparr> \<in> set (users ?sb)
            \<and> ex_user ''b'' \<in> set (users ?sb)
            \<and> user_world ((ex_user ''a'')\<lparr>blocked_users := [''b'']\<rparr>) = world_pk ex_world
            \<and> user_world (ex_user ''b'') = world_pk ex_world
            \<and> uid (ex_user ''b'') \<noteq> uid ((ex_user ''a'')\<lparr>blocked_users := [''b'']\<rparr>)
            \<and> uid (ex_user ''b'') \<in> set (blocked_users ((ex_user ''a'')\<lparr>blocked_users := [''b'']\<rparr>))"
    by (simp add: defs)
  from t [OF d0, of "[''a'', ''z'']" ex_world ex_ext True None] m
  have r1: "get_or_create_direct_channel ex_ext ex_world [''a'', ''z''] True None ex_sys
            = (Inr (None, False, []), ex_sys)" by blast
  from t [OF d0, of "[''a'']" ex_world ex_ext True None] l
  have r2: "get_or_create_direct_channel ex_ext ex_world [''a''] True None ex_sys
            = (Inr (None, False, []), ex_sys)" by blast
  from t [OF dd, of "[''a'', ''b'']" ex_world ex_ext True None] hd
  have r3: "get_or_create_direct_channel ex_ext ex_world [''a'', ''b''] True None ?sd
            = (Inr (None, False, []), ?sd)" by blast
  from t [OF dk, of "[''a'', ''b'']" ex_world ex_ext True None] hk
  have r4: "get_or_create_direct_channel ex_ext ex_world [''a'', ''b''] True None ?sk
            = (Inr (None, False, []), ?sk)" by blast
  from t [OF db, where a = "(ex_user ''a'')\<lparr>blocked_users := [''b'']\<rparr>" and b = "ex_user ''b''"
      and w = ex_world and x = ex_ext and hide = True and hide_except = None] hb
  have "get_or_create_direct_channel ex_ext ex_world
          [uid ((ex_user ''a'')\<lparr>blocked_users := [''b'']\<rparr>), uid (ex_user ''b'')] True None ?sb
            = (Inr (None, False, []), ?sb)
          \<and> get_or_create_direct_channel ex_ext ex_world
          [uid (ex_user ''b''), uid ((ex_user ''a'')\<lparr>blocked_users := [''b'']\<rparr>)] True None ?sb
            = (Inr (None, False, []), ?sb)"
    by blast
  then have r5: "get_or_create_direct_channel ex_ext ex_world [''a'', ''b''] True None ?sb
            = (Inr (None, False, []), ?sb)
          \<and> get_or_create_direct_channel ex_ext ex_world [''b'', ''a''] True None ?sb
            = (Inr (None, False, []), ?sb)"
    by (simp add: ex_user_def ex_world_def)
  from d0 m l r1 r2 r3 r4 r5 show ?thesis by simp
qed

text \<open>
  Claim C3. On tables with unique user keys and unique membership rows whose rows belong to
  stored channels, the channel that \<^verbatim>\<open>get_or_create_direct_channel\<close> returns has no room and
  has exactly the requested users as members. Asking again for the same set of users, in
  any order, returns that channel, reports ``not created'' and changes nothing. A request
  for a strict superset of the users never returns that channel; when no other channel
  matches the superset and the key drawn is new, it creates a channel of its own.
\<close>

theorem direct_channel_dedup:
  assumes d: "distinct (map uid (users s))" and u: "unique_members s" and fk: "members_refer s"
    and r: "get_or_create_direct_channel x w ids hide he s = (Inr (Some c, created, us), s1)"
  shows "channel_room c = None \<and> c \<in> set (channels s1)
      \<and> member_set (channel_pk c) s1 = set ids
      \<and> (set ids' = set ids \<and> length ids' = length ids \<longrightarrow>
           get_or_create_direct_channel x w ids' hide' he' s1 = (Inr (Some c, False, us), s1))
      \<and> (set ids \<subset> set ids3
           \<and> get_or_create_direct_channel x w ids3 hide' he' s1
               = (Inr (Some c3, created3, us3), s2) \<longrightarrow>
           channel_pk c3 \<noteq> channel_pk c)
      \<and> (set ids \<subset> set ids3 \<and> \<not> not_eligible (tenant_users w ids3 s1) ids3
           \<and> filter (\<lambda>c'. channel_pk c' \<noteq> channel_pk c \<and> direct_match w ids3 s1 c')
                (channels s1) = []
           \<and> uuid4 x (uuid_draws s1) \<notin> channel_pk ` set (channels s1) \<longrightarrow>
           (\<exists>c4 s4. get_or_create_direct_channel x w ids3 hide' he' s1
                       = (Inr (Some c4, True, tenant_users w ids3 s1), s4)
                    \<and> channel_pk c4 \<noteq> channel_pk c \<and> channels s4 = channels s1 @ [c4]))"
proof -
  note after = direct_channel_after [OF d u fk r]
  have d1: "distinct (map uid (users s1))" using d after(1) by simp
  from after(3) have "c \<in> set (filter (direct_match w ids s1) (channels s1))" by simp
  then have cin: "c \<in> set (channels s1)" and m: "direct_match w ids s1 c" by simp_all
  from m have room: "channel_room c = None" by (simp add: direct_match_def)
  have exact: "member_set (channel_pk c) s1 = set ids"
    by (rule direct_match_exact [OF after(2) m])
  have dids: "distinct ids" by (rule eligible_distinct_ids(1) [OF d after(4)])
  have again: "get_or_create_direct_channel x w ids' hide' he' s1 = (Inr (Some c, False, us), s1)"
    if "set ids' = set ids \<and> length ids' = length ids"
  proof -
    from that have eq: "set ids' = set ids" and len: "length ids' = length ids" by simp_all
    have t: "tenant_users w ids' s1 = tenant_users w ids s"
      by (rule tenant_users_cong [OF after(1) eq])
    have e: "\<not> not_eligible (tenant_users w ids' s1) ids'"
      using after(4) by (simp add: t not_eligible_cong [OF len])
    have f: "filter (direct_match w ids' s1) (channels s1) = [c]"
      using after(3) by (simp add: direct_match_cong [OF eq len])
    from direct_channel_found [OF e f, of x hide' he'] show ?thesis by (simp add: t after(5))
  qed
  have nomatch: "\<not> direct_match w ids3 s1 c'"
    if sub: "set ids \<subset> set ids3" and e3: "\<not> not_eligible (tenant_users w ids3 s1) ids3"
      and pk: "channel_pk c' = channel_pk c" for c'
  proof -
    have "distinct ids3" by (rule eligible_distinct_ids(1) [OF d1 e3])
    with dids sub have "length ids < length ids3" by (intro superset_longer)
    moreover from sub have "set ids \<subseteq> set ids3" by auto
    ultimately show ?thesis using m pk by (intro direct_match_superset)
  qed
  have other: "channel_pk c3 \<noteq> channel_pk c"
    if "set ids \<subset> set ids3
        \<and> get_or_create_direct_channel x w ids3 hide' he' s1 = (Inr (Some c3, created3, us3), s2)"
  proof -
    from that have sub: "set ids \<subset> set ids3"
      and r3: "get_or_create_direct_channel x w ids3 hide' he' s1
               = (Inr (Some c3, created3, us3), s2)" by simp_all
    note res = direct_channel_result [OF r3]
    from res have e3: "\<not> not_eligible (tenant_users w ids3 s1) ids3" by simp
    from res consider
      (found) "filter (direct_match w ids3 s1) (channels s1) = [c3]"
    | (new) "channel_pk c3 \<notin> channel_pk ` set (channels s1)"
      by blast
    then show ?thesis
    proof cases
      case found
      then have "c3 \<in> set (filter (direct_match w ids3 s1) (channels s1))" by simp
      then have "direct_match w ids3 s1 c3" by simp
      with nomatch [OF sub e3] show ?thesis by blast
    next
      case new
      with cin show ?thesis by (metis imageI)
    qed
  qed
  have create: "\<exists>c4 s4. get_or_create_direct_channel x w ids3 hide' he' s1
                       = (Inr (Some c4, True, tenant_users w ids3 s1), s4)
                    \<and> channel_pk c4 \<noteq> channel_pk c \<and> channels s4 = channels s1 @ [c4]"
    if "set ids \<subset> set ids3 \<and> \<not> not_eligible (tenant_users w ids3 s1) ids3
           \<and> filter (\<lambda>c'. channel_pk c' \<noteq> channel_pk c \<and> direct_match w ids3 s1 c')
                (channels s1) = []
           \<and> uuid4 x (uuid_draws s1) \<notin> channel_pk ` set (channels s1)"
  proof -
    from that have sub: "set ids \<subset> set ids3"
      and e3: "\<not> not_eligible (tenant_users w ids3 s1) ids3"
      and no: "filter (\<lambda>c'. channel_pk c' \<noteq> channel_pk c \<and> direct_match w ids3 s1 c')
                (channels s1) = []"
      and fresh: "uuid4 x (uuid_draws s1) \<notin> channel_pk ` set (channels s1)" by simp_all
    have "\<not> direct_match w ids3 s1 c'" if "c' \<in> set (channels s1)" for c'
    proof (cases "channel_pk c' = channel_pk c")
      case True
      then show ?thesis by (rule nomatch [OF sub e3])
    next
      case False
      with no that show ?thesis by (auto simp: filter_empty_conv)
    qed
    then have f: "filter (direct_match w ids3 s1) (channels s1) = []"
      by (simp add: filter_empty_conv)
    from fresh cin have "uuid4 x (uuid_draws s1) \<noteq> channel_pk c" by (metis imageI)
    with direct_channel_created [OF e3 f fresh, of hide' he'] show ?thesis by simp
  qed
  from room cin exact again other create show ?thesis by blast
qed

text \<open>
  A run of it: \<open>a\<close> and \<open>b\<close> get the new channel \<open>n\<close>; \<open>b\<close> and \<open>a\<close> get \<open>n\<close> again;
  \<open>a\<close>, \<open>b\<close> and \<open>d\<close> get the new channel \<open>nn\<close>.
\<close>

theorem direct_channel_dedup_witness:
  "distinct (map uid (users ex_sys)) \<and> unique_members ex_sys \<and> members_refer ex_sys
   \<and> get_or_create_direct_channel ex_ext ex_world [''a'', ''b''] True None ex_sys
       = (Inr (Some (ex_direct ''n''), True, [ex_user ''a'', ex_user ''b'']), ex_direct_sys)
   \<and> member_set ''n'' ex_direct_sys = {''a'', ''b''}
   \<and> get_or_create_direct_channel ex_ext ex_world [''b'', ''a''] True None ex_direct_sys
       = (Inr (Some (ex_direct ''n''), False, [ex_user ''a'', ex_user ''b'']), ex_direct_sys)
   \<and> set [''a'', ''b''] \<subset> set [''a'', ''b'', ''d'']
   \<and> get_or_create_direct_channel ex_ext ex_world [''a'', ''b'', ''d''] True None ex_direct_sys
       = (Inr (Some (ex_direct ''nn''), True, [ex_user ''a'', ex_user ''b'', ex_user ''d'']),
          ex_direct_sys\<lparr>channels := [ex_channel, ex_direct ''n'', ex_direct ''nn''],
            memberships := [ex_hidden ''n'' ''a'', ex_hidden ''n'' ''b'', ex_hidden ''nn'' ''a'',
                            ex_hidden ''nn'' ''b'', ex_hidden ''nn'' ''d''],
            uuid_draws := 2\<rparr>)
   \<and> channel_pk (ex_direct ''nn'') \<noteq> channel_pk (ex_direct ''n'')"
proof -
  note defs = ex_direct_sys_def ex_direct_def ex_hidden_def ex_defs
  let ?s3 = "ex_direct_sys\<lparr>channels := [ex_channel, ex_direct ''n'', ex_direct ''nn''],
            memberships := [ex_hidden ''n'' ''a'', ex_hidden ''n'' ''b'', ex_hidden ''nn'' ''a'',
                            ex_hidden ''nn'' ''b'', ex_hidden ''nn'' ''d''],
            uuid_draws := 2\<rparr>"
  have d: "distinct (map uid (users ex_sys))" by (simp add: defs)
  have u: "unique_members ex_sys" by (simp add: unique_members_def defs)
  have fk: "members_refer ex_sys" by (simp add: members_refer_def defs)
  have r: "get_or_create_direct_channel ex_ext ex_world [''a'', ''b''] True None ex_sys
       = (Inr (Some (ex_direct ''n''), True, [ex_user ''a'', ex_user ''b'']), ex_direct_sys)"
    by code_simp
  have p: "set [''b'', ''a''] = set [''a'', ''b''] \<and> length [''b'', ''a''] = length [''a'', ''b'']"
    by (simp add: insert_commute)
  have sub: "set [''a'', ''b''] \<subset> set [''a'', ''b'', ''d'']" by code_simp
  have r3: "get_or_create_direct_channel ex_ext ex_world [''a'', ''b'', ''d''] True None ex_direct_sys
       = (Inr (Some (ex_direct ''nn''), True, [ex_user ''a'', ex_user ''b'', ex_user ''d'']), ?s3)"
    by code_simp
  note t = direct_channel_dedup [OF d u fk r, where ids' = "[''b'', ''a'']"
      and ?ids3.0 = "[''a'', ''b'', ''d'']" and hide' = True and he' = None
      and ?c3.0 = "ex_direct ''nn''" and ?created3.0 = True
      and ?us3.0 = "[ex_user ''a'', ex_user ''b'', ex_user ''d'']" and ?s2.0 = ?s3]
  note t3 = t [THEN conjunct2, THEN conjunct2]
  from t3 have m: "member_set (channel_pk (ex_direct ''n'')) ex_direct_sys = set [''a'', ''b'']"
    by (rule conjunct1)
  from t3 [THEN conjunct2, THEN conjunct1, THEN mp, OF p]
  have again: "get_or_create_direct_channel ex_ext ex_world [''b'', ''a''] True None
       ex_direct_sys
       = (Inr (Some (ex_direct ''n''), False, [ex_user ''a'', ex_user ''b'']), ex_direct_sys)" .
  from t3 [THEN conjunct2, THEN conjunct2, THEN conjunct1, THEN mp, OF conjI [OF sub r3]]
  have other: "channel_pk (ex_direct ''nn'') \<noteq> channel_pk (ex_direct ''n'')" .
  from m have m': "member_set ''n'' ex_direct_sys = {''a'', ''b''}"
    by (simp add: ex_direct_def)
  show ?thesis
    by (intro conjI d u fk r m' again sub r3 other)
qed

section \<open>Notifications and reactions\<close>

text \<open>
  Claim C6. After \<^verbatim>\<open>store_notification\<close> of a stored event of channel \<open>c\<close> for the user \<open>u\<close>,
  \<^verbatim>\<open>get_notification_counts\<close> maps \<open>c\<close> to a positive count, one more than before.
  \<^verbatim>\<open>remove_notifications\<close> deletes exactly the user's notifications in the channel whose event
  id is at most \<open>max_id\<close>, changes nothing else and returns true exactly when there was such
  a notification; a second call with the same arguments returns false and changes nothing.
  When \<open>max_id\<close> covers all the user's notifications in the channel, the channel is no
  longer a key of the counts. So the life cycle of the spec holds: from no notification in
  \<open>c\<close>, one store gives the count 1, the removal up to an id that covers the event returns
  true and takes the key away, and the removal after that returns false.
\<close>

theorem notification_lifecycle:
  "(find (\<lambda>e. ev_id e = i) (events s) = Some e \<and> ev_channel e = c \<longrightarrow>
      map_of (get_notification_counts u (store_notification i [u] s)) c
        = Some (outstanding u c s + 1))
   \<and> notifications (snd (remove_notifications u c mx s))
       = filter (\<lambda>n. \<not> (n_event n \<le> mx \<and> notification_channel s n = Some c \<and> n_recipient n = u))
           (notifications s)
   \<and> snd (remove_notifications u c mx s)
       = s\<lparr>notifications := notifications (snd (remove_notifications u c mx s))\<rparr>
   \<and> (fst (remove_notifications u c mx s) \<longleftrightarrow>
        (\<exists>n\<in>set (notifications s).
           n_event n \<le> mx \<and> notification_channel s n = Some c \<and> n_recipient n = u))
   \<and> remove_notifications u c mx (snd (remove_notifications u c mx s))
       = (False, snd (remove_notifications u c mx s))
   \<and> ((\<forall>n\<in>set (notifications s).
          n_recipient n = u \<and> notification_channel s n = Some c \<longrightarrow> n_event n \<le> mx) \<longrightarrow>
        map_of (get_notification_counts u (snd (remove_notifications u c mx s))) c = None)
   \<and> (find (\<lambda>e. ev_id e = i) (events s) = Some e \<and> ev_channel e = c \<and> i \<le> mx
        \<and> map_of (get_notification_counts u s) c = None \<longrightarrow>
        map_of (get_notification_counts u (store_notification i [u] s)) c = Some 1
        \<and> fst (remove_notifications u c mx (store_notification i [u] s))
        \<and> map_of (get_notification_counts u
             (snd (remove_notifications u c mx (store_notification i [u] s)))) c = None
        \<and> \<not> fst (remove_notifications u c mx
                 (snd (remove_notifications u c mx (store_notification i [u] s)))))"
proof -
  have stored: "map_of (get_notification_counts u (store_notification i [u] s)) c
                = Some (outstanding u c s + 1)"
    if "find (\<lambda>e. ev_id e = i) (events s) = Some e \<and> ev_channel e = c"
    using that outstanding_store [of i s e c u] by (simp add: counts_lookup)
  have gone: "map_of (get_notification_counts u (snd (remove_notifications u c mx s'))) c = None"
    if "\<forall>n\<in>set (notifications s').
          n_recipient n = u \<and> notification_channel s' n = Some c \<longrightarrow> n_event n \<le> mx" for s'
  proof -
    from that have "filter (\<lambda>n. n_recipient n = u \<and> notification_channel s' n = Some c
                            \<and> mx < n_event n) (notifications s') = []"
      by (auto simp: filter_empty_conv)
    then show ?thesis by (simp add: counts_lookup outstanding_removed)
  qed
  have life: "map_of (get_notification_counts u (store_notification i [u] s)) c = Some 1
        \<and> fst (remove_notifications u c mx (store_notification i [u] s))
        \<and> map_of (get_notification_counts u
             (snd (remove_notifications u c mx (store_notification i [u] s)))) c = None
        \<and> \<not> fst (remove_notifications u c mx
                 (snd (remove_notifications u c mx (store_notification i [u] s))))"
    if h: "find (\<lambda>e. ev_id e = i) (events s) = Some e \<and> ev_channel e = c \<and> i \<le> mx
        \<and> map_of (get_notification_counts u s) c = None"
  proof -
    let ?s1 = "store_notification i [u] s"
    from h have f: "find (\<lambda>e. ev_id e = i) (events s) = Some e \<and> ev_channel e = c"
      and le: "i \<le> mx" and z: "outstanding u c s = 0"
      by (simp_all add: counts_lookup split: if_splits)
    have nc: "notification_channel ?s1 = notification_channel s"
      by (rule notification_channel_events) (simp add: store_notification_def)
    have new: "notification_channel s \<lparr>n_event = i, n_recipient = u\<rparr> = Some c"
      using f by (simp add: notification_channel_def)
    have rows: "notifications ?s1 = notifications s @ [\<lparr>n_event = i, n_recipient = u\<rparr>]"
      by (simp add: store_notification_def)
    from z have none: "\<not> (n_recipient n = u \<and> notification_channel s n = Some c)"
      if "n \<in> set (notifications s)" for n
      using that by (auto simp: outstanding_def filter_empty_conv)
    have one: "map_of (get_notification_counts u ?s1) c = Some 1"
      using stored [OF f] z by simp
    have flag: "fst (remove_notifications u c mx ?s1)"
      unfolding remove_notifications_flag using le new by (auto simp: rows nc)
    have all: "\<forall>n\<in>set (notifications ?s1).
          n_recipient n = u \<and> notification_channel ?s1 n = Some c \<longrightarrow> n_event n \<le> mx"
      using none le by (auto simp: rows nc)
    from one flag gone [OF all] show ?thesis by (simp add: remove_notifications_again)
  qed
  have c1: "find (\<lambda>e. ev_id e = i) (events s) = Some e \<and> ev_channel e = c \<longrightarrow>
      map_of (get_notification_counts u (store_notification i [u] s)) c
        = Some (outstanding u c s + 1)"
    by (rule impI) (rule stored)
  have c6: "(\<forall>n\<in>set (notifications s).
          n_recipient n = u \<and> notification_channel s n = Some c \<longrightarrow> n_event n \<le> mx) \<longrightarrow>
        map_of (get_notification_counts u (snd (remove_notifications u c mx s))) c = None"
    by (rule impI) (rule gone)
  have c7: "find (\<lambda>e. ev_id e = i) (events s) = Some e \<and> ev_channel e = c \<and> i \<le> mx
        \<and> map_of (get_notification_counts u s) c = None \<longrightarrow>
        map_of (get_notification_counts u (store_notification i [u] s)) c = Some 1
        \<and> fst (remove_notifications u c mx (store_notification i [u] s))
        \<and> map_of (get_notification_counts u
             (snd (remove_notifications u c mx (store_notification i [u] s)))) c = None
        \<and> \<not> fst (remove_notifications u c mx
                 (snd (remove_notifications u c mx (store_notification i [u] s))))"
    by (rule impI) (rule life)
  show ?thesis
    by (intro conjI c1 c6 c7 remove_notifications_rows remove_notifications_frame
        remove_notifications_flag remove_notifications_again)
qed

text \<open>A run of the life cycle with the event 5 of channel \<open>c\<close> and the user \<open>a\<close>.\<close>

theorem notification_lifecycle_witness:
  "find (\<lambda>e. ev_id e = 5) (events (ex_log [5] None)) = Some (ex_event 5)
   \<and> ev_channel (ex_event 5) = ''c''
   \<and> map_of (get_notification_counts ''a'' (ex_log [5] None)) ''c'' = None
   \<and> map_of (get_notification_counts ''a'' (store_notification 5 [''a''] (ex_log [5] None))) ''c''
       = Some 1
   \<and> fst (remove_notifications ''a'' ''c'' 5 (store_notification 5 [''a''] (ex_log [5] None)))
   \<and> map_of (get_notification_counts ''a''
        (snd (remove_notifications ''a'' ''c'' 5 (store_notification 5 [''a''] (ex_log [5] None)))))
        ''c'' = None
   \<and> \<not> fst (remove_notifications ''a'' ''c'' 5
          (snd (remove_notifications ''a'' ''c'' 5 (store_notification 5 [''a''] (ex_log [5] None)))))"
proof -
  let ?s = "ex_log [5] None"
  let ?s1 = "store_notification 5 [''a''] ?s"
  have h: "find (\<lambda>e. ev_id e = 5) (events ?s) = Some (ex_event 5)
           \<and> ev_channel (ex_event 5) = ''c'' \<and> (5::int) \<le> 5
           \<and> map_of (get_notification_counts ''a'' ?s) ''c'' = None"
    by code_simp
  have a: "\<forall>n\<in>set (notifications ?s1).
         n_recipient n = ''a'' \<and> notification_channel ?s1 n = Some ''c'' \<longrightarrow> n_event n \<le> 5"
    by code_simp
  note t = notification_lifecycle [where i = 5 and s = ?s and e = "ex_event 5" and c = "''c''"
      and u = "''a''" and mx = 5]
  note t6 = notification_lifecycle [where s = ?s1 and c = "''c''" and u = "''a''" and mx = 5]
  from t [THEN conjunct2, THEN conjunct2, THEN conjunct2, THEN conjunct2, THEN conjunct2,
      THEN conjunct2, THEN mp, OF h]
  have life: "map_of (get_notification_counts ''a'' ?s1) ''c'' = Some 1
        \<and> fst (remove_notifications ''a'' ''c'' 5 ?s1)
        \<and> map_of (get_notification_counts ''a'' (snd (remove_notifications ''a'' ''c'' 5 ?s1))) ''c''
            = None
        \<and> \<not> fst (remove_notifications ''a'' ''c'' 5 (snd (remove_notifications ''a'' ''c'' 5 ?s1)))" .
  from t6 [THEN conjunct2, THEN conjunct2, THEN conjunct2, THEN conjunct2, THEN conjunct2,
      THEN conjunct1, THEN mp, OF a]
  have gone: "map_of (get_notification_counts ''a'' (snd (remove_notifications ''a'' ''c'' 5 ?s1)))
               ''c'' = None" .
  from h life gone show ?thesis by simp
qed

text \<open>
  Claim C7. A successful \<^verbatim>\<open>add_reaction\<close> leaves exactly one reaction row for the event,
  the symbol and the sender, and adding the same reaction again returns the same result
  and changes nothing; it succeeds whenever the event is stored and there is at most one
  such row. \<^verbatim>\<open>remove_reaction\<close> of a reaction that is not there succeeds and changes
  nothing, and after a successful removal no such row is left. Both return the stored event
  serialized with the reaction rows it has after the operation.
\<close>

theorem reactions_idempotent:
  "(add_reaction event rc u s = (Inr p, s1) \<longrightarrow>
      add_reaction event rc u s1 = (Inr p, s1)
      \<and> length (reaction_rows event rc u s1) = 1
      \<and> get_event (ev_id event) s1 = Inr (pe_event p)
      \<and> pe_reactions p = reactions_of (ev_id event) s1)
   \<and> (get_event (ev_id event) s = Inr e \<and> length (reaction_rows event rc u s) \<le> 1 \<longrightarrow>
        (\<exists>q t. add_reaction event rc u s = (Inr q, t)))
   \<and> (reaction_rows event rc u s = [] \<and> get_event (ev_id event) s = Inr e \<longrightarrow>
        remove_reaction event rc u s = (Inr (serialize_public e s), s))
   \<and> (remove_reaction event rc u s = (Inr p', s2) \<longrightarrow>
        reaction_rows event rc u s2 = []
        \<and> get_event (ev_id event) s2 = Inr (pe_event p')
        \<and> pe_reactions p' = reactions_of (ev_id event) s2)"
proof (intro conjI impI)
  assume a: "add_reaction event rc u s = (Inr p, s1)"
  show "add_reaction event rc u s1 = (Inr p, s1)" by (rule add_reaction_again [OF a])
  show "length (reaction_rows event rc u s1) = 1" by (rule add_reaction_result(1) [OF a])
  show "get_event (ev_id event) s1 = Inr (pe_event p)" by (rule add_reaction_result(2) [OF a])
  show "pe_reactions p = reactions_of (ev_id event) s1" by (rule add_reaction_result(3) [OF a])
next
  assume "get_event (ev_id event) s = Inr e \<and> length (reaction_rows event rc u s) \<le> 1"
  then show "\<exists>q t. add_reaction event rc u s = (Inr q, t)"
    using add_reaction_total [of event s e rc u] by blast
next
  assume "reaction_rows event rc u s = [] \<and> get_event (ev_id event) s = Inr e"
  then show "remove_reaction event rc u s = (Inr (serialize_public e s), s)"
    using remove_reaction_absent [of event rc u s e] by blast
next
  assume r: "remove_reaction event rc u s = (Inr p', s2)"
  show "reaction_rows event rc u s2 = []" by (rule remove_reaction_result(1) [OF r])
  show "get_event (ev_id event) s2 = Inr (pe_event p')" by (rule remove_reaction_result(2) [OF r])
  show "pe_reactions p' = reactions_of (ev_id event) s2" by (rule remove_reaction_result(3) [OF r])
qed

text \<open>
  A run of it on the event 5: \<open>a\<close> adds a reaction twice, and removes a reaction that is
  not there and one that is.
\<close>

theorem reactions_idempotent_witness:
  "add_reaction (ex_event 5) ''+1'' (ex_user ''a'') (ex_log [5] None)
     = (Inr \<lparr>pe_event = ex_event 5, pe_reactions = [ex_reaction]\<rparr>,
        (ex_log [5] None)\<lparr>reactions := [ex_reaction]\<rparr>)
   \<and> add_reaction (ex_event 5) ''+1'' (ex_user ''a'') ((ex_log [5] None)\<lparr>reactions := [ex_reaction]\<rparr>)
     = (Inr \<lparr>pe_event = ex_event 5, pe_reactions = [ex_reaction]\<rparr>,
        (ex_log [5] None)\<lparr>reactions := [ex_reaction]\<rparr>)
   \<and> reaction_rows (ex_event 5) ''+1'' (ex_user ''a'') (ex_log [5] None) = []
   \<and> get_event (ev_id (ex_event 5)) (ex_log [5] None) = Inr (ex_event 5)
   \<and> (\<exists>q t. add_reaction (ex_event 5) ''+1'' (ex_user ''a'') (ex_log [5] None) = (Inr q, t))
   \<and> remove_reaction (ex_event 5) ''+1'' (ex_user ''a'') (ex_log [5] None)
     = (Inr (serialize_public (ex_event 5) (ex_log [5] None)), ex_log [5] None)
   \<and> remove_reaction (ex_event 5) ''+1'' (ex_user ''a'')
       ((ex_log [5] None)\<lparr>reactions := [ex_reaction]\<rparr>)
     = (Inr \<lparr>pe_event = ex_event 5, pe_reactions = []\<rparr>, (ex_log [5] None)\<lparr>reactions := []\<rparr>)
   \<and> reaction_rows (ex_event 5) ''+1'' (ex_user ''a'') ((ex_log [5] None)\<lparr>reactions := []\<rparr>) = []"
proof -
  let ?s = "ex_log [5] None"
  let ?s1 = "?s\<lparr>reactions := [ex_reaction]\<rparr>"
  let ?p = "\<lparr>pe_event = ex_event 5, pe_reactions = [ex_reaction]\<rparr>"
  have a: "add_reaction (ex_event 5) ''+1'' (ex_user ''a'') ?s = (Inr ?p, ?s1)" by code_simp
  have n: "reaction_rows (ex_event 5) ''+1'' (ex_user ''a'') ?s = []
           \<and> get_event (ev_id (ex_event 5)) ?s = Inr (ex_event 5)" by code_simp
  have n': "get_event (ev_id (ex_event 5)) ?s = Inr (ex_event 5)
            \<and> length (reaction_rows (ex_event 5) ''+1'' (ex_user ''a'') ?s) \<le> 1" by code_simp
  have r: "remove_reaction (ex_event 5) ''+1'' (ex_user ''a'') ?s1
           = (Inr \<lparr>pe_event = ex_event 5, pe_reactions = []\<rparr>, ?s\<lparr>reactions := []\<rparr>)"
    by code_simp
  note t = reactions_idempotent [where event = "ex_event 5" and rc = "''+1''" and u = "ex_user ''a''"]
  from t [where s = ?s and p = ?p and ?s1.0 = ?s1, THEN conjunct1, THEN mp, OF a]
  have again: "add_reaction (ex_event 5) ''+1'' (ex_user ''a'') ?s1 = (Inr ?p, ?s1)"
    by (rule conjunct1)
  from t [where s = ?s and e = "ex_event 5", THEN conjunct2, THEN conjunct1, THEN mp, OF n']
  have total: "\<exists>q t. add_reaction (ex_event 5) ''+1'' (ex_user ''a'') ?s = (Inr q, t)" .
  from t [where s = ?s and e = "ex_event 5", THEN conjunct2, THEN conjunct2, THEN conjunct1,
      THEN mp, OF n]
  have absent: "remove_reaction (ex_event 5) ''+1'' (ex_user ''a'') ?s
                = (Inr (serialize_public (ex_event 5) ?s), ?s)" .
  from t [where s = ?s1 and p' = "\<lparr>pe_event = ex_event 5, pe_reactions = []\<rparr>"
      and ?s2.0 = "?s\<lparr>reactions := []\<rparr>", THEN conjunct2, THEN conjunct2, THEN conjunct2,
      THEN mp, OF r]
  have gone: "reaction_rows (ex_event 5) ''+1'' (ex_user ''a'') (?s\<lparr>reactions := []\<rparr>) = []"
    by (rule conjunct1)
  from n have n1: "reaction_rows (ex_event 5) ''+1'' (ex_user ''a'') ?s = []"
    and n2: "get_event (ev_id (ex_event 5)) ?s = Inr (ex_event 5)" by simp_all
  show ?thesis by (intro conjI a again n1 n2 total absent r gone)
qed

section \<open>Editing\<close>

text \<open>
  Claim C9. A successful \<^verbatim>\<open>update_event\<close> writes the new content and the time of the edit
  into the stored rows with the event's id and leaves every row's id, channel, event type,
  sender and replaced event as they were; it appends one audit entry that holds the
  serialized event before and after the edit, with \<^verbatim>\<open>by_same_user\<close> false whoever the
  editor is; nothing else changes, and a failed call changes nothing. No other operation of the service changes a stored event: the other
  operations leave the event table as it is, or only append to it.
\<close>

theorem update_event_frame:
  "(update_event w event nc by_user now s = (Inr (), s') \<longrightarrow>
      events s' = map (\<lambda>e. if ev_id e = ev_id event
                            then e\<lparr>ev_content := nc, edited := Some now\<rparr> else e) (events s)
      \<and> map ev_id (events s') = map ev_id (events s)
      \<and> map ev_channel (events s') = map ev_channel (events s)
      \<and> map event_type (events s') = map event_type (events s)
      \<and> map sender (events s') = map sender (events s)
      \<and> map replaces (events s') = map replaces (events s)
      \<and> audit_log s' = audit_log s @
           [\<lparr>a_world = world_pk w, a_user = uid by_user, a_type = ''chat.event.updated'',
             a_object = ev_id event, a_by_same_user = False,
             a_old = serialize_public event s,
             a_new = serialize_public (event\<lparr>ev_content := nc, edited := Some now\<rparr>) s\<rparr>]
      \<and> s' = s\<lparr>events := events s', audit_log := audit_log s'\<rparr>)
   \<and> (update_event w event nc by_user now s = (Inl err, s') \<longrightarrow> s' = s)
   \<and> events (snd (add_channel_user cid u vol s)) = events s
   \<and> events (remove_channel_user cid v s) = events s
   \<and> events (hide_channel_user cid v s) = events s
   \<and> events (snd (show_channels_to_hidden_users cid s)) = events s
   \<and> events (snd (add_reaction event rc u s)) = events s
   \<and> events (snd (remove_reaction event rc u s)) = events s
   \<and> events (store_notification i vs s) = events s
   \<and> events (snd (remove_notifications v cid mx s)) = events s
   \<and> events (snd (get_or_create_direct_channel x w ids hide he s)) = events s
   \<and> events_kept s (snd (snd (store_event x w ch i etype c u rep s)))
   \<and> events_kept s (snd (create_event x w ch etype c u rep retry s))
   \<and> events_kept s (snd (enforce_forced_joins x w u s))"
proof -
  have ok: "events s' = map (\<lambda>e. if ev_id e = ev_id event
                            then e\<lparr>ev_content := nc, edited := Some now\<rparr> else e) (events s)
      \<and> map ev_id (events s') = map ev_id (events s)
      \<and> map ev_channel (events s') = map ev_channel (events s)
      \<and> map event_type (events s') = map event_type (events s)
      \<and> map sender (events s') = map sender (events s)
      \<and> map replaces (events s') = map replaces (events s)
      \<and> audit_log s' = audit_log s @
           [\<lparr>a_world = world_pk w, a_user = uid by_user, a_type = ''chat.event.updated'',
             a_object = ev_id event, a_by_same_user = False,
             a_old = serialize_public event s,
             a_new = serialize_public (event\<lparr>ev_content := nc, edited := Some now\<rparr>) s\<rparr>]
      \<and> s' = s\<lparr>events := events s', audit_log := audit_log s'\<rparr>"
    if u: "update_event w event nc by_user now s = (Inr (), s')"
  proof -
    note r = update_event_ok [OF u]
    show ?thesis
      unfolding r(1)
      by (intro conjI refl map_keep_field r(2) r(3) [unfolded r(1)]) simp_all
  qed
  have c1: "update_event w event nc by_user now s = (Inr (), s') \<longrightarrow>
      events s' = map (\<lambda>e. if ev_id e = ev_id event
                            then e\<lparr>ev_content := nc, edited := Some now\<rparr> else e) (events s)
      \<and> map ev_id (events s') = map ev_id (events s)
      \<and> map ev_channel (events s') = map ev_channel (events s)
      \<and> map event_type (events s') = map event_type (events s)
      \<and> map sender (events s') = map sender (events s)
      \<and> map replaces (events s') = map replaces (events s)
      \<and> audit_log s' = audit_log s @
           [\<lparr>a_world = world_pk w, a_user = uid by_user, a_type = ''chat.event.updated'',
             a_object = ev_id event, a_by_same_user = False,
             a_old = serialize_public event s,
             a_new = serialize_public (event\<lparr>ev_content := nc, edited := Some now\<rparr>) s\<rparr>]
      \<and> s' = s\<lparr>events := events s', audit_log := audit_log s'\<rparr>"
    by (rule impI) (rule ok)
  have c2: "update_event w event nc by_user now s = (Inl err, s') \<longrightarrow> s' = s"
    by (rule impI) (rule update_event_failed)
  have c3: "events (remove_channel_user cid v s) = events s"
    by (simp add: remove_channel_user_def)
  have c4: "events (hide_channel_user cid v s) = events s"
    by (simp add: hide_channel_user_def)
  have c5: "events (snd (show_channels_to_hidden_users cid s)) = events s"
    by (simp add: show_channels_to_hidden_users_def)
  have c6: "events (store_notification i vs s) = events s"
    by (simp add: store_notification_def)
  have c7: "events (snd (remove_notifications v cid mx s)) = events s"
    by (simp add: remove_notifications_def Let_def)
  have c8: "events_kept s (snd (snd (store_event x w ch i etype c u rep s)))"
    by (rule log_step_fields(10) [OF log_step_store])
  have c9: "events_kept s (snd (create_event x w ch etype c u rep retry s))"
    by (rule log_step_fields(10) [OF log_step_create_event])
  show ?thesis
    by (intro conjI c1 c2 c3 c4 c5 c6 c7 c8 c9 add_channel_user_events add_reaction_events
        remove_reaction_events direct_channel_events enforce_forced_joins_kept)
qed

text \<open>A run of it: the event 5 is edited; an edit of the event 9, which is not stored, fails.\<close>

theorem update_event_frame_witness:
  "update_event ex_world (ex_event 5) [(''body'', JStr ''x'')] (ex_user ''a'') 7 (ex_log [5] None)
     = (Inr (), (ex_log [5] None)\<lparr>events := [ex_edited], audit_log := [ex_audit]\<rparr>)
   \<and> map ev_id [ex_edited] = map ev_id (events (ex_log [5] None))
   \<and> map replaces [ex_edited] = map replaces (events (ex_log [5] None))
   \<and> update_event ex_world (ex_event 9) [(''body'', JStr ''x'')] (ex_user ''a'') 7 (ex_log [5] None)
     = (Inl DatabaseError, ex_log [5] None)"
proof -
  let ?s = "ex_log [5] None"
  let ?s' = "?s\<lparr>events := [ex_edited], audit_log := [ex_audit]\<rparr>"
  have ok: "update_event ex_world (ex_event 5) [(''body'', JStr ''x'')] (ex_user ''a'') 7 ?s
            = (Inr (), ?s')"
    by code_simp
  have bad: "update_event ex_world (ex_event 9) [(''body'', JStr ''x'')] (ex_user ''a'') 7 ?s
            = (Inl DatabaseError, ?s)"
    by code_simp
  note t = update_event_frame [where w = ex_world and nc = "[(''body'', JStr ''x'')]"
      and by_user = "ex_user ''a''" and now = 7 and s = ?s]
  from t [where event = "ex_event 5" and s' = ?s', THEN conjunct1, THEN mp, OF ok]
  have "map ev_id (events ?s') = map ev_id (events ?s)"
    and "map replaces (events ?s') = map replaces (events ?s)" by simp_all
  then have ids: "map ev_id [ex_edited] = map ev_id (events ?s)"
    and reps: "map replaces [ex_edited] = map replaces (events ?s)" by simp_all
  from t [where event = "ex_event 9" and err = DatabaseError and s' = ?s, THEN conjunct2,
      THEN conjunct1, THEN mp, OF bad]
  have "?s = ?s" .
  show ?thesis by (intro conjI ok ids reps bad)
qed

section \<open>Forced joins\<close>

text \<open>
  Claim C8. \<^verbatim>\<open>enforce_forced_joins\<close> does nothing for a user without a display name, and
  for a user with one it is the loop over the channels found. The channels found are the
  channels of the world whose room is flagged \<^verbatim>\<open>force_join\<close> and in which the user has no
  membership that is not volatile. In the loop a channel whose room the permission oracle
  denies is skipped; for a channel in which the user has a membership row already, the
  row is made non-volatile and nothing else changes, so no event is made; for a stored
  channel in which the stored user has no row, the row is created and, when the join event
  is stored, that \<^verbatim>\<open>channel.member\<close> event of the user is sent to the channel, the channel
  list is broadcast and the user is marked for unread notification; when the join event
  cannot be stored, or the new row refers to a channel or a user that is not stored, the
  run ends with the error.

  Of every run, successful or not: the messages it hands to the transport are broadcasts
  of the user's channel list and join events of the user, each sent to a channel that was
  found and permitted and in which the user had no membership row before the run; so no
  join event is sent to a channel in which the user had a row. With no other worker at
  work, the events the run appends to the log are the events it has sent, in that order.
  Of a successful run: the user is a non-volatile member of every channel found and
  permitted, and for each of them in which the user had no row, the join event is stored
  and was sent to the channel, the channel list was broadcast and the user is marked for
  unread notification. When the oracle denies every channel found, nothing changes. After a
  run that has succeeded, a second run changes nothing; and a run never makes a second
  membership row for a channel and a user.
\<close>

theorem enforce_forced_joins_idempotent:
  "(\<not> truthy (map_of (profile u) ''display_name'') \<longrightarrow>
      enforce_forced_joins x w u s = (Inr (), s))
   \<and> (truthy (map_of (profile u) ''display_name'') \<longrightarrow>
        enforce_forced_joins x w u s
        = enforce_loop x w u (get_channels_to_join_forced w u s) s)
   \<and> ((c, rm) \<in> set (get_channels_to_join_forced w u s) \<longleftrightarrow>
        c \<in> set (channels s) \<and> channel_world c = world_pk w
        \<and> (\<exists>r. channel_room c = Some r \<and> room_row r s = Some rm)
        \<and> force_join rm \<and> \<not> joined u (channel_pk c) s)
   \<and> enforce_loop x w u [] s = (Inr (), s)
   \<and> (\<not> has_permission w u ROOM_CHAT_JOIN (Some rm) \<longrightarrow>
        enforce_loop x w u ((ch, rm) # rest) s = enforce_loop x w u rest s)
   \<and> (has_permission w u ROOM_CHAT_JOIN (Some rm)
        \<and> member_rows (channel_pk ch) (uid u) s = [m] \<longrightarrow>
        (\<exists>t. enforce_loop x w u ((ch, rm) # rest) s = enforce_loop x w u rest t
              \<and> t = s\<lparr>memberships := memberships t\<rparr>
              \<and> map (\<lambda>m. (m_channel m, m_user m)) (memberships t)
                  = map (\<lambda>m. (m_channel m, m_user m)) (memberships s)
              \<and> joined u (channel_pk ch) t))
   \<and> (has_permission w u ROOM_CHAT_JOIN (Some rm)
        \<and> member_rows (channel_pk ch) (uid u) s = []
        \<and> channel_pk ch \<in> channel_pk ` set (channels s) \<and> uid u \<in> uid ` set (users s)
        \<and> create_event x w ch ''channel.member'' (join_content x w u) u None False
             (s\<lparr>memberships := memberships s @
                  [\<lparr>m_channel = channel_pk ch, m_user = uid u, volatile = False, hidden = False\<rparr>]\<rparr>)
           = (Inr ev, s2) \<longrightarrow>
        enforce_loop x w u ((ch, rm) # rest) s =
          enforce_loop x w u rest
            (unread_notify_add (channel_pk ch) (uid u)
               (broadcast_channel_list x w u ''dummysocket'' (group_send (channel_pk ch) ev s2)))
        \<and> event_type (pe_event ev) = ''channel.member''
        \<and> ev_content (pe_event ev) = join_content x w u
        \<and> ev_channel (pe_event ev) = channel_pk ch
        \<and> sender (pe_event ev) = uid u
        \<and> pe_event ev \<in> set (events s2))
   \<and> (has_permission w u ROOM_CHAT_JOIN (Some rm)
        \<and> member_rows (channel_pk ch) (uid u) s = []
        \<and> channel_pk ch \<in> channel_pk ` set (channels s) \<and> uid u \<in> uid ` set (users s)
        \<and> create_event x w ch ''channel.member'' (join_content x w u) u None False
             (s\<lparr>memberships := memberships s @
                  [\<lparr>m_channel = channel_pk ch, m_user = uid u, volatile = False, hidden = False\<rparr>]\<rparr>)
           = (Inl e, s2) \<longrightarrow>
        enforce_loop x w u ((ch, rm) # rest) s = (Inl e, s2))
   \<and> (has_permission w u ROOM_CHAT_JOIN (Some rm)
        \<and> member_rows (channel_pk ch) (uid u) s = []
        \<and> (channel_pk ch \<notin> channel_pk ` set (channels s) \<or> uid u \<notin> uid ` set (users s)) \<longrightarrow>
        enforce_loop x w u ((ch, rm) # rest) s = (Inl (IntegrityError Foreign_key), s))
   \<and> sent (snd (enforce_forced_joins x w u s))
       = sent s @ sent_by s (snd (enforce_forced_joins x w u s))
   \<and> list_all (join_message x w u (permitted w u (get_channels_to_join_forced w u s)) s)
       (sent_by s (snd (enforce_forced_joins x w u s)))
   \<and> (member_rows cid (uid u) s \<noteq> [] \<longrightarrow>
        Group_send cid ev \<notin> set (sent_by s (snd (enforce_forced_joins x w u s))))
   \<and> (pending s = [] \<longrightarrow>
        events (snd (enforce_forced_joins x w u s))
        = events s @ sent_events (sent_by s (snd (enforce_forced_joins x w u s))))
   \<and> (enforce_forced_joins x w u s = (Inr (), s1)
        \<and> truthy (map_of (profile u) ''display_name'')
        \<and> (c, rm) \<in> set (get_channels_to_join_forced w u s)
        \<and> has_permission w u ROOM_CHAT_JOIN (Some rm) \<longrightarrow>
        joined u (channel_pk c) s1
        \<and> (member_rows (channel_pk c) (uid u) s = [] \<longrightarrow>
             (\<exists>ev. Group_send (channel_pk c) ev \<in> set (sent_by s s1)
                    \<and> pe_event ev \<in> set (events s1))
             \<and> (\<exists>entries. User_broadcast ''chat.channels'' entries (uid u) ''dummysocket''
                             \<in> set (sent_by s s1))
             \<and> (channel_pk c, uid u) \<in> set (unread_notify s1)))
   \<and> ((\<forall>(c, rm)\<in>set (get_channels_to_join_forced w u s).
          \<not> has_permission w u ROOM_CHAT_JOIN (Some rm)) \<longrightarrow>
        enforce_forced_joins x w u s = (Inr (), s))
   \<and> (enforce_forced_joins x w u s = (Inr (), s1) \<longrightarrow>
        enforce_forced_joins x w u s1 = (Inr (), s1))
   \<and> (unique_members s \<longrightarrow> unique_members (snd (enforce_forced_joins x w u s)))"
proof -
  have c1: "\<not> truthy (map_of (profile u) ''display_name'') \<longrightarrow>
      enforce_forced_joins x w u s = (Inr (), s)"
    by (simp add: enforce_forced_joins_def)
  have c2: "truthy (map_of (profile u) ''display_name'') \<longrightarrow>
        enforce_forced_joins x w u s
        = enforce_loop x w u (get_channels_to_join_forced w u s) s"
    by (rule impI) (rule enforce_forced_joins_loop)
  have c3: "\<not> has_permission w u ROOM_CHAT_JOIN (Some rm) \<longrightarrow>
        enforce_loop x w u ((ch, rm) # rest) s = enforce_loop x w u rest s"
    by (rule impI) (rule enforce_loop_skip)
  have c4: "has_permission w u ROOM_CHAT_JOIN (Some rm)
        \<and> member_rows (channel_pk ch) (uid u) s = [m] \<longrightarrow>
        (\<exists>t. enforce_loop x w u ((ch, rm) # rest) s = enforce_loop x w u rest t
              \<and> t = s\<lparr>memberships := memberships t\<rparr>
              \<and> map (\<lambda>m. (m_channel m, m_user m)) (memberships t)
                  = map (\<lambda>m. (m_channel m, m_user m)) (memberships s)
              \<and> joined u (channel_pk ch) t)"
    using enforce_loop_member [of w u rm ch s m x rest] by blast
  have c5: "has_permission w u ROOM_CHAT_JOIN (Some rm)
        \<and> member_rows (channel_pk ch) (uid u) s = []
        \<and> channel_pk ch \<in> channel_pk ` set (channels s) \<and> uid u \<in> uid ` set (users s)
        \<and> create_event x w ch ''channel.member'' (join_content x w u) u None False
             (s\<lparr>memberships := memberships s @
                  [\<lparr>m_channel = channel_pk ch, m_user = uid u, volatile = False, hidden = False\<rparr>]\<rparr>)
           = (Inr ev, s2) \<longrightarrow>
        enforce_loop x w u ((ch, rm) # rest) s =
          enforce_loop x w u rest
            (unread_notify_add (channel_pk ch) (uid u)
               (broadcast_channel_list x w u ''dummysocket'' (group_send (channel_pk ch) ev s2)))
        \<and> event_type (pe_event ev) = ''channel.member''
        \<and> ev_content (pe_event ev) = join_content x w u
        \<and> ev_channel (pe_event ev) = channel_pk ch
        \<and> sender (pe_event ev) = uid u
        \<and> pe_event ev \<in> set (events s2)"
  proof (intro impI, elim conjE)
    assume p: "has_permission w u ROOM_CHAT_JOIN (Some rm)"
      and n: "member_rows (channel_pk ch) (uid u) s = []"
      and st: "channel_pk ch \<in> channel_pk ` set (channels s)" "uid u \<in> uid ` set (users s)"
      and e: "create_event x w ch ''channel.member'' (join_content x w u) u None False
             (s\<lparr>memberships := memberships s @
                  [\<lparr>m_channel = channel_pk ch, m_user = uid u, volatile = False, hidden = False\<rparr>]\<rparr>)
           = (Inr ev, s2)"
    note f = create_event_Inr [OF e]
    from enforce_loop_new(1) [OF p n st e] f(1) f(5) [OF join_content_plain] f(2) f(3) f(4)
    show "enforce_loop x w u ((ch, rm) # rest) s =
          enforce_loop x w u rest
            (unread_notify_add (channel_pk ch) (uid u)
               (broadcast_channel_list x w u ''dummysocket'' (group_send (channel_pk ch) ev s2)))
        \<and> event_type (pe_event ev) = ''channel.member''
        \<and> ev_content (pe_event ev) = join_content x w u
        \<and> ev_channel (pe_event ev) = channel_pk ch
        \<and> sender (pe_event ev) = uid u
        \<and> pe_event ev \<in> set (events s2)"
      by blast
  qed
  have c6: "has_permission w u ROOM_CHAT_JOIN (Some rm)
        \<and> member_rows (channel_pk ch) (uid u) s = []
        \<and> channel_pk ch \<in> channel_pk ` set (channels s) \<and> uid u \<in> uid ` set (users s)
        \<and> create_event x w ch ''channel.member'' (join_content x w u) u None False
             (s\<lparr>memberships := memberships s @
                  [\<lparr>m_channel = channel_pk ch, m_user = uid u, volatile = False, hidden = False\<rparr>]\<rparr>)
           = (Inl e, s2) \<longrightarrow>
        enforce_loop x w u ((ch, rm) # rest) s = (Inl e, s2)"
    using enforce_loop_new(2) [of w u rm ch s x e s2 rest] by blast
  have c7: "has_permission w u ROOM_CHAT_JOIN (Some rm)
        \<and> member_rows (channel_pk ch) (uid u) s = []
        \<and> (channel_pk ch \<notin> channel_pk ` set (channels s) \<or> uid u \<notin> uid ` set (users s)) \<longrightarrow>
        enforce_loop x w u ((ch, rm) # rest) s = (Inl (IntegrityError Foreign_key), s)"
    using enforce_loop_refused [of w u rm ch s x rest] by blast
  have c8: "sent (snd (enforce_forced_joins x w u s))
       = sent s @ sent_by s (snd (enforce_forced_joins x w u s))"
    and c9: "list_all (join_message x w u (permitted w u (get_channels_to_join_forced w u s)) s)
       (sent_by s (snd (enforce_forced_joins x w u s)))"
    using enforce_forced_joins_sends [of x w u s] by simp_all
  have c10: "member_rows cid (uid u) s \<noteq> [] \<longrightarrow>
        Group_send cid ev \<notin> set (sent_by s (snd (enforce_forced_joins x w u s)))"
    by (rule impI) (rule enforce_forced_joins_only_new)
  have c11: "pending s = [] \<longrightarrow>
        events (snd (enforce_forced_joins x w u s))
        = events s @ sent_events (sent_by s (snd (enforce_forced_joins x w u s)))"
    by (rule impI) (rule enforce_forced_joins_quiet)
  have c12: "enforce_forced_joins x w u s = (Inr (), s1)
        \<and> truthy (map_of (profile u) ''display_name'')
        \<and> (c, rm) \<in> set (get_channels_to_join_forced w u s)
        \<and> has_permission w u ROOM_CHAT_JOIN (Some rm) \<longrightarrow>
        joined u (channel_pk c) s1
        \<and> (member_rows (channel_pk c) (uid u) s = [] \<longrightarrow>
             (\<exists>ev. Group_send (channel_pk c) ev \<in> set (sent_by s s1)
                    \<and> pe_event ev \<in> set (events s1))
             \<and> (\<exists>entries. User_broadcast ''chat.channels'' entries (uid u) ''dummysocket''
                             \<in> set (sent_by s s1))
             \<and> (channel_pk c, uid u) \<in> set (unread_notify s1))"
    using enforce_forced_joins_announces [of x w u s s1 c rm] by blast
  have c13: "(\<forall>(c, rm)\<in>set (get_channels_to_join_forced w u s).
          \<not> has_permission w u ROOM_CHAT_JOIN (Some rm)) \<longrightarrow>
        enforce_forced_joins x w u s = (Inr (), s)"
    by (rule impI) (rule enforce_forced_joins_denied)
  have c14: "enforce_forced_joins x w u s = (Inr (), s1) \<longrightarrow>
        enforce_forced_joins x w u s1 = (Inr (), s1)"
    by (rule impI) (rule enforce_forced_joins_again)
  have c15: "unique_members s \<longrightarrow> unique_members (snd (enforce_forced_joins x w u s))"
    by (rule impI) (rule enforce_forced_joins_unique)
  show ?thesis
    by (intro conjI c1 c2 candidates_iff enforce_loop.simps(1) c3 c4 c5 c6 c7 c8 c9 c10 c11 c12
        c13 c14 c15)
qed

text \<open>
  Runs of it in a world with one room that forces joins: a user without a display name, a
  world whose oracle denies everything, a volatile member, a user who is not stored, a
  join whose event cannot be stored, and the user \<open>a\<close>, who is joined by the first run
  and left alone by the second.
\<close>

theorem enforce_forced_joins_idempotent_witness:
  "enforce_forced_joins ex_ext ex_world ((ex_user ''a'')\<lparr>profile := []\<rparr>) ex_forced
     = (Inr (), ex_forced)
   \<and> enforce_loop ex_ext ex_world (ex_user ''a'')
        (get_channels_to_join_forced ex_world (ex_user ''a'') ex_forced) ex_forced
     = (Inr (), ex_forced_done)
   \<and> enforce_loop ex_ext ex_closed_world (ex_user ''a'') [(ex_room_channel, ex_room)] ex_forced
     = (Inr (), ex_forced)
   \<and> enforce_forced_joins ex_ext ex_closed_world (ex_user ''a'') ex_forced = (Inr (), ex_forced)
   \<and> (\<exists>t. enforce_loop ex_ext ex_world (ex_user ''a'') [(ex_room_channel, ex_room)]
              (ex_forced\<lparr>memberships := [ex_member ''rc'' ''a'' True]\<rparr>) = (Inr (), t)
            \<and> t = (ex_forced\<lparr>memberships := [ex_member ''rc'' ''a'' True]\<rparr>)
                    \<lparr>memberships := memberships t\<rparr>
            \<and> joined (ex_user ''a'') ''rc'' t)
   \<and> Group_send ''rc'' ex_join
       \<notin> set (sent_by (ex_forced\<lparr>memberships := [ex_member ''rc'' ''a'' True]\<rparr>)
                (snd (enforce_forced_joins ex_ext ex_world (ex_user ''a'')
                        (ex_forced\<lparr>memberships := [ex_member ''rc'' ''a'' True]\<rparr>))))
   \<and> create_event ex_ext ex_world ex_room_channel ''channel.member''
        (join_content ex_ext ex_world (ex_user ''a'')) (ex_user ''a'') None False
        (ex_forced\<lparr>memberships := [ex_member ''rc'' ''a'' False]\<rparr>)
      = (Inr ex_join,
         ex_forced\<lparr>memberships := [ex_member ''rc'' ''a'' False], events := [pe_event ex_join],
                    event_counter := Some 1\<rparr>)
   \<and> event_type (pe_event ex_join) = ''channel.member''
   \<and> enforce_loop ex_ext ex_world (ex_user ''a'') [(ex_room_channel, ex_room)] ex_forced_busy
     = (Inl (ValueError ''unable to recover in store_event''),
        ex_forced_busy\<lparr>memberships := [ex_member ''rc'' ''a'' False],
                        event_counter := Some 2, pending := []\<rparr>)
   \<and> enforce_loop ex_ext ex_world (ex_user ''z'') [(ex_room_channel, ex_room)] ex_forced
     = (Inl (IntegrityError Foreign_key), ex_forced)
   \<and> enforce_forced_joins ex_ext ex_world (ex_user ''a'') ex_forced = (Inr (), ex_forced_done)
   \<and> sent_by ex_forced ex_forced_done
     = [Group_send ''rc'' ex_join,
        User_broadcast ''chat.channels''
          [\<lparr>ce_id = ''rc'', ce_unread_pointer = 0, ce_members = None\<rparr>] ''a'' ''dummysocket'']
   \<and> events ex_forced_done = events ex_forced @ sent_events (sent_by ex_forced ex_forced_done)
   \<and> joined (ex_user ''a'') ''rc'' ex_forced_done
   \<and> (\<exists>ev. Group_send ''rc'' ev \<in> set (sent_by ex_forced ex_forced_done)
            \<and> pe_event ev \<in> set (events ex_forced_done))
   \<and> (''rc'', ''a'') \<in> set (unread_notify ex_forced_done)
   \<and> enforce_forced_joins ex_ext ex_world (ex_user ''a'') ex_forced_done
     = (Inr (), ex_forced_done)
   \<and> unique_members ex_forced
   \<and> unique_members (snd (enforce_forced_joins ex_ext ex_world (ex_user ''a'') ex_forced))"
proof -
  let ?a = "ex_user ''a''"
  let ?z = "ex_user ''z''"
  let ?v = "ex_forced\<lparr>memberships := [ex_member ''rc'' ''a'' True]\<rparr>"
  let ?n = "ex_forced\<lparr>memberships := [ex_member ''rc'' ''a'' False]\<rparr>"
  let ?s2 = "ex_forced\<lparr>memberships := [ex_member ''rc'' ''a'' False], events := [pe_event ex_join],
                    event_counter := Some 1\<rparr>"
  let ?b2 = "ex_forced_busy\<lparr>memberships := [ex_member ''rc'' ''a'' False],
                        event_counter := Some 2, pending := []\<rparr>"
  note t = enforce_forced_joins_idempotent [where x = ex_ext and ch = ex_room_channel
      and rm = ex_room and rest = "[]" and c = ex_room_channel]
  have rc: "channel_pk ex_room_channel = ''rc''" by (simp add: ex_room_channel_def)
  have ua: "uid ?a = ''a''" by (simp add: ex_user_def)
  have h1: "\<not> truthy (map_of (profile (?a\<lparr>profile := []\<rparr>)) ''display_name'')" by code_simp
  from t [where u = "?a\<lparr>profile := []\<rparr>" and w = ex_world and s = ex_forced,
      THEN conjunct1, THEN mp, OF h1]
  have r1: "enforce_forced_joins ex_ext ex_world (?a\<lparr>profile := []\<rparr>) ex_forced
            = (Inr (), ex_forced)" .
  have h7: "enforce_forced_joins ex_ext ex_world ?a ex_forced = (Inr (), ex_forced_done)"
    by code_simp
  have h2: "truthy (map_of (profile ?a) ''display_name'')" by code_simp
  from t [where u = ?a and w = ex_world and s = ex_forced, THEN conjunct2, THEN conjunct1, THEN mp, OF h2]
  have r2: "enforce_loop ex_ext ex_world ?a (get_channels_to_join_forced ex_world ?a ex_forced)
              ex_forced = (Inr (), ex_forced_done)"
    by (simp only: h7)
  have h3: "\<not> has_permission ex_closed_world ?a ROOM_CHAT_JOIN (Some ex_room)" by code_simp
  from t [where u = ?a and w = ex_closed_world and s = ex_forced, THEN conjunct2, THEN conjunct2, THEN conjunct2, THEN conjunct2, THEN conjunct1, THEN mp, OF h3]
  have r3: "enforce_loop ex_ext ex_closed_world ?a [(ex_room_channel, ex_room)] ex_forced
            = (Inr (), ex_forced)" by (simp only: enforce_loop.simps(1))
  have h15: "\<forall>(c, rm)\<in>set (get_channels_to_join_forced ex_closed_world ?a ex_forced).
              \<not> has_permission ex_closed_world ?a ROOM_CHAT_JOIN (Some rm)" by code_simp
  from t [where u = ?a and w = ex_closed_world and s = ex_forced, THEN conjunct2, THEN conjunct2, THEN conjunct2, THEN conjunct2, THEN conjunct2, THEN conjunct2, THEN conjunct2, THEN conjunct2, THEN conjunct2, THEN conjunct2, THEN conjunct2, THEN conjunct2, THEN conjunct2, THEN conjunct2, THEN conjunct1, THEN mp, OF h15]
  have r15: "enforce_forced_joins ex_ext ex_closed_world ?a ex_forced = (Inr (), ex_forced)" .
  have h6: "has_permission ex_world ?a ROOM_CHAT_JOIN (Some ex_room)
            \<and> member_rows (channel_pk ex_room_channel) (uid ?a) ?v = [ex_member ''rc'' ''a'' True]"
    by code_simp
  from t [where u = ?a and w = ex_world and s = ?v and m = "ex_member ''rc'' ''a'' True",
      THEN conjunct2, THEN conjunct2, THEN conjunct2, THEN conjunct2, THEN conjunct2, THEN conjunct1, THEN mp, OF h6]
  obtain t' where e6: "enforce_loop ex_ext ex_world ?a [(ex_room_channel, ex_room)] ?v
                       = enforce_loop ex_ext ex_world ?a [] t'"
    and f6: "t' = ?v\<lparr>memberships := memberships t'\<rparr>"
    and j6: "joined ?a (channel_pk ex_room_channel) t'" by (elim exE conjE)
  from e6 have e6': "enforce_loop ex_ext ex_world ?a [(ex_room_channel, ex_room)] ?v = (Inr (), t')"
    by (simp only: enforce_loop.simps(1))
  from j6 have j6': "joined ?a ''rc'' t'" by (simp only: rc)
  from e6' f6 j6'
  have r6: "\<exists>t. enforce_loop ex_ext ex_world ?a [(ex_room_channel, ex_room)] ?v = (Inr (), t)
            \<and> t = ?v\<lparr>memberships := memberships t\<rparr>
            \<and> joined ?a ''rc'' t"
    by (intro exI [of _ t'] conjI)
  have h12: "member_rows ''rc'' (uid ?a) ?v \<noteq> []" by code_simp
  from t [where u = ?a and w = ex_world and s = ?v and cid = "''rc''" and ev = ex_join,
      THEN conjunct2, THEN conjunct2, THEN conjunct2, THEN conjunct2, THEN conjunct2, THEN conjunct2, THEN conjunct2, THEN conjunct2, THEN conjunct2, THEN conjunct2, THEN conjunct2, THEN conjunct1, THEN mp, OF h12]
  have r12: "Group_send ''rc'' ex_join
             \<notin> set (sent_by ?v (snd (enforce_forced_joins ex_ext ex_world ?a ?v)))" .
  have h5: "has_permission ex_world ?a ROOM_CHAT_JOIN (Some ex_room)
            \<and> member_rows (channel_pk ex_room_channel) (uid ?a) ex_forced = []
            \<and> channel_pk ex_room_channel \<in> channel_pk ` set (channels ex_forced)
            \<and> uid ?a \<in> uid ` set (users ex_forced)
            \<and> create_event ex_ext ex_world ex_room_channel ''channel.member''
                 (join_content ex_ext ex_world ?a) ?a None False
                 (ex_forced\<lparr>memberships := memberships ex_forced @
                     [\<lparr>m_channel = channel_pk ex_room_channel, m_user = uid ?a,
                       volatile = False, hidden = False\<rparr>]\<rparr>)
               = (Inr ex_join, ?s2)"
    by code_simp
  from t [where u = ?a and w = ex_world and s = ex_forced and ev = ex_join and ?s2.0 = ?s2,
      THEN conjunct2, THEN conjunct2, THEN conjunct2, THEN conjunct2, THEN conjunct2, THEN conjunct2, THEN conjunct1, THEN mp, OF h5]
  have r7: "event_type (pe_event ex_join) = ''channel.member''" by (elim conjE)
  have c7: "create_event ex_ext ex_world ex_room_channel ''channel.member''
        (join_content ex_ext ex_world ?a) ?a None False ?n = (Inr ex_join, ?s2)"
    by code_simp
  have h8: "has_permission ex_world ?a ROOM_CHAT_JOIN (Some ex_room)
            \<and> member_rows (channel_pk ex_room_channel) (uid ?a) ex_forced_busy = []
            \<and> channel_pk ex_room_channel \<in> channel_pk ` set (channels ex_forced_busy)
            \<and> uid ?a \<in> uid ` set (users ex_forced_busy)
            \<and> create_event ex_ext ex_world ex_room_channel ''channel.member''
                 (join_content ex_ext ex_world ?a) ?a None False
                 (ex_forced_busy\<lparr>memberships := memberships ex_forced_busy @
                     [\<lparr>m_channel = channel_pk ex_room_channel, m_user = uid ?a,
                       volatile = False, hidden = False\<rparr>]\<rparr>)
               = (Inl (ValueError ''unable to recover in store_event''), ?b2)"
    by code_simp
  from t [where u = ?a and w = ex_world and s = ex_forced_busy
        and e = "ValueError ''unable to recover in store_event''" and ?s2.0 = ?b2,
      THEN conjunct2, THEN conjunct2, THEN conjunct2, THEN conjunct2, THEN conjunct2, THEN conjunct2, THEN conjunct2, THEN conjunct1, THEN mp, OF h8]
  have r8: "enforce_loop ex_ext ex_world ?a [(ex_room_channel, ex_room)] ex_forced_busy
            = (Inl (ValueError ''unable to recover in store_event''), ?b2)" .
  have h9: "has_permission ex_world ?z ROOM_CHAT_JOIN (Some ex_room)
            \<and> member_rows (channel_pk ex_room_channel) (uid ?z) ex_forced = []
            \<and> (channel_pk ex_room_channel \<notin> channel_pk ` set (channels ex_forced)
                \<or> uid ?z \<notin> uid ` set (users ex_forced))"
    by code_simp
  from t [where u = ?z and w = ex_world and s = ex_forced, THEN conjunct2, THEN conjunct2, THEN conjunct2, THEN conjunct2, THEN conjunct2, THEN conjunct2, THEN conjunct2, THEN conjunct2, THEN conjunct1, THEN mp, OF h9]
  have r9: "enforce_loop ex_ext ex_world ?z [(ex_room_channel, ex_room)] ex_forced
            = (Inl (IntegrityError Foreign_key), ex_forced)" .
  have sb: "sent_by ex_forced ex_forced_done
     = [Group_send ''rc'' ex_join,
        User_broadcast ''chat.channels''
          [\<lparr>ce_id = ''rc'', ce_unread_pointer = 0, ce_members = None\<rparr>] ''a'' ''dummysocket'']"
    by code_simp
  have h13: "pending ex_forced = []" by code_simp
  from t [where u = ?a and w = ex_world and s = ex_forced, THEN conjunct2, THEN conjunct2, THEN conjunct2, THEN conjunct2, THEN conjunct2, THEN conjunct2, THEN conjunct2, THEN conjunct2, THEN conjunct2, THEN conjunct2, THEN conjunct2, THEN conjunct2, THEN conjunct1, THEN mp, OF h13]
  have r13: "events ex_forced_done
             = events ex_forced @ sent_events (sent_by ex_forced ex_forced_done)"
    by (simp only: h7 snd_conv)
  have h14: "enforce_forced_joins ex_ext ex_world ?a ex_forced = (Inr (), ex_forced_done)
             \<and> truthy (map_of (profile ?a) ''display_name'')
             \<and> (ex_room_channel, ex_room) \<in> set (get_channels_to_join_forced ex_world ?a ex_forced)
             \<and> has_permission ex_world ?a ROOM_CHAT_JOIN (Some ex_room)"
    by code_simp
  have n14: "member_rows (channel_pk ex_room_channel) (uid ?a) ex_forced = []" by code_simp
  note s14 = t [where u = ?a and w = ex_world and s = ex_forced and ?s1.0 = ex_forced_done,
      THEN conjunct2, THEN conjunct2, THEN conjunct2, THEN conjunct2, THEN conjunct2, THEN conjunct2, THEN conjunct2, THEN conjunct2, THEN conjunct2, THEN conjunct2, THEN conjunct2, THEN conjunct2, THEN conjunct2, THEN conjunct1, THEN mp, OF h14]
  from s14 [THEN conjunct1] have j14: "joined ?a ''rc'' ex_forced_done" by (simp only: rc)
  from s14 [THEN conjunct2, THEN mp, OF n14]
  have a14: "(\<exists>ev. Group_send ''rc'' ev \<in> set (sent_by ex_forced ex_forced_done)
                   \<and> pe_event ev \<in> set (events ex_forced_done))"
    and u14: "(''rc'', ''a'') \<in> set (unread_notify ex_forced_done)"
    by (simp_all only: rc ua)
  from t [where u = ?a and w = ex_world and s = ex_forced and ?s1.0 = ex_forced_done,
      THEN conjunct2, THEN conjunct2, THEN conjunct2, THEN conjunct2, THEN conjunct2, THEN conjunct2, THEN conjunct2, THEN conjunct2, THEN conjunct2, THEN conjunct2, THEN conjunct2, THEN conjunct2, THEN conjunct2, THEN conjunct2, THEN conjunct2, THEN conjunct1, THEN mp, OF h7]
  have r16: "enforce_forced_joins ex_ext ex_world ?a ex_forced_done = (Inr (), ex_forced_done)" .
  have h17: "unique_members ex_forced" by code_simp
  from t [where u = ?a and w = ex_world and s = ex_forced, THEN conjunct2, THEN conjunct2, THEN conjunct2, THEN conjunct2, THEN conjunct2, THEN conjunct2, THEN conjunct2, THEN conjunct2, THEN conjunct2, THEN conjunct2, THEN conjunct2, THEN conjunct2, THEN conjunct2, THEN conjunct2, THEN conjunct2, THEN conjunct2, THEN mp, OF h17]
  have r17: "unique_members (snd (enforce_forced_joins ex_ext ex_world ?a ex_forced))" .
  show ?thesis
    by (intro conjI r1 r2 r3 r15 r6 r12 c7 r7 r8 r9 h7 sb r13 j14 a14 u14 r16 h17 r17)
qed

end
